(* ===== verification/Prelude.thy ===== *)
theory Prelude
  imports Main "HOL-Library.Word"
begin

unbundle bit_operations_syntax

text \<open>
  What every component of the development shares: the machine integers of the Rust source, the
  ways a computation can fail to return (panic, spinning on a lock, a deliberate endless loop, a
  loop that is still running), pure results and stateful operations over them, checked
  arithmetic, and the weakest-precondition rules and frame rules that carry the component proofs.

  The source is built with the default development profile of Cargo (the Makefile runs
  \<^verbatim>\<open>cargo build\<close> and \<^verbatim>\<open>cargo objcopy\<close> without a release flag), so an
  arithmetic overflow is a panic: \<open>checked_add\<close>, \<open>checked_sub\<close> and \<open>checked_mul\<close>
  below return the panic as a value.
\<close>

section \<open>Collections of rules\<close>

named_theorems wp \<open>weakest-precondition equations of the operations\<close>
named_theorems rets \<open>when and how an operation returns a value\<close>
named_theorems runs \<open>the result of an operation run from a state, to evaluate concrete runs\<close>

section \<open>Machine integers\<close>

type_synonym u8 = "8 word"
type_synonym u16 = "16 word"
type_synonym u32 = "32 word"
type_synonym u64 = "64 word"
type_synonym u128 = "128 word"
type_synonym usize = "64 word"

section \<open>Ways not to return\<close>

text \<open>Why a panic was raised: an unwrapped \<^verbatim>\<open>None\<close> or \<^verbatim>\<open>Err\<close>, an
  \<^verbatim>\<open>expect\<close> or \<^verbatim>\<open>panic!\<close> with its message, a failed assertion, an arithmetic
  overflow, a slice index or an \<^verbatim>\<open>ArrayVec\<close> capacity exceeded, a \<^verbatim>\<open>RefCell\<close>
  already borrowed, an \<^verbatim>\<open>unimplemented!\<close>.\<close>

datatype panic_reason =
    Unwrap_none
  | Unwrap_err
  | Expect string
  | Assert_failed string
  | Overflow
  | Out_of_bounds
  | Capacity_exceeded
  | Already_borrowed
  | Unimplemented string
  | Explicit string

text \<open>The spin locks of the program (\<^verbatim>\<open>SpinMutex\<close> statics).\<close>

datatype lock =
    CONSOLE_lock
  | SHARED_IRQ_HANDLERS_lock
  | GIC_lock
  | SECONDARY_STACKS_lock
  | HEAP_lock
  | PAGE_HEAP_lock
  | HEAP_ALLOCATOR_lock

text \<open>An operation that does not return a value has panicked, spins on a lock its own core
  already holds, sits in an explicit \<^verbatim>\<open>loop {}\<close>, has switched its core or the machine off, or is
  a loop whose iteration budget is used up.\<close>

datatype abort =
    Panic panic_reason
  | Spin lock
  | Halt
  | Powered_off
  | Still_running

section \<open>Pure results\<close>

type_synonym 'a res = "abort + 'a"

fun rbind :: "'a res \<Rightarrow> ('a \<Rightarrow> 'b res) \<Rightarrow> 'b res" where
  "rbind (Inl e) k = Inl e"
| "rbind (Inr x) k = k x"

fun unwrap :: "'e + 'a \<Rightarrow> 'a res" where
  "unwrap (Inl e) = Inl (Panic Unwrap_err)"
| "unwrap (Inr x) = Inr x"

fun unwrap_opt :: "'a option \<Rightarrow> 'a res" where
  "unwrap_opt None = Inl (Panic Unwrap_none)"
| "unwrap_opt (Some x) = Inr x"

fun expect_opt :: "string \<Rightarrow> 'a option \<Rightarrow> 'a res" where
  "expect_opt msg None = Inl (Panic (Expect msg))"
| "expect_opt msg (Some x) = Inr x"

definition require :: "panic_reason \<Rightarrow> bool \<Rightarrow> unit res" where
  "require r b = (if b then Inr () else Inl (Panic r))"

text \<open>The first element an iterator yields, as \<^verbatim>\<open>next()\<close> returns it.\<close>

fun next_opt :: "'a list \<Rightarrow> 'a option" where
  "next_opt [] = None"
| "next_opt (x # xs) = Some x"

lemma rbind_Inr [simp]: "rbind m Inr = m"
  by (cases m) simp_all

lemma rbind_eq_Inr [simp]: "rbind m k = Inr y \<longleftrightarrow> (\<exists>x. m = Inr x \<and> k x = Inr y)"
  by (cases m) simp_all

lemma rbind_eq_Inl:
  "rbind m k = Inl e \<longleftrightarrow> m = Inl e \<or> (\<exists>x. m = Inr x \<and> k x = Inl e)"
  by (cases m) simp_all

lemma unwrap_eq_Inr [simp]: "unwrap r = Inr x \<longleftrightarrow> r = Inr x"
  by (cases r) simp_all

lemma unwrap_opt_eq_Inr [simp]: "unwrap_opt r = Inr x \<longleftrightarrow> r = Some x"
  by (cases r) simp_all

lemma expect_opt_eq_Inr [simp]: "expect_opt msg r = Inr x \<longleftrightarrow> r = Some x"
  by (cases r) simp_all

lemma require_eq_Inr [simp]: "require r b = Inr x \<longleftrightarrow> b"
  by (simp add: require_def)

lemma require_True [simp]: "require r True = Inr ()"
  by (simp add: require_def)

lemma require_False [simp]: "require r False = Inl (Panic r)"
  by (simp add: require_def)

lemma next_opt_eq_Some: "next_opt xs = Some x \<longleftrightarrow> (\<exists>ys. xs = x # ys)"
  by (cases xs) auto

section \<open>Checked arithmetic\<close>

definition checked_add :: "'a::len word \<Rightarrow> 'a word \<Rightarrow> 'a word res" where
  "checked_add a b =
     (if unat a + unat b < 2 ^ LENGTH('a) then Inr (a + b) else Inl (Panic Overflow))"

definition checked_sub :: "'a::len word \<Rightarrow> 'a word \<Rightarrow> 'a word res" where
  "checked_sub a b = (if b \<le> a then Inr (a - b) else Inl (Panic Overflow))"

definition checked_mul :: "'a::len word \<Rightarrow> 'a word \<Rightarrow> 'a word res" where
  "checked_mul a b =
     (if unat a * unat b < 2 ^ LENGTH('a) then Inr (a * b) else Inl (Panic Overflow))"

lemma checked_add_unat:
  assumes "checked_add a b = Inr c"
  shows "unat c = unat a + unat b"
  using assms by (auto simp: checked_add_def unat_word_ariths split: if_splits)

lemma checked_sub_unat:
  assumes "checked_sub a b = Inr c"
  shows "unat c = unat a - unat b"
  using assms by (auto simp: checked_sub_def unat_sub split: if_splits)

lemma checked_mul_unat:
  assumes "checked_mul a b = Inr c"
  shows "unat c = unat a * unat b"
  using assms by (auto simp: checked_mul_def unat_word_ariths split: if_splits)

lemma checked_add_defined:
  fixes a b :: "'a::len word"
  shows "(\<exists>c. checked_add a b = Inr c) \<longleftrightarrow> unat a + unat b < 2 ^ LENGTH('a)"
  by (simp add: checked_add_def)

lemma checked_sub_defined: "(\<exists>c. checked_sub a b = Inr c) \<longleftrightarrow> b \<le> a"
  by (simp add: checked_sub_def)

section \<open>Stateful operations\<close>

text \<open>An operation takes the state and gives back a result or the reason it did not return,
  together with the state it leaves: what was done before a panic stays done.\<close>

type_synonym ('s, 'a) io = "'s \<Rightarrow> 'a res \<times> 's"

definition return_io :: "'a \<Rightarrow> ('s, 'a) io" where
  "return_io x s = (Inr x, s)"

definition abort_io :: "abort \<Rightarrow> ('s, 'a) io" where
  "abort_io e s = (Inl e, s)"

definition bind_io :: "('s, 'a) io \<Rightarrow> ('a \<Rightarrow> ('s, 'b) io) \<Rightarrow> ('s, 'b) io" where
  "bind_io m k s = (case m s of (Inl e, s') \<Rightarrow> (Inl e, s') | (Inr x, s') \<Rightarrow> k x s')"

definition lift_io :: "'a res \<Rightarrow> ('s, 'a) io" where
  "lift_io r s = (r, s)"

definition gets_io :: "('s \<Rightarrow> 'a) \<Rightarrow> ('s, 'a) io" where
  "gets_io f s = (Inr (f s), s)"

definition modify_io :: "('s \<Rightarrow> 's) \<Rightarrow> ('s, unit) io" where
  "modify_io f s = (Inr (), f s)"

text \<open>A block of statements, each run for its effect.\<close>

fun block_io :: "('s, unit) io list \<Rightarrow> ('s, unit) io" where
  "block_io [] = return_io ()"
| "block_io (m # ms) = bind_io m (\<lambda>_. block_io ms)"

text \<open>A \<^verbatim>\<open>for\<close> loop over the elements of an iterator.\<close>

fun for_each :: "'a list \<Rightarrow> ('a \<Rightarrow> ('s, unit) io) \<Rightarrow> ('s, unit) io" where
  "for_each [] f = return_io ()"
| "for_each (x # xs) f = bind_io (f x) (\<lambda>_. for_each xs f)"

text \<open>A loop that collects one result per element.\<close>

fun map_io :: "('a \<Rightarrow> ('s, 'b) io) \<Rightarrow> 'a list \<Rightarrow> ('s, 'b list) io" where
  "map_io f [] = return_io []"
| "map_io f (x # xs) = bind_io (f x) (\<lambda>y. bind_io (map_io f xs) (\<lambda>ys. return_io (y # ys)))"

subsection \<open>Weakest preconditions\<close>

text \<open>\<open>wpre m Q E s\<close>: run from \<open>s\<close>, the operation either returns a value that satisfies
  \<open>Q\<close> with the final state, or stops for a reason that satisfies \<open>E\<close> with it.\<close>

definition wpre :: "('s, 'a) io \<Rightarrow> ('a \<Rightarrow> 's \<Rightarrow> bool) \<Rightarrow> (abort \<Rightarrow> 's \<Rightarrow> bool) \<Rightarrow> 's \<Rightarrow> bool" where
  "wpre m Q E s = (case m s of (Inl e, s') \<Rightarrow> E e s' | (Inr x, s') \<Rightarrow> Q x s')"

lemma wpre_return [wp]: "wpre (return_io x) Q E = Q x"
  by (rule ext) (simp add: wpre_def return_io_def)

lemma wpre_abort [wp]: "wpre (abort_io e) Q E = E e"
  by (rule ext) (simp add: wpre_def abort_io_def)

lemma wpre_bind [wp]: "wpre (bind_io m k) Q E = wpre m (\<lambda>x. wpre (k x) Q E) E"
  by (rule ext) (simp add: wpre_def bind_io_def split: prod.split sum.split)

lemma wpre_lift [wp]:
  "wpre (lift_io r) Q E = (\<lambda>s. case r of Inl e \<Rightarrow> E e s | Inr x \<Rightarrow> Q x s)"
  by (rule ext) (simp add: wpre_def lift_io_def split: sum.split)

lemma wpre_gets [wp]: "wpre (gets_io f) Q E = (\<lambda>s. Q (f s) s)"
  by (rule ext) (simp add: wpre_def gets_io_def)

lemma wpre_modify [wp]: "wpre (modify_io f) Q E = (\<lambda>s. Q () (f s))"
  by (rule ext) (simp add: wpre_def modify_io_def)

lemma wpre_if [wp]:
  "wpre (if b then m else m') Q E = (\<lambda>s. if b then wpre m Q E s else wpre m' Q E s)"
  by (rule ext) simp

lemma wpre_case_option [wp]:
  "wpre (case x of None \<Rightarrow> m | Some y \<Rightarrow> f y) Q E =
     (\<lambda>s. case x of None \<Rightarrow> wpre m Q E s | Some y \<Rightarrow> wpre (f y) Q E s)"
  by (rule ext) (simp split: option.split)

lemma wpre_case_sum [wp]:
  "wpre (case x of Inl y \<Rightarrow> f y | Inr z \<Rightarrow> g z) Q E =
     (\<lambda>s. case x of Inl y \<Rightarrow> wpre (f y) Q E s | Inr z \<Rightarrow> wpre (g z) Q E s)"
  by (rule ext) (simp split: sum.split)

lemma wpre_case_prod [wp]:
  "wpre (case x of (y, z) \<Rightarrow> f y z) Q E = (\<lambda>s. case x of (y, z) \<Rightarrow> wpre (f y z) Q E s)"
  by (rule ext) (simp split: prod.split)

lemma wpre_block_Nil [wp]: "wpre (block_io []) Q E = Q ()"
  by (simp add: wp)

lemma wpre_block_Cons [wp]:
  "wpre (block_io (m # ms)) Q E = wpre m (\<lambda>_. wpre (block_io ms) Q E) E"
  by (simp add: wp)

lemma wpre_mono:
  assumes "wpre m Q E s"
    and "\<And>x s'. Q x s' \<Longrightarrow> Q' x s'"
    and "\<And>e s'. E e s' \<Longrightarrow> E' e s'"
  shows "wpre m Q' E' s"
  using assms by (auto simp: wpre_def split: prod.splits sum.splits)

lemma wpre_cases:
  assumes "wpre m Q E s"
  obtains (returned) x s' where "m s = (Inr x, s')" "Q x s'"
    | (aborted) e s' where "m s = (Inl e, s')" "E e s'"
  using assms by (auto simp: wpre_def split: prod.splits sum.splits)

lemma wpre_runs:
  assumes "wpre m Q E s" and "m s = (Inr x, s')"
  shows "Q x s'"
  using assms by (simp add: wpre_def)

lemma wpre_True: "wpre m (\<lambda>_ _. True) (\<lambda>_ _. True) s"
  by (simp add: wpre_def split: prod.split sum.split)

lemma wpre_returned:
  "wpre m Q (\<lambda>_ _. False) s \<longleftrightarrow> (\<exists>x s'. m s = (Inr x, s') \<and> Q x s')"
  by (auto simp: wpre_def split: prod.splits sum.splits)

lemma wpre_aborted:
  "wpre m (\<lambda>_ _. False) E s \<longleftrightarrow> (\<exists>e s'. m s = (Inl e, s') \<and> E e s')"
  by (auto simp: wpre_def split: prod.splits sum.splits)

lemma wpre_eqI:
  assumes "wpre m (\<lambda>x t. (Inr x, t) = v) (\<lambda>e t. (Inl e, t) = v) s"
  shows "m s = v"
  using assms by (auto simp: wpre_def split: prod.splits sum.splits)

lemma wpre_for_each:
  assumes step: "\<And>x s. x \<in> set xs \<Longrightarrow> I s \<Longrightarrow> wpre (f x) (\<lambda>_. I) E s"
    and "I s"
  shows "wpre (for_each xs f) (\<lambda>_. I) E s"
  using assms
proof (induction xs arbitrary: s)
  case Nil
  then show ?case by (simp add: wp)
next
  case (Cons x xs)
  have "wpre (f x) (\<lambda>_. I) E s" using Cons.prems by simp
  moreover have "I s' \<Longrightarrow> wpre (for_each xs f) (\<lambda>_. I) E s'" for s'
    using Cons.prems(1) by (intro Cons.IH) auto
  ultimately show ?case by (auto simp: wp intro: wpre_mono)
qed

subsection \<open>Runs that return\<close>

lemma rets_return [rets]: "return_io x s = (Inr y, t) \<longleftrightarrow> y = x \<and> t = s"
  by (auto simp: return_io_def)

lemma rets_abort [rets]: "abort_io e s \<noteq> (Inr y, t)"
  by (simp add: abort_io_def)

lemma rets_lift [rets]: "lift_io r s = (Inr y, t) \<longleftrightarrow> r = Inr y \<and> t = s"
  by (auto simp: lift_io_def)

lemma rets_gets [rets]: "gets_io f s = (Inr y, t) \<longleftrightarrow> y = f s \<and> t = s"
  by (auto simp: gets_io_def)

lemma rets_modify [rets]: "modify_io f s = (Inr y, t) \<longleftrightarrow> t = f s"
  by (auto simp: modify_io_def)

lemma rets_bind [rets]:
  "bind_io m k s = (Inr y, t) \<longleftrightarrow> (\<exists>x s'. m s = (Inr x, s') \<and> k x s' = (Inr y, t))"
  by (auto simp: bind_io_def split: prod.splits sum.splits)

subsection \<open>Evaluating a run\<close>

lemma bind_run [runs]:
  "bind_io m k s = (case m s of (r, s') \<Rightarrow> case r of Inl e \<Rightarrow> (Inl e, s') | Inr x \<Rightarrow> k x s')"
  by (simp add: bind_io_def split: prod.split sum.split)

declare return_io_def [runs] abort_io_def [runs] lift_io_def [runs] gets_io_def [runs] modify_io_def [runs]

subsection \<open>What every run keeps\<close>

text \<open>\<open>keeps R m\<close>: whatever happens in \<open>m\<close>, also when it aborts, the state before and
  the state after are related by \<open>R\<close>.\<close>

definition keeps :: "('s \<Rightarrow> 's \<Rightarrow> bool) \<Rightarrow> ('s, 'a) io \<Rightarrow> bool" where
  "keeps R m \<longleftrightarrow> (\<forall>s. R s (snd (m s)))"

lemma keepsI: "(\<And>s. R s (snd (m s))) \<Longrightarrow> keeps R m"
  by (simp add: keeps_def)

lemma keepsD: "keeps R m \<Longrightarrow> m s = (r, s') \<Longrightarrow> R s s'"
  by (metis keeps_def snd_conv)

lemma keeps_modify: "(\<And>s. R s (f s)) \<Longrightarrow> keeps R (modify_io f)"
  by (simp add: keeps_def modify_io_def)

text \<open>\<open>returns R m\<close>: whenever \<open>m\<close> returns, the state before and the state after are
  related by \<open>R\<close>.\<close>

definition returns :: "('s \<Rightarrow> 's \<Rightarrow> bool) \<Rightarrow> ('s, 'a) io \<Rightarrow> bool" where
  "returns R m \<longleftrightarrow> (\<forall>s x s'. m s = (Inr x, s') \<longrightarrow> R s s')"

lemma returnsI: "(\<And>s x s'. m s = (Inr x, s') \<Longrightarrow> R s s') \<Longrightarrow> returns R m"
  by (simp add: returns_def)

lemma returnsD: "returns R m \<Longrightarrow> m s = (Inr x, s') \<Longrightarrow> R s s'"
  by (simp add: returns_def)

lemma keeps_returns: "keeps R m \<Longrightarrow> returns R m"
  by (auto intro: returnsI dest: keepsD)

lemma for_each_returned:
  assumes "for_each xs f s = (Inr u, t)" and "x \<in> set xs"
  shows "\<exists>s' v t'. f x s' = (Inr v, t')"
  using assms by (induction xs arbitrary: s) (auto simp: rets_bind)

text \<open>A relation between states that holds over nothing and over two runs in a row is kept by
  every composition of operations that keep it.\<close>

locale frame =
  fixes R :: "'s \<Rightarrow> 's \<Rightarrow> bool"
  assumes frame_refl: "R s s"
    and frame_trans: "R s t \<Longrightarrow> R t u \<Longrightarrow> R s u"
begin

lemma keeps_return: "keeps R (return_io x)"
  by (simp add: keeps_def return_io_def frame_refl)

lemma keeps_abort: "keeps R (abort_io e)"
  by (simp add: keeps_def abort_io_def frame_refl)

lemma keeps_lift: "keeps R (lift_io r)"
  by (simp add: keeps_def lift_io_def frame_refl)

lemma keeps_gets: "keeps R (gets_io f)"
  by (simp add: keeps_def gets_io_def frame_refl)

lemma keeps_bind:
  assumes "keeps R m" and "\<And>x. keeps R (k x)"
  shows "keeps R (bind_io m k)"
proof (rule keepsI)
  fix s
  obtain r s' where m: "m s = (r, s')" by fastforce
  have 1: "R s s'" using assms(1) m by (rule keepsD)
  show "R s (snd (bind_io m k s))"
  proof (cases r)
    case (Inl e)
    with 1 m show ?thesis by (simp add: bind_io_def)
  next
    case (Inr x)
    have "R s' (snd (k x s'))" using assms(2) [of x] by (simp add: keeps_def)
    with 1 have "R s (snd (k x s'))" by (rule frame_trans)
    with Inr m show ?thesis by (simp add: bind_io_def)
  qed
qed

lemma keeps_block:
  assumes "\<And>m. m \<in> set ms \<Longrightarrow> keeps R m"
  shows "keeps R (block_io ms)"
  using assms by (induction ms) (auto intro: keeps_return keeps_bind)

lemma keeps_for_each:
  assumes "\<And>x. x \<in> set xs \<Longrightarrow> keeps R (f x)"
  shows "keeps R (for_each xs f)"
  using assms by (induction xs) (auto intro: keeps_return keeps_bind)

lemma keeps_map_io:
  assumes "\<And>x. x \<in> set xs \<Longrightarrow> keeps R (f x)"
  shows "keeps R (map_io f xs)"
  using assms by (induction xs) (auto intro: keeps_return keeps_bind)

lemmas keeps_basic = keeps_return keeps_abort keeps_lift keeps_gets

lemma returns_bind:
  assumes "returns R m" and "\<And>x. returns R (k x)"
  shows "returns R (bind_io m k)"
  using assms by (fastforce simp: returns_def rets_bind intro: frame_trans)

lemma returns_abort: "returns R (abort_io e)"
  by (simp add: returns_def abort_io_def)

lemma returns_block:
  assumes "\<And>m. m \<in> set ms \<Longrightarrow> returns R m"
  shows "returns R (block_io ms)"
  using assms by (induction ms) (auto intro: keeps_returns keeps_return returns_bind)

lemma returns_for_each:
  assumes "\<And>x. x \<in> set xs \<Longrightarrow> returns R (f x)"
  shows "returns R (for_each xs f)"
  using assms by (induction xs) (auto intro: keeps_returns keeps_return returns_bind)

lemma returns_map_io:
  assumes "\<And>x. x \<in> set xs \<Longrightarrow> returns R (f x)"
  shows "returns R (map_io f xs)"
  using assms by (induction xs) (auto intro: keeps_returns keeps_return returns_bind)

end

end
