(* ===== verification/Machine.thy ===== *)
theory Machine
  imports Prelude
begin

text \<open>
  The boundary between the program and what it calls but does not contain: the device drivers,
  the firmware and the system registers. Every such call is an \<open>event\<close> of one trace. What a
  call replies is a parameter of the model: a field of an environment record, a function of the
  trace so far, so that a device with any internal state is covered. The base state record holds
  the trace, the spin locks the running core holds, whether it has interrupts masked, and the
  logger; the components extend both records.

  The second half models logger.rs and the writing half of console.rs: every byte that reaches
  the console passes through an exception-free section in which the console's spin lock is held.
\<close>

section \<open>Data of the calls\<close>

text \<open>The interrupt identifiers of the GIC: software-generated, private peripheral, shared
  peripheral, and the remaining ones.\<close>

datatype intid = Sgi u32 | Ppi u32 | Spi u32 | Other_intid u32

datatype trigger = Edge_trigger | Level_trigger

text \<open>Log levels, least verbose first.\<close>

datatype level = Off | Error | Warn | Info | Debug | Trace

fun level_rank :: "level \<Rightarrow> nat" where
  "level_rank Off = 0"
| "level_rank Error = 1"
| "level_rank Warn = 2"
| "level_rank Info = 3"
| "level_rank Debug = 4"
| "level_rank Trace = 5"

lemma level_rank_inject: "level_rank a = level_rank b \<longleftrightarrow> a = b"
  by (cases a; cases b) simp_all

instantiation level :: linorder
begin

definition less_eq_level :: "level \<Rightarrow> level \<Rightarrow> bool" where
  "less_eq_level a b \<longleftrightarrow> level_rank a \<le> level_rank b"

definition less_level :: "level \<Rightarrow> level \<Rightarrow> bool" where
  "less_level a b \<longleftrightarrow> level_rank a < level_rank b"

instance
  by standard (auto simp: less_eq_level_def less_level_def level_rank_inject [symmetric])

end

text \<open>A region of virtual addresses, page aligned, as the page table crate represents it.\<close>

record memory_region =
  mr_start :: usize
  mr_end :: usize

text \<open>The states PSCI reports for a core.\<close>

datatype affinity_state = Aff_on | Aff_off | Aff_on_pending

datatype affinity_level = Aff_all | Aff0_ignored | Aff0_aff1_ignored | Aff0_aff1_aff2_ignored

text \<open>How the firmware is called.\<close>

datatype conduit = Smc | Hvc

type_synonym device_function = "u8 \<times> u8 \<times> u8"

text \<open>The arguments of a formatted write or log line, not rendered: which value stands at which
  placeholder of the format string. \<open>A_fmt\<close> is a value whose \<^verbatim>\<open>Display\<close> implementation is
  part of the program, \<open>A_token\<close> one that is opaque to it.\<close>

datatype arg =
    A_str string
  | A_bytes "u8 list"
  | A_nat nat
  | A_int int
  | A_u32 u32
  | A_u64 u64
  | A_bool bool
  | A_intid intid
  | A_region memory_region
  | A_affinity affinity_state
  | A_token nat
  | A_fmt string "arg list"

section \<open>Events\<close>

text \<open>The console: a formatted write, a raw write, a line of the logger, the panic message, and
  the calls of the UART driver below it: creating it at an address, initialising it, unmasking its
  receive interrupt, asking for data, reading at most so many bytes, clearing the receive interrupt.\<close>

datatype con_event =
    Con_bytes "u8 list"
  | Con_fmt string "arg list"
  | Log_line level string "arg list"
  | Panic_line panic_reason
  | Con_flush
  | Uart_new u64
  | Uart_init
  | Uart_unmask_rxi
  | Uart_read_ready
  | Uart_read nat
  | Uart_clear_rxi

text \<open>The core itself: waiting for an interrupt, enabling interrupts, writing \<^verbatim>\<open>HCR_EL2\<close>.\<close>

datatype cpu_event = Wfi | Irq_enable | Write_hcr_el2 u64

text \<open>\<^verbatim>\<open>SgiTarget\<close> and \<^verbatim>\<open>SgiTargetGroup\<close> of the interrupt controller's crate: the values that the program uses, and the
  others by a number.\<close>

datatype sgi_target = SgiTarget_All | Other_sgi_target nat

datatype sgi_target_group = CurrentGroup1 | Other_sgi_group nat

text \<open>The interrupt controller: the driver object, then the CPU interface. A software generated interrupt is sent to a
  target, in a group.\<close>

datatype gic_event =
    Gic_new u64 u64 nat
  | Gic_setup nat
  | Gic_init_cpu nat
  | Gic_set_priority intid "nat option" u8
  | Gic_set_trigger intid "nat option" trigger
  | Gic_enable intid "nat option" bool
  | Gicc_acknowledge
  | Gicc_end_interrupt intid
  | Gicc_set_priority_mask u8
  | Gicc_enable_group1 bool
  | Gicc_send_sgi intid sgi_target sgi_target_group

datatype rtc_event =
    Rtc_new u64
  | Rtc_get_time
  | Rtc_set_match int
  | Rtc_enable_interrupt bool
  | Rtc_clear_interrupt

text \<open>Firmware calls, and the heap allocation of a secondary core's stack.\<close>

datatype psci_event =
    Psci_version conduit
  | Psci_affinity_info conduit u64 affinity_level
  | Psci_cpu_on conduit u64 u64
  | Psci_cpu_off conduit
  | Psci_system_off conduit
  | Alloc_stack u64

text \<open>The page table: exception level, region, physical start and attributes of a mapping; exception
  level of an activation; exception level, ASID and root level of a new table.\<close>

datatype pt_event =
    Map_range nat memory_region u64 u64
  | Activate nat
  | Mapping_new nat "nat option" nat

text \<open>The PCI configuration space of the root at an MMIO base address.\<close>

datatype pci_event =
    Pci_enumerate u64
  | Pci_bars u64 device_function
  | Set_bar_32 u64 device_function u8 u32
  | Set_bar_64 u64 device_function u8 u64
  | Set_command u64 device_function u16
  | Pci_status u64 device_function

text \<open>VirtIO transports and devices, each known by a token: creating a transport for a register block or
  for a PCI function, reading its features or status, creating a driver on it, and the calls of the
  drivers. The socket calls carry the peer's context identifier and port and the local port. Last, the
  allocation of zeroed memory for DMA and its release, with size and alignment.\<close>

datatype virtio_event =
    Mmio_transport_new u64 usize
  | Pci_transport_new u64 device_function
  | Read_features nat
  | Get_status nat
  | Blk_new nat
  | Vcon_new nat
  | Vsock_new nat
  | Blk_id nat
  | Vcon_size nat
  | Vsock_connect nat u64 u32 u32
  | Vsock_send nat u64 u32 u32 "u8 list"
  | Vsock_poll nat
  | Vsock_available nat u64 u32 u32
  | Vsock_recv nat u64 u32 u32 nat
  | Dma_alloc usize usize
  | Dma_dealloc u64 usize usize

text \<open>Giving memory to the global heap and to the heap of the page table: address and length.\<close>

datatype mem_event =
    Global_heap_init u64 usize
  | Page_heap_init u64 usize

datatype event =
    Con con_event
  | Cpu cpu_event
  | Gic gic_event
  | Rtc rtc_event
  | Psci psci_event
  | Pt pt_event
  | Pci pci_event
  | Virtio virtio_event
  | Mem mem_event

section \<open>Histories\<close>

text \<open>Data that the calls of a history carried, in order; what a call carried may depend on the history before it,
  as the reply to a read does.\<close>

definition gather :: "(event list \<Rightarrow> event \<Rightarrow> 'a list) \<Rightarrow> event list \<Rightarrow> 'a list" where
  "gather f h = concat (map (\<lambda>i. f (take i h) (h ! i)) [0..<length h])"

lemma gather_snoc: "gather f (h @ [e]) = gather f h @ f h e"
  by (simp add: gather_def) (rule arg_cong [of _ _ concat], rule map_cong, auto simp: nth_append)

lemma gather_snoc2: "gather f (h @ [a, b]) = gather f h @ f h a @ f (h @ [a]) b"
  using gather_snoc [of f "h @ [a]" b] by (simp add: gather_snoc)

lemma gather_silent:
  assumes "\<And>e h. e \<in> set es \<Longrightarrow> f h e = []"
  shows "gather f (h @ es) = gather f h"
  using assms by (induction es rule: rev_induct) (simp_all add: gather_snoc flip: append_assoc)

section \<open>Base state and environment\<close>

text \<open>\<open>console_set\<close> is whether \<^verbatim>\<open>CONSOLE\<close>, a \<^verbatim>\<open>Once\<close>, has been initialised. \<open>logger\<close> is \<open>None\<close> until \<^verbatim>\<open>logger::init\<close> has installed the console as the logger,
  then the maximum level.\<close>

record io_state =
  trace :: "event list"
  held :: "lock list"
  masked :: bool
  console_set :: bool
  logger :: "level option"

text \<open>The console driver's replies, from the trace so far and the call: whether a write or a set-up call
  succeeded, whether data is ready, the bytes a read of at most so many bytes gives. A formatted write
  or a \<^verbatim>\<open>write_all\<close> is one event: the trait's own methods turn it into calls of \<^verbatim>\<open>write\<close> and consume
  the byte counts.\<close>

datatype uart_error = Uart_error

record con_env =
  write_reply :: "event list \<Rightarrow> con_event \<Rightarrow> uart_error + unit"
  read_ready_reply :: "event list \<Rightarrow> uart_error + bool"
  read_reply :: "event list \<Rightarrow> nat \<Rightarrow> uart_error + u8 list"

definition emit :: "event \<Rightarrow> ('s io_state_scheme, unit) io" where
  "emit ev = modify_io (\<lambda>s. s\<lparr>trace := trace s @ [ev]\<rparr>)"

text \<open>A call out of the program: the reply is what the environment gives for the trace so far,
  and the call is recorded.\<close>

definition call :: "(event list \<Rightarrow> 'r) \<Rightarrow> event \<Rightarrow> ('s io_state_scheme, 'r) io" where
  "call reply ev =
     bind_io (gets_io (\<lambda>s. reply (trace s))) (\<lambda>r.
     bind_io (emit ev) (\<lambda>_.
     return_io r))"

section \<open>Locks and exception masking\<close>

text \<open>\<^verbatim>\<open>SpinMutex::lock\<close>: a core that already holds the lock spins for ever.\<close>

definition acquire :: "lock \<Rightarrow> ('s io_state_scheme, unit) io" where
  "acquire l s = (if l \<in> set (held s) then (Inl (Spin l), s) else (Inr (), s\<lparr>held := l # held s\<rparr>))"

definition release :: "lock \<Rightarrow> ('s io_state_scheme, unit) io" where
  "release l = modify_io (\<lambda>s. s\<lparr>held := remove1 l (held s)\<rparr>)"

text \<open>A guard's scope. A panic inside it never releases the lock: the program does not unwind.\<close>

definition with_lock :: "lock \<Rightarrow> ('s io_state_scheme, 'a) io \<Rightarrow> ('s io_state_scheme, 'a) io" where
  "with_lock l m =
     bind_io (acquire l) (\<lambda>_.
     bind_io m (\<lambda>x.
     bind_io (release l) (\<lambda>_.
     return_io x)))"

text \<open>\<^verbatim>\<open>exception_free\<close>: interrupts are masked for the closure and the previous state is
  restored when it returns.\<close>

definition exception_free :: "('s io_state_scheme, 'a) io \<Rightarrow> ('s io_state_scheme, 'a) io" where
  "exception_free m =
     bind_io (gets_io masked) (\<lambda>old.
     bind_io (modify_io (\<lambda>s. s\<lparr>masked := True\<rparr>)) (\<lambda>_.
     bind_io m (\<lambda>x.
     bind_io (modify_io (\<lambda>s. s\<lparr>masked := old\<rparr>)) (\<lambda>_.
     return_io x))))"

section \<open>Writing to the console, logging\<close>

text \<open>\<^verbatim>\<open>Write for &SharedConsole\<close>: the driver is
  used under the lock with exceptions masked, and its error is handed back.\<close>

definition shared_write :: "'e con_env_scheme \<Rightarrow> con_event \<Rightarrow> ('s io_state_scheme, uart_error + unit) io" where
  "shared_write E ev = exception_free (with_lock CONSOLE_lock (call (\<lambda>h. write_reply E h ev) (Con ev)))"

definition shared_flush :: "'e con_env_scheme \<Rightarrow> ('s io_state_scheme, uart_error + unit) io" where
  "shared_flush E = shared_write E Con_flush"

text \<open>\<^verbatim>\<open>Write for Console\<close>, the owner of the console, hands on to the shared part.\<close>

definition console_write :: "'e con_env_scheme \<Rightarrow> con_event \<Rightarrow> ('s io_state_scheme, uart_error + unit) io" where
  "console_write E ev = shared_write E ev"

definition console_flush :: "'e con_env_scheme \<Rightarrow> ('s io_state_scheme, uart_error + unit) io" where
  "console_flush E = shared_flush E"

text \<open>\<^verbatim>\<open>write!(console, ...).unwrap()\<close>, \<^verbatim>\<open>console.write_all(...).unwrap()\<close>.\<close>

definition con_fmt :: "'e con_env_scheme \<Rightarrow> string \<Rightarrow> arg list \<Rightarrow> ('s io_state_scheme, unit) io" where
  "con_fmt E lit args = bind_io (console_write E (Con_fmt lit args)) (\<lambda>r. lift_io (unwrap r))"

definition con_bytes :: "'e con_env_scheme \<Rightarrow> u8 list \<Rightarrow> ('s io_state_scheme, unit) io" where
  "con_bytes E bs = bind_io (console_write E (Con_bytes bs)) (\<lambda>r. lift_io (unwrap r))"

text \<open>\<^verbatim>\<open>Log for SharedConsole\<close>: the result of the write is unwrapped while the lock is still
  held.\<close>

definition log_enabled :: "bool" where
  "log_enabled = True"

definition log_flush :: "('s io_state_scheme, unit) io" where
  "log_flush = return_io ()"

definition log_record :: "'e con_env_scheme \<Rightarrow> level \<Rightarrow> string \<Rightarrow> arg list \<Rightarrow> ('s io_state_scheme, unit) io" where
  "log_record E lvl lit args =
     exception_free (with_lock CONSOLE_lock (
       bind_io (call (\<lambda>h. write_reply E h (Log_line lvl lit args)) (Con (Log_line lvl lit args))) (\<lambda>r.
       lift_io (unwrap r))))"

text \<open>The \<^verbatim>\<open>error!\<close>, \<^verbatim>\<open>warn!\<close>, \<^verbatim>\<open>info!\<close>, \<^verbatim>\<open>debug!\<close> and
  \<^verbatim>\<open>trace!\<close> macros: nothing happens before a logger is installed or above the maximum
  level.\<close>

definition log :: "'e con_env_scheme \<Rightarrow> level \<Rightarrow> string \<Rightarrow> arg list \<Rightarrow> ('s io_state_scheme, unit) io" where
  "log E lvl lit args =
     bind_io (gets_io logger) (\<lambda>l.
     case l of
       None \<Rightarrow> return_io ()
     | Some max_level \<Rightarrow>
         if lvl \<le> max_level \<and> log_enabled then log_record E lvl lit args else return_io ())"

text \<open>A log line whose arguments are expressions that may panic: they are evaluated only when the
  line is written.\<close>

definition log_lazy :: "'e con_env_scheme \<Rightarrow> level \<Rightarrow> string \<Rightarrow> arg list res \<Rightarrow> ('s io_state_scheme, unit) io" where
  "log_lazy E lvl lit args =
     bind_io (gets_io logger) (\<lambda>l.
     case l of
       None \<Rightarrow> return_io ()
     | Some max_level \<Rightarrow>
         if lvl \<le> max_level then bind_io (lift_io args) (log E lvl lit) else return_io ())"

text \<open>\<^verbatim>\<open>logger::init\<close>: installing a second logger is an error.\<close>

datatype set_logger_error = Set_logger_error

definition logger_init :: "level \<Rightarrow> ('s io_state_scheme, set_logger_error + unit) io" where
  "logger_init max_level =
     bind_io (gets_io logger) (\<lambda>l.
     case l of
       Some _ \<Rightarrow> return_io (Inl Set_logger_error)
     | None \<Rightarrow>
         bind_io (modify_io (\<lambda>s. s\<lparr>logger := Some max_level\<rparr>)) (\<lambda>_.
         return_io (Inr ())))"

section \<open>Rules\<close>

lemma wpre_emit [wp]: "wpre (emit ev) Q E = (\<lambda>s. Q () (s\<lparr>trace := trace s @ [ev]\<rparr>))"
  by (simp add: emit_def wp)

lemma wpre_call [wp]:
  "wpre (call reply ev) Q E = (\<lambda>s. Q (reply (trace s)) (s\<lparr>trace := trace s @ [ev]\<rparr>))"
  by (simp add: call_def wp)

lemma wpre_acquire [wp]:
  "wpre (acquire l) Q E =
     (\<lambda>s. if l \<in> set (held s) then E (Spin l) s else Q () (s\<lparr>held := l # held s\<rparr>))"
  by (rule ext) (simp add: acquire_def wpre_def)

lemma wpre_release [wp]:
  "wpre (release l) Q E = (\<lambda>s. Q () (s\<lparr>held := remove1 l (held s)\<rparr>))"
  by (simp add: release_def wp)

lemma wpre_with_lock [wp]:
  "wpre (with_lock l m) Q E =
     (\<lambda>s. if l \<in> set (held s) then E (Spin l) s
      else wpre m (\<lambda>x s'. Q x (s'\<lparr>held := remove1 l (held s')\<rparr>)) E (s\<lparr>held := l # held s\<rparr>))"
  by (simp add: with_lock_def wp)

lemma wpre_exception_free [wp]:
  "wpre (exception_free m) Q E =
     (\<lambda>s. wpre m (\<lambda>x s'. Q x (s'\<lparr>masked := masked s\<rparr>)) E (s\<lparr>masked := True\<rparr>))"
  by (simp add: exception_free_def wp)

lemma wpre_shared_write [wp]:
  "wpre (shared_write C ev) Q E =
     (\<lambda>s. if CONSOLE_lock \<in> set (held s) then E (Spin CONSOLE_lock) (s\<lparr>masked := True\<rparr>)
      else Q (write_reply C (trace s) ev) (s\<lparr>trace := trace s @ [Con ev]\<rparr>))"
  by (simp add: shared_write_def wp)

text \<open>Whether a line of a level reaches the console.\<close>

definition logs :: "level \<Rightarrow> 's io_state_scheme \<Rightarrow> bool" where
  "logs lvl s = (case logger s of None \<Rightarrow> False | Some max_level \<Rightarrow> lvl \<le> max_level)"

lemma wpre_log [wp]:
  "wpre (log C lvl lit args) Q E =
     (\<lambda>s. if \<not> logs lvl s then Q () s
      else if CONSOLE_lock \<in> set (held s) then E (Spin CONSOLE_lock) (s\<lparr>masked := True\<rparr>)
      else case write_reply C (trace s) (Log_line lvl lit args) of
        Inl _ \<Rightarrow> E (Panic Unwrap_err)
          (s\<lparr>masked := True, held := CONSOLE_lock # held s,
             trace := trace s @ [Con (Log_line lvl lit args)]\<rparr>)
      | Inr _ \<Rightarrow> Q () (s\<lparr>trace := trace s @ [Con (Log_line lvl lit args)]\<rparr>))"
  by (rule ext)
    (simp add: log_def log_record_def log_enabled_def logs_def wp split: option.split sum.split)

lemma wpre_log_lazy [wp]:
  "wpre (log_lazy C lvl lit args) Q E =
     (\<lambda>s. if \<not> logs lvl s then Q () s
      else case args of Inl e \<Rightarrow> E e s | Inr xs \<Rightarrow> wpre (log C lvl lit xs) Q E s)"
  by (rule ext) (simp add: log_lazy_def logs_def wp split: option.split sum.split)

lemma wpre_con_fmt [wp]:
  "wpre (con_fmt C lit args) Q E =
     (\<lambda>s. if CONSOLE_lock \<in> set (held s) then E (Spin CONSOLE_lock) (s\<lparr>masked := True\<rparr>)
      else case write_reply C (trace s) (Con_fmt lit args) of
        Inl _ \<Rightarrow> E (Panic Unwrap_err) (s\<lparr>trace := trace s @ [Con (Con_fmt lit args)]\<rparr>)
      | Inr _ \<Rightarrow> Q () (s\<lparr>trace := trace s @ [Con (Con_fmt lit args)]\<rparr>))"
  by (rule ext) (simp add: con_fmt_def console_write_def wp split: sum.split)

lemma wpre_con_bytes [wp]:
  "wpre (con_bytes C bs) Q E =
     (\<lambda>s. if CONSOLE_lock \<in> set (held s) then E (Spin CONSOLE_lock) (s\<lparr>masked := True\<rparr>)
      else case write_reply C (trace s) (Con_bytes bs) of
        Inl _ \<Rightarrow> E (Panic Unwrap_err) (s\<lparr>trace := trace s @ [Con (Con_bytes bs)]\<rparr>)
      | Inr _ \<Rightarrow> Q () (s\<lparr>trace := trace s @ [Con (Con_bytes bs)]\<rparr>))"
  by (rule ext) (simp add: con_bytes_def console_write_def wp split: sum.split)

text \<open>Whatever happens to a log line, only console events are added.\<close>

lemma wpre_log_con:
  assumes "\<And>t es. trace t = trace s @ map Con es \<Longrightarrow> Q () t"
    and "\<And>e t es. trace t = trace s @ map Con es \<Longrightarrow> R e t"
  shows "wpre (log C lvl lit args) Q R s"
proof -
  have Q: "Q () s" "Q () (s\<lparr>trace := trace s @ [Con c]\<rparr>)" for c
    using assms(1) [of s "[]"] assms(1) [of "s\<lparr>trace := trace s @ [Con c]\<rparr>" "[c]"] by simp_all
  have R: "R e (s\<lparr>masked := True\<rparr>)"
    "R e (s\<lparr>masked := True, held := l, trace := trace s @ [Con c]\<rparr>)" for e l c
    using assms(2) [of "s\<lparr>masked := True\<rparr>" "[]"]
      assms(2) [of "s\<lparr>masked := True, held := l, trace := trace s @ [Con c]\<rparr>" "[c]"] by simp_all
  show ?thesis by (simp add: wpre_log Q R split: sum.split)
qed

text \<open>The console driver never reports an error.\<close>

definition console_ok :: "'e con_env_scheme \<Rightarrow> bool" where
  "console_ok C \<longleftrightarrow> (\<forall>h ev. \<exists>u. write_reply C h ev = Inr u)"

lemma console_okD: "console_ok C \<Longrightarrow> write_reply C h ev = Inr ()"
  by (auto simp: console_ok_def)

lemma rets_emit [rets]: "emit ev s = (Inr u, t) \<longleftrightarrow> t = s\<lparr>trace := trace s @ [ev]\<rparr>"
  by (simp add: emit_def rets)

lemma rets_call [rets]:
  "call f ev s = (Inr r, t) \<longleftrightarrow> r = f (trace s) \<and> t = s\<lparr>trace := trace s @ [ev]\<rparr>"
  by (auto simp: call_def rets)

lemma rets_acquire [rets]:
  "acquire l s = (Inr u, t) \<longleftrightarrow> l \<notin> set (held s) \<and> t = s\<lparr>held := l # held s\<rparr>"
  by (auto simp: acquire_def)

lemma rets_release [rets]: "release l s = (Inr u, t) \<longleftrightarrow> t = s\<lparr>held := remove1 l (held s)\<rparr>"
  by (simp add: release_def rets)

lemma rets_with_lock [rets]:
  "with_lock l m s = (Inr x, t) \<longleftrightarrow>
     l \<notin> set (held s) \<and>
     (\<exists>s'. m (s\<lparr>held := l # held s\<rparr>) = (Inr x, s') \<and> t = s'\<lparr>held := remove1 l (held s')\<rparr>)"
  by (auto simp: with_lock_def rets)

lemma rets_exception_free [rets]:
  "exception_free m s = (Inr x, t) \<longleftrightarrow>
     (\<exists>s'. m (s\<lparr>masked := True\<rparr>) = (Inr x, s') \<and> t = s'\<lparr>masked := masked s\<rparr>)"
  by (auto simp: exception_free_def rets)

lemma rets_log [rets]:
  "log C lvl lit args s = (Inr u, t) \<longleftrightarrow>
     (if logs lvl s
      then CONSOLE_lock \<notin> set (held s) \<and> write_reply C (trace s) (Log_line lvl lit args) = Inr () \<and>
        t = s\<lparr>trace := trace s @ [Con (Log_line lvl lit args)]\<rparr>
      else t = s)"
  by (auto simp: log_def log_record_def log_enabled_def logs_def rets split: option.split)

lemma rets_log_lazy [rets]:
  "log_lazy C lvl lit args s = (Inr u, t) \<longleftrightarrow>
     (if logs lvl s then \<exists>xs. args = Inr xs \<and> log C lvl lit xs s = (Inr u, t) else t = s)"
  by (auto simp: log_lazy_def logs_def rets split: option.split)

lemma emit_run [runs]: "emit ev s = (Inr (), s\<lparr>trace := trace s @ [ev]\<rparr>)"
  by (simp add: emit_def runs)

lemma call_run [runs]: "call f ev s = (Inr (f (trace s)), s\<lparr>trace := trace s @ [ev]\<rparr>)"
  by (simp add: call_def runs)

lemma log_run [runs]:
  "logs lvl s \<Longrightarrow> CONSOLE_lock \<notin> set (held s) \<Longrightarrow> write_reply C (trace s) (Log_line lvl lit args) = Inr () \<Longrightarrow>
     log C lvl lit args s = (Inr (), s\<lparr>trace := trace s @ [Con (Log_line lvl lit args)]\<rparr>)"
  "\<not> logs lvl s \<Longrightarrow> log C lvl lit args s = (Inr (), s)"
  by (simp_all add: rets)

lemma log_lazy_run [runs]:
  "logs lvl s \<Longrightarrow> log_lazy C lvl lit args s = bind_io (lift_io args) (log C lvl lit) s"
  "\<not> logs lvl s \<Longrightarrow> log_lazy C lvl lit args s = (Inr (), s)"
  by (auto simp: log_lazy_def logs_def runs split: option.split)

text \<open>A logged line adds itself to the trace and does nothing else.\<close>

lemma log_returned:
  assumes "log C lvl lit args s = (Inr u, t)"
  shows "t = s \<or> t = s\<lparr>trace := trace s @ [Con (Log_line lvl lit args)]\<rparr>"
  using assms by (auto simp: rets split: if_splits)

lemma log_state:
  assumes "log E lvl lit args s = (Inr u, t)"
  obtains es where "t = s\<lparr>trace := trace s @ map Con es\<rparr>"
proof -
  consider "t = s" | "t = s\<lparr>trace := trace s @ [Con (Log_line lvl lit args)]\<rparr>"
    using log_returned [OF assms] by blast
  then show thesis
  proof cases
    case 1
    then show ?thesis using that [of "[]"] by simp
  next
    case 2
    then show ?thesis using that [of "[Log_line lvl lit args]"] by simp
  qed
qed

lemma con_fmt_state:
  assumes "con_fmt E lit args s = (Inr u, t)"
  shows "t = s\<lparr>trace := trace s @ [Con (Con_fmt lit args)]\<rparr>"
  using wpre_runs [of "con_fmt E lit args" "\<lambda>_ t. t = s\<lparr>trace := trace s @ [Con (Con_fmt lit args)]\<rparr>"
      "\<lambda>_ _. True" s u t] assms
  by (auto simp: wpre_con_fmt split: sum.splits)

lemma con_fmt_run [runs]:
  assumes "CONSOLE_lock \<notin> set (held s)" and "write_reply C (trace s) (Con_fmt lit args) = Inr ()"
  shows "con_fmt C lit args s = (Inr (), s\<lparr>trace := trace s @ [Con (Con_fmt lit args)]\<rparr>)"
  using assms by (intro wpre_eqI) (simp add: wpre_con_fmt)

section \<open>Frames\<close>

text \<open>The trace only grows, and an operation that returns has given back the locks it took and
  the mask it changed.\<close>

definition trace_grows :: "'s io_state_scheme \<Rightarrow> 's io_state_scheme \<Rightarrow> bool" where
  "trace_grows s t \<longleftrightarrow> (\<exists>es. trace t = trace s @ es)"

definition balanced :: "'s io_state_scheme \<Rightarrow> 's io_state_scheme \<Rightarrow> bool" where
  "balanced s t \<longleftrightarrow> held t = held s \<and> masked t = masked s"

interpretation tg: frame trace_grows
  by unfold_locales (auto simp: trace_grows_def)

interpretation bal: frame balanced
  by unfold_locales (auto simp: balanced_def)

lemma returns_with_lock:
  assumes "returns balanced m"
  shows "returns balanced (with_lock l m)"
proof (rule returnsI)
  fix s x s'
  assume run: "with_lock l m s = (Inr x, s')"
  have "wpre (with_lock l m) (\<lambda>_. balanced s) (\<lambda>_ _. True) s"
    using assms by (auto simp: wp wpre_def balanced_def returns_def split: prod.split sum.split)
  with run show "balanced s s'" by (auto dest: wpre_runs)
qed

lemma returns_exception_free:
  assumes "returns balanced m"
  shows "returns balanced (exception_free m)"
proof (rule returnsI)
  fix s x s'
  assume run: "exception_free m s = (Inr x, s')"
  have "wpre (exception_free m) (\<lambda>_. balanced s) (\<lambda>_ _. True) s"
    using assms by (auto simp: wp wpre_def balanced_def returns_def split: prod.split sum.split)
  with run show "balanced s s'" by (auto dest: wpre_runs)
qed

end
