(* ===== verification/Fdt.thy ===== *)
theory Fdt
  imports Machine
begin

text \<open>
  The flattened device tree as the program sees it, and the functions of main.rs that read it.

  The device tree parser is a dependency of the program. What it returns is data of the model:
  a node carries the result of each accessor the program calls on it, errors included, and the
  tree carries the results of the accessors on the whole tree. Nothing is assumed about these
  results; where a property needs a well-formed tree, a hypothesis says so.
\<close>

section \<open>Device tree data\<close>

datatype fdt_error = Fdt_error

text \<open>A \<^verbatim>\<open>reg\<close> entry: \<^verbatim>\<open>address::<u64>()\<close> and \<^verbatim>\<open>size::<u64>()\<close>.\<close>

record fdt_reg =
  reg_address :: "fdt_error + u64"
  reg_size :: "fdt_error + u64"

text \<open>A \<^verbatim>\<open>ranges\<close> entry.\<close>

record fdt_range =
  child_bus_address :: "fdt_error + u128"
  parent_bus_address :: "fdt_error + u64"
  range_length :: "fdt_error + u64"

datatype fdt_node =
  Fdt_node
    (node_name: string)
    (node_compatible: "string list option")
    (node_reg: "fdt_error + fdt_reg list option")
    (node_ranges: "fdt_error + fdt_range list option")
    (node_property: "string \<Rightarrow> u8 list option")
    (node_children: "fdt_node list")

text \<open>A node under \<^verbatim>\<open>/cpus\<close>: \<^verbatim>\<open>ids()\<close>, each then read as a \<^verbatim>\<open>u64\<close>.\<close>

record cpu_node =
  cpu_ids :: "fdt_error + (fdt_error + u64) list"

record fdt =
  fdt_root :: fdt_node
  fdt_memory_reg :: "fdt_error + (fdt_error + fdt_reg list option)"
  fdt_cpus :: "fdt_error + cpu_node list"
  fdt_find_node :: "string \<Rightarrow> fdt_node option"
  fdt_find_compatible :: "string \<Rightarrow> fdt_node list"

section \<open>The global device tree\<close>

text \<open>\<^verbatim>\<open>static FDT: Once<Fdt>\<close>, empty until \<^verbatim>\<open>main\<close> sets it.\<close>

record boot_state = io_state +
  FDT :: "fdt option"

text \<open>\<^verbatim>\<open>FDT.call_once\<close>: the first call decides the value.\<close>

definition fdt_call_once :: "fdt \<Rightarrow> ('s boot_state_scheme, unit) io" where
  "fdt_call_once f =
     modify_io (\<lambda>s. case FDT s of None \<Rightarrow> s\<lparr>FDT := Some f\<rparr> | Some _ \<Rightarrow> s)"

section \<open>main.rs: reading the tree\<close>

definition is_compatible :: "fdt_node \<Rightarrow> string list \<Rightarrow> bool" where
  "is_compatible node with_list =
     (case node_compatible node of
        Some compatible \<Rightarrow> list_ex (\<lambda>c. c \<in> set with_list) compatible
      | None \<Rightarrow> False)"

text \<open>\<open>new\<close> stands for \<^verbatim>\<open>MemoryRegion::new\<close> of the page table crate.\<close>

definition fdt_to_pagetable_region ::
  "(usize \<Rightarrow> usize \<Rightarrow> memory_region res) \<Rightarrow> fdt_reg \<Rightarrow> memory_region res" where
  "fdt_to_pagetable_region new region =
     rbind (unwrap (reg_address region)) (\<lambda>address.
     rbind (unwrap (reg_size region)) (\<lambda>size.
     rbind (checked_add address size) (\<lambda>end.
     new address end)))"

definition psci_smc_value :: "u8 list" where
  "psci_smc_value = [0x73, 0x6d, 0x63, 0]"

definition smc_for_psci_fdt :: "fdt option \<Rightarrow> bool" where
  "smc_for_psci_fdt f =
     (case f of
        None \<Rightarrow> False
      | Some fdt \<Rightarrow>
          (case fdt_find_node fdt ''/psci'' of
             None \<Rightarrow> False
           | Some psci_node \<Rightarrow>
               (case node_property psci_node ''method'' of
                  None \<Rightarrow> False
                | Some method \<Rightarrow> method = psci_smc_value)))"

definition smc_for_psci :: "('s boot_state_scheme, bool) io" where
  "smc_for_psci = gets_io (\<lambda>s. smc_for_psci_fdt (FDT s))"

text \<open>The conduit every PSCI call of the program picks.\<close>

definition psci_conduit :: "bool \<Rightarrow> conduit" where
  "psci_conduit smc = (if smc then Smc else Hvc)"

section \<open>Properties\<close>

lemma wpre_smc_for_psci [wp]:
  "wpre smc_for_psci Q E = (\<lambda>s. Q (smc_for_psci_fdt (FDT s)) s)"
  by (simp add: smc_for_psci_def wp)

lemma is_compatible_iff:
  "is_compatible node ws \<longleftrightarrow>
     (\<exists>cs c. node_compatible node = Some cs \<and> c \<in> set cs \<and> c \<in> set ws)"
  by (auto simp: is_compatible_def list_ex_iff split: option.split)

lemma is_compatible_first:
  "is_compatible node ws \<Longrightarrow> \<exists>c cs. node_compatible node = Some (c # cs)"
  by (auto simp: is_compatible_iff) (metis empty_iff list.exhaust list.set(1))

lemma fdt_to_pagetable_region_eq_Inr:
  "fdt_to_pagetable_region new r = Inr m \<longleftrightarrow>
     (\<exists>a n. reg_address r = Inr a \<and> reg_size r = Inr n \<and> unat a + unat n < 2 ^ 64 \<and> new a (a + n) = Inr m)"
  by (auto simp: fdt_to_pagetable_region_def checked_add_def split: if_splits)

lemma fdt_to_pagetable_region_overflow:
  assumes "reg_address r = Inr a" and "reg_size r = Inr n" and "2 ^ 64 \<le> unat a + unat n"
  shows "fdt_to_pagetable_region new r = Inl (Panic Overflow)"
  using assms by (simp add: fdt_to_pagetable_region_def checked_add_def)

lemma smc_for_psci_fdt_iff:
  "smc_for_psci_fdt f \<longleftrightarrow>
     (\<exists>fdt node. f = Some fdt \<and> fdt_find_node fdt ''/psci'' = Some node \<and>
       node_property node ''method'' = Some psci_smc_value)"
  by (auto simp: smc_for_psci_fdt_def split: option.splits)

end
