(* ===== verification/Cpus.thy ===== *)
theory Cpus
  imports Fdt
begin

text \<open>
  cpus.rs and exceptions.rs: which core is running, how many there are, and the exception level
  dependent system registers. The registers of the running core are fields of the environment;
  running an operation on another core is running it in another environment.
\<close>

section \<open>System registers\<close>

record cpu_env = con_env +
  mpidr_el1 :: u64
  currentel :: u8
  esr_el1 :: u64
  esr_el2 :: u64
  far_el1 :: u64
  far_el2 :: u64
  hcr_el2 :: "event list \<Rightarrow> u64"
  HcrEl2_IMO :: u64
  MpidrEl1_U :: u64
  MpidrEl1_MT :: u64

section \<open>exceptions.rs\<close>

definition current_el :: "'e cpu_env_scheme \<Rightarrow> u8" where
  "current_el E = currentel E"

definition esr :: "'e cpu_env_scheme \<Rightarrow> u64" where
  "esr E = (if current_el E = 2 then esr_el2 E else esr_el1 E)"

definition far :: "'e cpu_env_scheme \<Rightarrow> u64" where
  "far E = (if current_el E = 2 then far_el2 E else far_el1 E)"

definition sync_current :: "'e cpu_env_scheme \<Rightarrow> ('s io_state_scheme, unit) io" where
  "sync_current E = abort_io (Panic (Explicit ''Unexpected sync_exception_current''))"

definition init_irq_routing :: "'e cpu_env_scheme \<Rightarrow> ('s io_state_scheme, unit) io" where
  "init_irq_routing E =
     (if current_el E = 2 then
        bind_io (gets_io (\<lambda>s. hcr_el2 E (trace s))) (\<lambda>hcr.
        emit (Cpu (Write_hcr_el2 (hcr OR HcrEl2_IMO E))))
      else return_io ())"

section \<open>cpus.rs\<close>

definition MPIDR_AFFINITY_MASK :: u64 where
  "MPIDR_AFFINITY_MASK = 0xff00ffffff"

definition mpidr_affinity :: "'e cpu_env_scheme \<Rightarrow> u64" where
  "mpidr_affinity E = mpidr_el1 E AND MPIDR_AFFINITY_MASK"

text \<open>\<^verbatim>\<open>cpu.ids().unwrap().next().unwrap().to_int::<u64>().unwrap()\<close>.\<close>

definition cpu_id :: "cpu_node \<Rightarrow> u64 res" where
  "cpu_id cpu =
     rbind (unwrap (cpu_ids cpu)) (\<lambda>ids.
     rbind (unwrap_opt (next_opt ids)) (\<lambda>id.
     unwrap id))"

text \<open>\<^verbatim>\<open>position\<close>: the closure runs on each node until it holds, and may panic on any of
  them.\<close>

fun position_cpu :: "u64 \<Rightarrow> cpu_node list \<Rightarrow> nat option res" where
  "position_cpu m [] = Inr None"
| "position_cpu m (cpu # cpus) =
     rbind (cpu_id cpu) (\<lambda>id.
     if id = m then Inr (Some 0)
     else rbind (position_cpu m cpus) (\<lambda>r. Inr (map_option Suc r)))"

definition fdt_cpu_nodes :: "fdt option \<Rightarrow> cpu_node list res" where
  "fdt_cpu_nodes f = rbind (unwrap_opt f) (\<lambda>fdt. unwrap (fdt_cpus fdt))"

definition mpidr_to_cpu_index :: "fdt option \<Rightarrow> u64 \<Rightarrow> nat option res" where
  "mpidr_to_cpu_index f m = rbind (fdt_cpu_nodes f) (position_cpu m)"

definition current_cpu_index_in :: "'e cpu_env_scheme \<Rightarrow> fdt option \<Rightarrow> nat res" where
  "current_cpu_index_in E f = rbind (mpidr_to_cpu_index f (mpidr_affinity E)) unwrap_opt"

definition current_cpu_index :: "'e cpu_env_scheme \<Rightarrow> ('s boot_state_scheme, nat) io" where
  "current_cpu_index E = bind_io (gets_io FDT) (\<lambda>f. lift_io (current_cpu_index_in E f))"

definition cpu_count_in :: "fdt option \<Rightarrow> nat res" where
  "cpu_count_in f = rbind (fdt_cpu_nodes f) (\<lambda>cpus. Inr (length cpus))"

definition cpu_count :: "('s boot_state_scheme, nat) io" where
  "cpu_count = bind_io (gets_io FDT) (\<lambda>f. lift_io (cpu_count_in f))"

text \<open>\<^verbatim>\<open>Cores for CoresImpl\<close>.\<close>

definition core_index :: "'e cpu_env_scheme \<Rightarrow> ('s boot_state_scheme, nat) io" where
  "core_index E = current_cpu_index E"

section \<open>Lemmas\<close>

lemma wpre_current_cpu_index [wp]:
  "wpre (current_cpu_index C) Q E =
     (\<lambda>s. case current_cpu_index_in C (FDT s) of Inl e \<Rightarrow> E e s | Inr i \<Rightarrow> Q i s)"
  by (simp add: current_cpu_index_def wp)

lemma wpre_core_index [wp]:
  "wpre (core_index C) Q E =
     (\<lambda>s. case current_cpu_index_in C (FDT s) of Inl e \<Rightarrow> E e s | Inr i \<Rightarrow> Q i s)"
  by (simp add: core_index_def wp)

lemma wpre_cpu_count [wp]:
  "wpre cpu_count Q E = (\<lambda>s. case cpu_count_in (FDT s) of Inl e \<Rightarrow> E e s | Inr n \<Rightarrow> Q n s)"
  by (simp add: cpu_count_def wp)

text \<open>A found position holds the node with the given identifier, and no earlier node has it.\<close>

lemma position_cpu_Some:
  assumes "position_cpu m cpus = Inr (Some i)"
  shows "i < length cpus \<and> cpu_id (cpus ! i) = Inr m \<and> (\<forall>j < i. cpu_id (cpus ! j) \<noteq> Inr m)"
  using assms
proof (induction cpus arbitrary: i)
  case Nil
  then show ?case by simp
next
  case (Cons cpu cpus)
  from Cons.prems obtain id where id: "cpu_id cpu = Inr id" by auto
  show ?case
  proof (cases "id = m")
    case True
    with Cons.prems id show ?thesis by auto
  next
    case False
    with Cons.prems id obtain k where k: "position_cpu m cpus = Inr (Some k)" and i: "i = Suc k"
      by auto
    from Cons.IH [OF k] id False show ?thesis
      by (auto simp: i less_Suc_eq_0_disj)
  qed
qed

lemma position_cpu_complete:
  assumes "\<And>cpu. cpu \<in> set cpus \<Longrightarrow> \<exists>id. cpu_id cpu = Inr id"
  shows "\<exists>r. position_cpu m cpus = Inr r \<and>
    (r = None \<longleftrightarrow> (\<forall>cpu \<in> set cpus. cpu_id cpu \<noteq> Inr m))"
  using assms
proof (induction cpus)
  case Nil
  then show ?case by simp
next
  case (Cons cpu cpus)
  then obtain id r where "cpu_id cpu = Inr id" "position_cpu m cpus = Inr r"
    "r = None \<longleftrightarrow> (\<forall>cpu \<in> set cpus. cpu_id cpu \<noteq> Inr m)"
    by (metis list.set_intros(1) list.set_intros(2))
  then show ?case by (cases "id = m") auto
qed

lemma current_cpu_index_in_Inr:
  "current_cpu_index_in E f = Inr i \<longleftrightarrow>
     (\<exists>fdt cpus. f = Some fdt \<and> fdt_cpus fdt = Inr cpus \<and>
        position_cpu (mpidr_affinity E) cpus = Inr (Some i))"
  by (auto simp: current_cpu_index_in_def mpidr_to_cpu_index_def fdt_cpu_nodes_def)

lemma cpu_count_in_Inr:
  "cpu_count_in f = Inr n \<longleftrightarrow>
     (\<exists>fdt cpus. f = Some fdt \<and> fdt_cpus fdt = Inr cpus \<and> n = length cpus)"
  by (auto simp: cpu_count_in_def fdt_cpu_nodes_def)

lemma current_cpu_index_in_inj:
  assumes "current_cpu_index_in E f = Inr i" and "current_cpu_index_in E' f = Inr i"
  shows "mpidr_affinity E = mpidr_affinity E'"
  using assms by (auto simp: current_cpu_index_in_Inr dest!: position_cpu_Some)

lemma current_cpu_index_in_less:
  assumes "current_cpu_index_in E f = Inr i" and "cpu_count_in f = Inr n"
  shows "i < n"
  using assms by (auto simp: current_cpu_index_in_Inr cpu_count_in_Inr dest!: position_cpu_Some)

lemma current_cpu_index_in_count:
  assumes "current_cpu_index_in E f = Inr i"
  shows "\<exists>n. cpu_count_in f = Inr n \<and> i < n"
  using assms by (auto simp: current_cpu_index_in_Inr cpu_count_in_Inr dest!: position_cpu_Some)

end
