(* ===== verification/Psci_Power.thy ===== *)
theory Psci_Power
  imports Cpus
begin

text \<open>
  The firmware interface (PSCI) and \<^verbatim>\<open>power_off\<close> of main.rs.
\<close>

section \<open>Firmware replies\<close>

text \<open>The replies of the PSCI calls over a conduit. A call that switches off the core or the system has
  no reply when it does what it should: \<open>None\<close>.\<close>

datatype psci_error = Psci_error

record psci_env = cpu_env +
  version_reply :: "event list \<Rightarrow> conduit \<Rightarrow> psci_error + nat"
  affinity_reply :: "event list \<Rightarrow> conduit \<Rightarrow> u64 \<Rightarrow> affinity_level \<Rightarrow> psci_error + affinity_state"
  cpu_on_reply :: "event list \<Rightarrow> conduit \<Rightarrow> u64 \<Rightarrow> u64 \<Rightarrow> psci_error + unit"
  cpu_off_reply :: "event list \<Rightarrow> conduit \<Rightarrow> (psci_error + unit) option"
  system_off_reply :: "event list \<Rightarrow> conduit \<Rightarrow> (psci_error + unit) option"

definition system_off :: "'e psci_env_scheme \<Rightarrow> conduit \<Rightarrow> ('s io_state_scheme, psci_error + unit) io" where
  "system_off E c =
     bind_io (call (\<lambda>h. system_off_reply E h c) (Psci (Psci_system_off c))) (\<lambda>r.
     case r of None \<Rightarrow> abort_io Powered_off | Some x \<Rightarrow> return_io x)"

definition cpu_off :: "'e psci_env_scheme \<Rightarrow> conduit \<Rightarrow> ('s io_state_scheme, psci_error + unit) io" where
  "cpu_off E c =
     bind_io (call (\<lambda>h. cpu_off_reply E h c) (Psci (Psci_cpu_off c))) (\<lambda>r.
     case r of None \<Rightarrow> abort_io Powered_off | Some x \<Rightarrow> return_io x)"

definition affinity_info ::
  "'e psci_env_scheme \<Rightarrow> conduit \<Rightarrow> u64 \<Rightarrow> affinity_level \<Rightarrow> ('s io_state_scheme, affinity_state) io" where
  "affinity_info E c mpidr lvl =
     bind_io (call (\<lambda>h. affinity_reply E h c mpidr lvl) (Psci (Psci_affinity_info c mpidr lvl))) (\<lambda>r.
     lift_io (unwrap r))"

definition psci_version :: "'e psci_env_scheme \<Rightarrow> conduit \<Rightarrow> ('s io_state_scheme, nat) io" where
  "psci_version E c =
     bind_io (call (\<lambda>h. version_reply E h c) (Psci (Psci_version c))) (\<lambda>r.
     lift_io (unwrap r))"

section \<open>Powering off\<close>

text \<open>\<^verbatim>\<open>power_off\<close> has the result type \<^verbatim>\<open>!\<close>: it can stand where any type is expected.\<close>

definition power_off :: "'e psci_env_scheme \<Rightarrow> ('s boot_state_scheme, 'a) io" where
  "power_off E =
     bind_io smc_for_psci (\<lambda>smc.
     bind_io (if smc then system_off E Smc else system_off E Hvc) (\<lambda>result.
     bind_io (case result of
        Inl e \<Rightarrow> log E Error ''PSCI_SYSTEM_OFF failed: {e}'' []
      | Inr _ \<Rightarrow> log E Error ''PSCI_SYSTEM_OFF returned unexpectedly'' []) (\<lambda>_.
     abort_io Halt)))"

section \<open>Rules\<close>

definition off_conduit :: "'s boot_state_scheme \<Rightarrow> conduit" where
  "off_conduit s = psci_conduit (smc_for_psci_fdt (FDT s))"

lemma off_conduit_updates [simp]:
  "off_conduit (s\<lparr>trace := tr\<rparr>) = off_conduit s" "off_conduit (s\<lparr>held := l\<rparr>) = off_conduit s"
  "off_conduit (s\<lparr>masked := b\<rparr>) = off_conduit s"
  by (simp_all add: off_conduit_def)

lemma wpre_system_off [wp]:
  "wpre (system_off E c) Q R =
     (\<lambda>s. case system_off_reply E (trace s) c of
        None \<Rightarrow> R Powered_off (s\<lparr>trace := trace s @ [Psci (Psci_system_off c)]\<rparr>)
      | Some x \<Rightarrow> Q x (s\<lparr>trace := trace s @ [Psci (Psci_system_off c)]\<rparr>))"
  by (rule ext) (simp add: system_off_def wp split: option.split)

lemma wpre_cpu_off [wp]:
  "wpre (cpu_off E c) Q R =
     (\<lambda>s. case cpu_off_reply E (trace s) c of
        None \<Rightarrow> R Powered_off (s\<lparr>trace := trace s @ [Psci (Psci_cpu_off c)]\<rparr>)
      | Some x \<Rightarrow> Q x (s\<lparr>trace := trace s @ [Psci (Psci_cpu_off c)]\<rparr>))"
  by (rule ext) (simp add: cpu_off_def wp split: option.split)

lemma wpre_affinity_info [wp]:
  "wpre (affinity_info E c m l) Q R =
     (\<lambda>s. case affinity_reply E (trace s) c m l of
        Inl _ \<Rightarrow> R (Panic Unwrap_err) (s\<lparr>trace := trace s @ [Psci (Psci_affinity_info c m l)]\<rparr>)
      | Inr x \<Rightarrow> Q x (s\<lparr>trace := trace s @ [Psci (Psci_affinity_info c m l)]\<rparr>))"
  by (rule ext) (simp add: affinity_info_def wp split: sum.split)

lemma wpre_psci_version [wp]:
  "wpre (psci_version E c) Q R =
     (\<lambda>s. case version_reply E (trace s) c of
        Inl _ \<Rightarrow> R (Panic Unwrap_err) (s\<lparr>trace := trace s @ [Psci (Psci_version c)]\<rparr>)
      | Inr x \<Rightarrow> Q x (s\<lparr>trace := trace s @ [Psci (Psci_version c)]\<rparr>))"
  by (rule ext) (simp add: psci_version_def wp split: sum.split)

text \<open>What \<^verbatim>\<open>power_off\<close> does, whatever happens: the firmware is called once, over the conduit of the device
  tree, and nothing is returned.\<close>

lemma power_off_conduit:
  "power_off E s =
     bind_io (system_off E (off_conduit s)) (\<lambda>result.
     bind_io (case result of
        Inl e \<Rightarrow> log E Error ''PSCI_SYSTEM_OFF failed: {e}'' []
      | Inr _ \<Rightarrow> log E Error ''PSCI_SYSTEM_OFF returned unexpectedly'' []) (\<lambda>_.
     abort_io Halt)) s"
  by (simp add: power_off_def smc_for_psci_def runs off_conduit_def psci_conduit_def)

lemma wpre_power_off:
  "wpre (power_off E :: ('s boot_state_scheme, 'a) io) (\<lambda>_ _. False)
     (\<lambda>_ t. \<exists>es. trace t = trace s @ Psci (Psci_system_off (off_conduit s)) # map Con es) s"
proof -
  let ?ev = "Psci (Psci_system_off (off_conduit s))"
  let ?s = "s\<lparr>trace := trace s @ [?ev]\<rparr>"
  have line: "wpre (log E lvl lit args)
      (\<lambda>_. wpre (abort_io Halt :: ('s boot_state_scheme, 'a) io) (\<lambda>_ _. False)
        (\<lambda>_ t. \<exists>es. trace t = trace s @ ?ev # map Con es))
      (\<lambda>_ t. \<exists>es. trace t = trace s @ ?ev # map Con es) ?s" for lvl lit args
    by (rule wpre_log_con) (auto simp: wp)
  have "wpre (power_off E :: ('s boot_state_scheme, 'a) io) Q R s =
      (case system_off_reply E (trace s) (off_conduit s) of
         None \<Rightarrow> R Powered_off ?s
       | Some (Inl e) \<Rightarrow> wpre (log E Error ''PSCI_SYSTEM_OFF failed: {e}'' []) (\<lambda>_. wpre (abort_io Halt) Q R) R ?s
       | Some (Inr u) \<Rightarrow>
           wpre (log E Error ''PSCI_SYSTEM_OFF returned unexpectedly'' []) (\<lambda>_. wpre (abort_io Halt) Q R) R ?s)"
    for Q R
    by (cases "smc_for_psci_fdt (FDT s)")
      (simp_all add: power_off_def wpre_bind wpre_smc_for_psci wpre_system_off wpre_case_sum
        off_conduit_def psci_conduit_def split: option.split sum.split)
  then show ?thesis by (simp add: line split: option.split sum.split)
qed

lemma power_off_powered:
  assumes "system_off_reply E (trace s) (off_conduit s) = None"
  shows "power_off E s = (Inl Powered_off, s\<lparr>trace := trace s @ [Psci (Psci_system_off (off_conduit s))]\<rparr>)"
  using assms by (simp add: power_off_conduit system_off_def runs)

lemma power_off_halts:
  assumes "system_off_reply E (trace s) (off_conduit s) = Some r"
    and "console_ok E" and "CONSOLE_lock \<notin> set (held s)"
  shows "\<exists>t. power_off E s = (Inl Halt, t)"
proof -
  let ?s = "s\<lparr>trace := trace s @ [Psci (Psci_system_off (off_conduit s))]\<rparr>"
  have "\<exists>t. log E Error lit args ?s = (Inr (), t)" for lit args
    using assms(2,3) by (auto simp: rets_log console_okD)
  then obtain f where "log E Error lit args ?s = (Inr (), f lit args)" for lit args
    by metis
  with assms(1) show ?thesis
    by (cases r) (simp_all add: power_off_conduit system_off_def runs)
qed

end
