(* ===== verification/Console.thy ===== *)
theory Console
  imports Psci_Power
begin

text \<open>
  console.rs: the reading half of the console, its interrupt handler, its initialisation and the
  panic handler; drivers.rs, drivers/pl011.rs and drivers/uart16550.rs: what the two UART drivers do
  on an interrupt. The writing half is in \<open>Machine\<close>, since every log line uses it.
\<close>

section \<open>Reading\<close>

text \<open>The calls of the UART driver, made on the locked console.\<close>

definition uart_read_ready :: "'e con_env_scheme \<Rightarrow> ('s io_state_scheme, uart_error + bool) io" where
  "uart_read_ready E = call (read_ready_reply E) (Con Uart_read_ready)"

definition uart_read :: "'e con_env_scheme \<Rightarrow> nat \<Rightarrow> ('s io_state_scheme, uart_error + u8 list) io" where
  "uart_read E n = call (\<lambda>h. read_reply E h n) (Con (Uart_read n))"

text \<open>\<^verbatim>\<open>InterruptDriven::wait_for_irq\<close>. \<open>irqs\<close> is what the interrupts taken while the core waits do.\<close>

definition wait_for_irq :: "('s io_state_scheme, unit) io \<Rightarrow> ('s io_state_scheme, unit) io" where
  "wait_for_irq irqs = bind_io (emit (Cpu Wfi)) (\<lambda>_. irqs)"

text \<open>The closure of \<^verbatim>\<open>Read for Console\<close>: one look at the console under the lock.\<close>

definition try_read ::
  "'e con_env_scheme \<Rightarrow> nat \<Rightarrow> ('s io_state_scheme, uart_error + u8 list option) io" where
  "try_read E n =
     exception_free (with_lock CONSOLE_lock (
       bind_io (uart_read_ready E) (\<lambda>ready.
       case ready of
         Inl e \<Rightarrow> return_io (Inl e)
       | Inr r \<Rightarrow>
           if r then
             bind_io (uart_read E n) (\<lambda>result.
             case result of
               Inl e \<Rightarrow> return_io (Inl e)
             | Inr bytes \<Rightarrow> return_io (Inr (Some bytes)))
           else return_io (Inr None))))"

text \<open>\<^verbatim>\<open>Read for Console\<close>, with a bound on the number of looks.\<close>

fun console_read ::
  "'e con_env_scheme \<Rightarrow> ('s io_state_scheme, unit) io \<Rightarrow> nat \<Rightarrow> nat \<Rightarrow>
   ('s io_state_scheme, uart_error + u8 list) io" where
  "console_read E irqs n 0 = abort_io Still_running"
| "console_read E irqs n (Suc fuel) =
     bind_io (try_read E n) (\<lambda>result.
     case result of
       Inl e \<Rightarrow> return_io (Inl e)
     | Inr r \<Rightarrow>
         (case r of
            Some bytes \<Rightarrow> return_io (Inr bytes)
          | None \<Rightarrow> bind_io (wait_for_irq irqs) (\<lambda>_. console_read E irqs n fuel)))"

definition console_read_ready :: "'e con_env_scheme \<Rightarrow> ('s io_state_scheme, uart_error + bool) io" where
  "console_read_ready E = exception_free (with_lock CONSOLE_lock (uart_read_ready E))"

section \<open>Interrupts of the UART\<close>

text \<open>\<^verbatim>\<open>InterruptDriven for Uart\<close> (PL011) and \<^verbatim>\<open>InterruptDriven for Uart16550\<close>.\<close>

definition pl011_handle_irq :: "intid \<Rightarrow> ('s io_state_scheme, unit) io" where
  "pl011_handle_irq i =
     bind_io (emit (Con Uart_clear_rxi)) (\<lambda>_.
     emit (Gic (Gicc_end_interrupt i)))"

definition uart16550_handle_irq :: "intid \<Rightarrow> ('s io_state_scheme, unit) io" where
  "uart16550_handle_irq i = emit (Gic (Gicc_end_interrupt i))"

text \<open>\<^verbatim>\<open>Console::handle_irq\<close> for a driver's handler.\<close>

definition console_handle_irq ::
  "(intid \<Rightarrow> ('s io_state_scheme, unit) io) \<Rightarrow> intid \<Rightarrow> ('s io_state_scheme, unit) io" where
  "console_handle_irq drv i =
     bind_io (gets_io console_set) (\<lambda>set.
     bind_io (lift_io (require Unwrap_none set)) (\<lambda>_.
     exception_free (with_lock CONSOLE_lock (drv i))))"

section \<open>Initialisation, panics\<close>

text \<open>\<^verbatim>\<open>console::init\<close>: \<^verbatim>\<open>call_once\<close>, so a second call changes nothing.\<close>

definition console_init :: "('s io_state_scheme, unit) io" where
  "console_init = modify_io (\<lambda>s. s\<lparr>console_set := True\<rparr>)"

text \<open>The panic handler: the result of the write is ignored.\<close>

definition panic_handler :: "'e psci_env_scheme \<Rightarrow> panic_reason \<Rightarrow> ('s boot_state_scheme, 'a) io" where
  "panic_handler E info =
     bind_io (gets_io console_set) (\<lambda>set.
     bind_io (if set then
         exception_free (with_lock CONSOLE_lock (
           bind_io (call (\<lambda>h. write_reply E h (Panic_line info)) (Con (Panic_line info))) (\<lambda>_.
           return_io ())))
       else return_io ()) (\<lambda>_.
     power_off E))"

text \<open>A computation as the machine runs it: a panic enters the panic handler in the state it left.\<close>

definition run_with_panic ::
  "'e psci_env_scheme \<Rightarrow> ('s boot_state_scheme, 'a) io \<Rightarrow> ('s boot_state_scheme, 'a) io" where
  "run_with_panic E m s =
     (case m s of
        (Inl (Panic info), t) \<Rightarrow> panic_handler E info t
      | (Inl e, t) \<Rightarrow> (Inl e, t)
      | (Inr x, t) \<Rightarrow> (Inr x, t))"

section \<open>Rules\<close>

lemma try_read_returned:
  assumes "try_read E n s = (Inr r, t)"
  shows "CONSOLE_lock \<notin> set (held s) \<and> held t = held s \<and> masked t = masked s \<and>
    (case read_ready_reply E (trace s) of
       Inl e \<Rightarrow> r = Inl e \<and> trace t = trace s @ [Con Uart_read_ready]
     | Inr False \<Rightarrow> r = Inr None \<and> trace t = trace s @ [Con Uart_read_ready]
     | Inr True \<Rightarrow>
         trace t = trace s @ [Con Uart_read_ready, Con (Uart_read n)] \<and>
         r = map_sum id Some (read_reply E (trace s @ [Con Uart_read_ready]) n))"
  using assms
  by (auto simp: try_read_def uart_read_ready_def uart_read_def rets split: sum.splits if_splits bool.splits)

lemma try_read_run [runs]:
  assumes "CONSOLE_lock \<notin> set (held s)"
  shows "try_read E n s =
    (case read_ready_reply E (trace s) of
       Inl e \<Rightarrow> (Inr (Inl e), s\<lparr>trace := trace s @ [Con Uart_read_ready]\<rparr>)
     | Inr ready \<Rightarrow>
         if ready then (Inr (map_sum id Some (read_reply E (trace s @ [Con Uart_read_ready]) n)),
           s\<lparr>trace := trace s @ [Con Uart_read_ready, Con (Uart_read n)]\<rparr>)
         else (Inr (Inr None), s\<lparr>trace := trace s @ [Con Uart_read_ready]\<rparr>))"
  using assms
  by (intro wpre_eqI) (simp add: try_read_def uart_read_ready_def uart_read_def wp split: sum.split)

lemma try_read_spins:
  "CONSOLE_lock \<in> set (held s) \<Longrightarrow> try_read E n s = (Inl (Spin CONSOLE_lock), s\<lparr>masked := True\<rparr>)"
  by (rule wpre_eqI) (simp add: try_read_def wp)

text \<open>More looks give the same answer.\<close>

lemma console_read_more_fuel:
  assumes "console_read E irqs n fuel s = (r, t)" and "r \<noteq> Inl Still_running"
  shows "console_read E irqs n (fuel + k) s = (r, t)"
  using assms
proof (induction fuel arbitrary: s)
  case 0
  then show ?case by (auto simp: abort_io_def)
next
  case (Suc fuel)
  obtain a u where a: "try_read E n s = (a, u)" by fastforce
  obtain b v where b: "wait_for_irq irqs u = (b, v)" by fastforce
  show ?case
    using Suc.prems Suc.IH [of v]
    by (cases a) (auto simp: runs(1) a b split: sum.splits option.splits simp del: try_read_run)
qed

text \<open>The console becomes ready after a number of waits, each of which returns.\<close>

inductive ready_after ::
  "'e con_env_scheme \<Rightarrow> ('s io_state_scheme, unit) io \<Rightarrow> 's io_state_scheme \<Rightarrow> nat \<Rightarrow> bool"
  for E irqs where
  ready_now: "CONSOLE_lock \<notin> set (held s) \<Longrightarrow> read_ready_reply E (trace s) = Inr True \<Longrightarrow>
    ready_after E irqs s 0"
| ready_later: "CONSOLE_lock \<notin> set (held s) \<Longrightarrow> read_ready_reply E (trace s) = Inr False \<Longrightarrow>
    wait_for_irq irqs (s\<lparr>trace := trace s @ [Con Uart_read_ready]\<rparr>) = (Inr (), t) \<Longrightarrow>
    ready_after E irqs t k \<Longrightarrow> ready_after E irqs s (Suc k)"

lemma console_read_ready_after:
  assumes "ready_after E irqs s k"
  shows "\<exists>h t. console_read E irqs n (Suc k) s = (Inr (read_reply E (h @ [Con Uart_read_ready]) n), t) \<and>
    read_ready_reply E h = Inr True \<and> trace t = h @ [Con Uart_read_ready, Con (Uart_read n)]"
  using assms
proof induction
  case (ready_now s)
  then show ?case by (cases "read_reply E (trace s @ [Con Uart_read_ready]) n") (simp_all add: runs)
next
  case (ready_later s t k)
  then show ?case by (simp add: runs)
qed

text \<open>Every read of the driver comes right after it has said that data is ready.\<close>

definition reads_guarded :: "'e con_env_scheme \<Rightarrow> event list \<Rightarrow> bool" where
  "reads_guarded E tr \<longleftrightarrow>
     (\<forall>h n es. tr = h @ Con (Uart_read n) # es \<longrightarrow>
        (\<exists>g. h = g @ [Con Uart_read_ready] \<and> read_ready_reply E g = Inr True))"

lemma reads_guarded_snoc:
  "reads_guarded E (tr @ [ev]) \<longleftrightarrow>
     reads_guarded E tr \<and>
     (\<forall>n. ev = Con (Uart_read n) \<longrightarrow> (\<exists>g. tr = g @ [Con Uart_read_ready] \<and> read_ready_reply E g = Inr True))"
  (is "?l = (?a \<and> ?b)")
proof
  assume l: ?l
  have ?a
    unfolding reads_guarded_def
  proof (intro allI impI)
    fix h n es assume "tr = h @ Con (Uart_read n) # es"
    then have "tr @ [ev] = h @ Con (Uart_read n) # (es @ [ev])" by simp
    with l show "\<exists>g. h = g @ [Con Uart_read_ready] \<and> read_ready_reply E g = Inr True"
      unfolding reads_guarded_def by blast
  qed
  moreover have ?b using l unfolding reads_guarded_def by blast
  ultimately show "?a \<and> ?b" ..
next
  assume r: "?a \<and> ?b"
  show ?l
    unfolding reads_guarded_def
  proof (intro allI impI)
    fix h n es assume eq: "tr @ [ev] = h @ Con (Uart_read n) # es"
    show "\<exists>g. h = g @ [Con Uart_read_ready] \<and> read_ready_reply E g = Inr True"
    proof (cases es rule: rev_cases)
      case Nil
      with eq have "tr = h \<and> ev = Con (Uart_read n)" by simp
      with r show ?thesis by blast
    next
      case (snoc fs f)
      with eq have "tr = h @ Con (Uart_read n) # fs"
        by (metis append_assoc append_Cons butlast_snoc)
      with r show ?thesis unfolding reads_guarded_def by blast
    qed
  qed
qed

lemma try_read_guarded:
  assumes "try_read E n s = (Inr r, t)" and "reads_guarded E (trace s)"
  shows "reads_guarded E (trace t)"
proof -
  have one: "reads_guarded E (trace s @ [Con Uart_read_ready])"
    using assms(2) by (simp add: reads_guarded_snoc)
  have two: "reads_guarded E (trace s @ [Con Uart_read_ready, Con (Uart_read n)])"
    if "read_ready_reply E (trace s) = Inr True"
    using reads_guarded_snoc [of E "trace s @ [Con Uart_read_ready]" "Con (Uart_read n)"] one that by simp
  show ?thesis
    using try_read_returned [OF assms(1)] one two
    by (cases "read_ready_reply E (trace s)") (auto split: bool.splits)
qed

lemma console_read_guarded:
  assumes "console_read E irqs n fuel s = (Inr r, t)" and "reads_guarded E (trace s)"
    and "\<And>u v. irqs u = (Inr (), v) \<Longrightarrow> reads_guarded E (trace u) \<Longrightarrow> reads_guarded E (trace v)"
  shows "reads_guarded E (trace t)"
  using assms(1,2)
proof (induction fuel arbitrary: s)
  case 0
  then show ?case by (simp add: rets)
next
  case (Suc fuel)
  from Suc.prems(1) obtain a u where a: "try_read E n s = (Inr a, u)"
    and rest: "(case a of
        Inl e \<Rightarrow> return_io (Inl e)
      | Inr (Some bytes) \<Rightarrow> return_io (Inr bytes)
      | Inr None \<Rightarrow> bind_io (wait_for_irq irqs) (\<lambda>_. console_read E irqs n fuel)) u = (Inr r, t)"
    by (auto simp: rets_bind)
  have u: "reads_guarded E (trace u)" using a Suc.prems(2) by (rule try_read_guarded)
  then have "reads_guarded E (trace u @ [Cpu Wfi])" by (simp add: reads_guarded_snoc)
  with rest u assms(3) Suc.IH show ?case
    by (auto simp: wait_for_irq_def rets split: sum.splits option.splits)
qed

section \<open>The driver's part in an interrupt\<close>

text \<open>What \<^verbatim>\<open>InterruptDriven::handle_irq\<close> must do: end the interrupt, once, and neither log nor touch a lock,
  since it runs with the console locked.\<close>

fun is_output :: "event \<Rightarrow> bool" where
  "is_output (Con (Log_line _ _ _)) = True"
| "is_output (Con (Con_fmt _ _)) = True"
| "is_output (Con (Con_bytes _)) = True"
| "is_output _ = False"

locale interrupt_driven =
  fixes drv :: "intid \<Rightarrow> ('s io_state_scheme, unit) io"
  assumes drv_run: "\<exists>es. drv i s = (Inr (), s\<lparr>trace := trace s @ es\<rparr>) \<and>
    count_list es (Gic (Gicc_end_interrupt i)) = 1 \<and> \<not> list_ex is_output es"
begin

lemma console_handles:
  assumes "console_set s" and "CONSOLE_lock \<notin> set (held s)"
  shows "\<exists>es. console_handle_irq drv i s = (Inr (), s\<lparr>trace := trace s @ es\<rparr>) \<and>
    count_list es (Gic (Gicc_end_interrupt i)) = 1 \<and> \<not> list_ex is_output es"
proof -
  let ?s = "s\<lparr>masked := True, held := CONSOLE_lock # held s\<rparr>"
  obtain es where es: "drv i ?s = (Inr (), ?s\<lparr>trace := trace ?s @ es\<rparr>)"
    "count_list es (Gic (Gicc_end_interrupt i)) = 1" "\<not> list_ex is_output es"
    using drv_run by blast
  have "wpre (console_handle_irq drv i) (\<lambda>_ t. t = s\<lparr>trace := trace s @ es\<rparr>) (\<lambda>_ _. False) s"
    using assms es(1) by (simp add: console_handle_irq_def wp require_def) (simp add: wpre_def)
  with es show ?thesis by (auto simp: wpre_returned)
qed

lemma console_unset:
  assumes "\<not> console_set s"
  shows "console_handle_irq drv i s = (Inl (Panic Unwrap_none), s)"
  using assms by (simp add: console_handle_irq_def runs)

end

interpretation pl011: interrupt_driven pl011_handle_irq
proof
  show "\<exists>es. pl011_handle_irq i s = (Inr (), s\<lparr>trace := trace s @ es\<rparr>) \<and>
      count_list es (Gic (Gicc_end_interrupt i)) = 1 \<and> \<not> list_ex is_output es"
    for i and s :: "'s io_state_scheme"
    by (rule exI [of _ "[Con Uart_clear_rxi, Gic (Gicc_end_interrupt i)]"])
      (simp add: pl011_handle_irq_def runs)
qed

interpretation u16550: interrupt_driven uart16550_handle_irq
proof
  show "\<exists>es. uart16550_handle_irq i s = (Inr (), s\<lparr>trace := trace s @ es\<rparr>) \<and>
      count_list es (Gic (Gicc_end_interrupt i)) = 1 \<and> \<not> list_ex is_output es"
    for i and s :: "'s io_state_scheme"
    by (rule exI [of _ "[Gic (Gicc_end_interrupt i)]"]) (simp add: uart16550_handle_irq_def runs)
qed

section \<open>Panics\<close>

lemma panic_handler_run:
  assumes "\<not> (console_set s \<and> CONSOLE_lock \<in> set (held s))"
  shows "panic_handler E info s =
    power_off E (if console_set s then s\<lparr>trace := trace s @ [Con (Panic_line info)]\<rparr> else s)"
proof (cases "console_set s")
  case True
  have "exception_free (with_lock CONSOLE_lock (bind_io (call f ev) (\<lambda>_. return_io ()))) s =
      (Inr (), s\<lparr>trace := trace s @ [ev]\<rparr>)" for f :: "event list \<Rightarrow> uart_error + unit" and ev
    using assms True by (intro wpre_eqI) (simp add: wp)
  with True show ?thesis by (simp add: panic_handler_def runs)
qed (simp add: panic_handler_def runs)

lemma panic_handler_spins:
  fixes s :: "'s boot_state_scheme"
  assumes "CONSOLE_lock \<in> set (held s)" and "console_set s"
  shows "panic_handler E info s = (Inl (Spin CONSOLE_lock), s\<lparr>masked := True\<rparr>)"
proof -
  have "exception_free (with_lock CONSOLE_lock m) s = (Inl (Spin CONSOLE_lock), s\<lparr>masked := True\<rparr>)"
    for m :: "('s boot_state_scheme, unit) io"
    using assms(1) by (intro wpre_eqI) (simp add: wp)
  with assms(2) show ?thesis by (simp add: panic_handler_def runs)
qed

lemma log_fails:
  assumes "logs lvl s" and "CONSOLE_lock \<notin> set (held s)"
    and "write_reply E (trace s) (Log_line lvl lit args) = Inl e"
  shows "log E lvl lit args s = (Inl (Panic Unwrap_err),
    s\<lparr>masked := True, held := CONSOLE_lock # held s, trace := trace s @ [Con (Log_line lvl lit args)]\<rparr>)"
  using assms by (intro wpre_eqI) (simp add: wp)

section \<open>An example\<close>

definition ex_psci_env :: psci_env where
  "ex_psci_env = \<lparr>write_reply = (\<lambda>_ ev. case ev of Con_flush \<Rightarrow> Inl Uart_error | Log_line _ _ _ \<Rightarrow> Inl Uart_error | _ \<Rightarrow> Inr ()),
     read_ready_reply = (\<lambda>h. Inr (Cpu Wfi \<in> set h)), read_reply = (\<lambda>_ _. Inr [10]),
     mpidr_el1 = 0, currentel = 1, esr_el1 = 0, esr_el2 = 0, far_el1 = 0, far_el2 = 0,
     hcr_el2 = (\<lambda>_. 0), HcrEl2_IMO = 16, MpidrEl1_U = 0x40000000, MpidrEl1_MT = 0x1000000, version_reply = (\<lambda>_ _. Inr 0),
     affinity_reply = (\<lambda>_ _ _ _. Inr Aff_off), cpu_on_reply = (\<lambda>_ _ _ _. Inr ()),
     cpu_off_reply = (\<lambda>_ _. None), system_off_reply = (\<lambda>_ _. None)\<rparr>"

definition ex_boot_state :: boot_state where
  "ex_boot_state = \<lparr>trace = [], held = [], masked = False, console_set = True, logger = Some Info, FDT = None\<rparr>"

section \<open>Properties\<close>

text \<open>A read of the console returns as soon as the driver has data: if it has after \<open>k\<close> waits, each of
  which the core comes back from, the loop ends within \<open>k + 1\<close> looks, with the bytes the driver gives
  on a read made right after it said that data is ready. Any larger bound gives the same.\<close>

lemma console_read_returns:
  assumes "ready_after E irqs s k"
  shows "\<exists>h t. (\<forall>fuel > k. console_read E irqs n fuel s = (Inr (read_reply E (h @ [Con Uart_read_ready]) n), t)) \<and>
    read_ready_reply E h = Inr True \<and> trace t = h @ [Con Uart_read_ready, Con (Uart_read n)]"
proof -
  from console_read_ready_after [OF assms] obtain h t
    where run: "console_read E irqs n (Suc k) s = (Inr (read_reply E (h @ [Con Uart_read_ready]) n), t)"
      and h: "read_ready_reply E h = Inr True" "trace t = h @ [Con Uart_read_ready, Con (Uart_read n)]"
    by blast
  have "console_read E irqs n fuel s = (Inr (read_reply E (h @ [Con Uart_read_ready]) n), t)"
    if "k < fuel" for fuel
    using console_read_more_fuel [OF run, of "fuel - Suc k"] that by simp
  with h show ?thesis by blast
qed

lemma console_read_ex:
  "\<exists>t. console_read ex_psci_env (return_io ()) 1 5 ex_boot_state = (Inr (Inr [10]), t)"
proof -
  let ?t = "ex_boot_state\<lparr>trace := [Con Uart_read_ready, Cpu Wfi]\<rparr>"
  have "ready_after ex_psci_env (return_io ()) ?t 0"
    by (rule ready_now) (simp_all add: ex_psci_env_def ex_boot_state_def)
  then have "ready_after ex_psci_env (return_io ()) ex_boot_state (Suc 0)"
    by (rule ready_later [rotated 3])
      (simp_all add: ex_psci_env_def ex_boot_state_def wait_for_irq_def runs)
  from console_read_returns [OF this, of 1] obtain h t
    where "\<forall>fuel > Suc 0. console_read ex_psci_env (return_io ()) 1 fuel ex_boot_state =
      (Inr (read_reply ex_psci_env (h @ [Con Uart_read_ready]) 1), t)"
    by blast
  then have "console_read ex_psci_env (return_io ()) 1 5 ex_boot_state =
      (Inr (read_reply ex_psci_env (h @ [Con Uart_read_ready]) 1), t)"
    by simp
  then show ?thesis by (simp add: ex_psci_env_def)
qed

text \<open>C20: when a read of the console returns, every read of the UART in the trace came right after the driver
  had said that data is ready, provided that this held of the trace at the start and that the interrupts taken while
  waiting keep it.\<close>

theorem console_read_reads_guarded:
  assumes "console_read E irqs n fuel s = (Inr r, t)" and "reads_guarded E (trace s)"
    and "\<forall>u v. irqs u = (Inr (), v) \<longrightarrow> reads_guarded E (trace u) \<longrightarrow> reads_guarded E (trace v)"
  shows "reads_guarded E (trace t)"
  using assms by (blast intro: console_read_guarded)

definition ex_read :: "(uart_error + u8 list) res \<times> boot_state" where
  "ex_read = console_read ex_psci_env (return_io ()) 1 2 ex_boot_state"

theorem console_read_reads_guarded_witness:
  "reads_guarded ex_psci_env (trace (snd ex_read)) \<and>
   trace (snd ex_read) = [Con Uart_read_ready, Cpu Wfi, Con Uart_read_ready, Con (Uart_read 1)]"
proof -
  have "ex_read = (Inr (Inr [10]), snd ex_read)"
    "trace (snd ex_read) = [Con Uart_read_ready, Cpu Wfi, Con Uart_read_ready, Con (Uart_read 1)]"
    by (simp_all add: ex_read_def numeral_2_eq_2 runs wait_for_irq_def ex_psci_env_def ex_boot_state_def)
  moreover have "reads_guarded ex_psci_env (trace ex_boot_state)"
    by (simp add: reads_guarded_def ex_boot_state_def)
  ultimately show ?thesis
    using console_read_reads_guarded [of ex_psci_env "return_io ()" 1 2 ex_boot_state "Inr [10]" "snd ex_read"]
    by (simp add: ex_read_def return_io_def)
qed

text \<open>C38: the interrupt handler of the console, with either UART driver, ends the interrupt exactly once, writes
  nothing to the console and leaves locks and interrupt mask as they were, whenever the console is
  initialised and its lock is free.\<close>

theorem console_handle_irq_ends:
  assumes "console_set s" and "CONSOLE_lock \<notin> set (held s)"
    and "drv = pl011_handle_irq \<or> drv = uart16550_handle_irq"
  shows "\<exists>es. console_handle_irq drv i s = (Inr (), s\<lparr>trace := trace s @ es\<rparr>) \<and>
    count_list es (Gic (Gicc_end_interrupt i)) = 1 \<and> \<not> list_ex is_output es"
  using assms pl011.console_handles u16550.console_handles by blast

theorem console_handle_irq_ends_witness:
  "\<exists>es. console_handle_irq pl011_handle_irq (Spi 1) ex_boot_state =
      (Inr (), ex_boot_state\<lparr>trace := es\<rparr>) \<and> count_list es (Gic (Gicc_end_interrupt (Spi 1))) = 1"
  using console_handle_irq_ends [of ex_boot_state pl011_handle_irq "Spi 1"] by (auto simp: ex_boot_state_def)

text \<open>C29: the panic handler never returns. If the console is initialised and its lock is taken, it waits for that lock
  for ever, with interrupts masked. Otherwise it writes the panic to the console, if that is initialised, and then
  asks the firmware to power the system off, over the conduit of the device tree and whatever the console driver
  answers; nothing but lines on the console follows, and if the firmware obeys, that call is the last one.\<close>

theorem panic_handler_powers_off:
  fixes s :: "'s boot_state_scheme"
  shows "if console_set s \<and> CONSOLE_lock \<in> set (held s)
    then (panic_handler E info :: ('s boot_state_scheme, 'a) io) s = (Inl (Spin CONSOLE_lock), s\<lparr>masked := True\<rparr>)
    else \<exists>e t es. (panic_handler E info :: ('s boot_state_scheme, 'a) io) s = (Inl e, t) \<and>
      trace t = trace s @ (if console_set s then [Con (Panic_line info)] else []) @
        Psci (Psci_system_off (off_conduit s)) # map Con es \<and>
      ((\<forall>h. system_off_reply E h (off_conduit s) = None) \<longrightarrow> e = Powered_off \<and> es = [])"
proof (cases "console_set s \<and> CONSOLE_lock \<in> set (held s)")
  case True
  then show ?thesis by (simp add: panic_handler_spins)
next
  case False
  let ?s = "if console_set s then s\<lparr>trace := trace s @ [Con (Panic_line info)]\<rparr> else s"
  have c: "off_conduit ?s = off_conduit s" by simp
  from wpre_power_off [of E ?s] obtain e t es where off: "(power_off E :: ('s boot_state_scheme, 'a) io) ?s = (Inl e, t)"
    and tr: "trace t = trace ?s @ Psci (Psci_system_off (off_conduit s)) # map Con es"
    unfolding c by (auto simp: wpre_aborted)
  moreover have "e = Powered_off \<and> es = []" if "\<forall>h. system_off_reply E h (off_conduit s) = None"
  proof -
    have "(power_off E :: ('s boot_state_scheme, 'a) io) ?s =
        (Inl Powered_off, ?s\<lparr>trace := trace ?s @ [Psci (Psci_system_off (off_conduit ?s))]\<rparr>)"
      by (rule power_off_powered) (use that in simp)
    with off tr show ?thesis by (auto split: if_splits)
  qed
  ultimately show ?thesis
    using False by (intro iffD2 [OF if_not_P] exI [of _ e] exI [of _ t] exI [of _ es])
      (simp_all add: panic_handler_run [OF False] del: de_Morgan_conj)
qed

theorem panic_handler_powers_off_witness:
  "\<exists>t. (panic_handler (ex_psci_env\<lparr>system_off_reply := \<lambda>_ _. None\<rparr>) Overflow :: (boot_state, unit) io) ex_boot_state =
      (Inl Powered_off, t) \<and>
    trace t = [Con (Panic_line Overflow), Psci (Psci_system_off Hvc)]"
  using panic_handler_powers_off [of ex_boot_state "ex_psci_env\<lparr>system_off_reply := \<lambda>_ _. None\<rparr>" Overflow]
  by (auto simp: ex_boot_state_def off_conduit_def psci_conduit_def smc_for_psci_fdt_def)

text \<open>C30: a log line that the console driver fails to write ends the system without powering it off: the panic is
  raised while the console is locked, so the panic handler waits for that lock for ever.\<close>

theorem failed_log_never_powers_off:
  assumes "logs lvl s" and "CONSOLE_lock \<notin> set (held s)" and "console_set s"
    and "write_reply E (trace s) (Log_line lvl lit args) = Inl err"
  shows "\<exists>t. run_with_panic E (log E lvl lit args) s = (Inl (Spin CONSOLE_lock), t) \<and>
    trace t = trace s @ [Con (Log_line lvl lit args)]"
  using assms by (simp add: run_with_panic_def log_fails panic_handler_spins)

theorem failed_log_never_powers_off_witness:
  "\<exists>t. run_with_panic ex_psci_env (log ex_psci_env Info ''x'' []) ex_boot_state = (Inl (Spin CONSOLE_lock), t)"
  using failed_log_never_powers_off [of Info ex_boot_state ex_psci_env "''x''" "[]" Uart_error]
  by (auto simp: ex_boot_state_def ex_psci_env_def logs_def less_eq_level_def)

end
