(* ===== verification/Interrupts.thy ===== *)
theory Interrupts
  imports Psci_Power
begin

text \<open>
  interrupts.rs: the tables of interrupt handlers (one shared by all cores, one private to each
  core), their registration and removal, the dispatch of a pending interrupt, and the set-up of
  the interrupt controller on the first and on the other cores.

  Handlers are function values in the source. The tables hold codes \<open>'h\<close> for them, and the
  dispatch takes the function that runs a code; the program's own handlers and their codes are in
  the theories that register them.
\<close>

section \<open>State and environment\<close>

text \<open>\<^verbatim>\<open>PRIVATE_IRQ_HANDLERS\<close> is a \<^verbatim>\<open>Lazy\<close>: \<open>None\<close> before its first use.
  \<open>private_borrowed\<close> tells whether the running core's \<^verbatim>\<open>RefCell\<close> is borrowed.
  \<open>gic_set\<close> is whether \<^verbatim>\<open>GIC\<close>, a \<^verbatim>\<open>Once\<close>, has been initialised.\<close>

record 'h irq_state = boot_state +
  shared_irq_handlers :: "intid \<rightharpoonup> 'h"
  private_irq_handlers :: "(intid \<rightharpoonup> 'h) list option"
  private_borrowed :: bool
  gic_set :: bool

datatype gic_error = Gic_error

record irq_env = psci_env +
  ack_reply :: "event list \<Rightarrow> intid option"
  gic_reply :: "event list \<Rightarrow> gic_event \<Rightarrow> gic_error + unit"
  SGI_COUNT :: u32
  sizeof_Gicd :: usize
  sizeof_GicrSgi :: usize

section \<open>Per-core state\<close>

text \<open>\<^verbatim>\<open>new_per_core_state_with_default\<close> and the first use of the \<^verbatim>\<open>Lazy\<close>: one empty
  table for each core of the device tree.\<close>

definition private_table :: "('h, 's) irq_state_scheme \<Rightarrow> (intid \<rightharpoonup> 'h) list res" where
  "private_table s =
     (case private_irq_handlers s of
        Some tables \<Rightarrow> Inr tables
      | None \<Rightarrow> rbind (cpu_count_in (FDT s)) (\<lambda>n. Inr (replicate n Map.empty)))"

definition private_force :: "(('h, 's) irq_state_scheme, (intid \<rightharpoonup> 'h) list) io" where
  "private_force =
     bind_io (gets_io private_table) (\<lambda>r.
     bind_io (lift_io r) (\<lambda>tables.
     bind_io (modify_io (\<lambda>s. s\<lparr>private_irq_handlers := Some tables\<rparr>)) (\<lambda>_.
     return_io tables)))"

text \<open>\<^verbatim>\<open>PerCore::get\<close>: the table at the index of the running core.\<close>

definition private_get :: "'e irq_env_scheme \<Rightarrow> (('h, 's) irq_state_scheme, nat \<times> (intid \<rightharpoonup> 'h)) io" where
  "private_get E =
     bind_io private_force (\<lambda>tables.
     bind_io (core_index E) (\<lambda>i.
     bind_io (lift_io (require Out_of_bounds (i < length tables))) (\<lambda>_.
     return_io (i, tables ! i))))"

text \<open>\<^verbatim>\<open>borrow_mut\<close> and a change of the running core's table.\<close>

definition private_update ::
  "'e irq_env_scheme \<Rightarrow> ((intid \<rightharpoonup> 'h) \<Rightarrow> (intid \<rightharpoonup> 'h)) \<Rightarrow>
   (('h, 's) irq_state_scheme, intid \<rightharpoonup> 'h) io" where
  "private_update E f =
     bind_io (private_get E) (\<lambda>(i, p).
     bind_io (gets_io private_borrowed) (\<lambda>b.
     bind_io (lift_io (require Already_borrowed (\<not> b))) (\<lambda>_.
     bind_io (modify_io (\<lambda>s. s\<lparr>private_irq_handlers :=
       map_option (\<lambda>tables. tables[i := f p]) (private_irq_handlers s)\<rparr>)) (\<lambda>_.
     return_io p))))"

text \<open>The scope of a shared borrow of the running core's table.\<close>

definition with_borrow :: "(('h, 's) irq_state_scheme, 'a) io \<Rightarrow> (('h, 's) irq_state_scheme, 'a) io" where
  "with_borrow m =
     bind_io (gets_io private_borrowed) (\<lambda>old.
     bind_io (modify_io (\<lambda>s. s\<lparr>private_borrowed := True\<rparr>)) (\<lambda>_.
     bind_io m (\<lambda>x.
     bind_io (modify_io (\<lambda>s. s\<lparr>private_borrowed := old\<rparr>)) (\<lambda>_.
     return_io x))))"

section \<open>Registering and removing handlers\<close>

definition set_shared_irq_handler ::
  "'e irq_env_scheme \<Rightarrow> intid \<Rightarrow> 'h \<Rightarrow> (('h, 's) irq_state_scheme, 'h option) io" where
  "set_shared_irq_handler E intid handler =
     bind_io (log E Trace ''Setting shared IRQ handler for {intid:?}'' [A_intid intid]) (\<lambda>_.
     exception_free (
       bind_io (private_get E) (\<lambda>(i, p).
       bind_io (lift_io (require
         (Assert_failed ''Private IRQ handler already exists for {intid:?}'') (p intid = None))) (\<lambda>_.
       with_lock SHARED_IRQ_HANDLERS_lock (
         bind_io (gets_io shared_irq_handlers) (\<lambda>m.
         bind_io (modify_io (\<lambda>s. s\<lparr>shared_irq_handlers := m(intid \<mapsto> handler)\<rparr>)) (\<lambda>_.
         return_io (m intid))))))))"

definition remove_shared_irq_handler ::
  "'e irq_env_scheme \<Rightarrow> intid \<Rightarrow> (('h, 's) irq_state_scheme, 'h option) io" where
  "remove_shared_irq_handler E intid =
     bind_io (log E Trace ''Removing shared IRQ handler for {intid:?}'' [A_intid intid]) (\<lambda>_.
     exception_free (
       with_lock SHARED_IRQ_HANDLERS_lock (
         bind_io (gets_io shared_irq_handlers) (\<lambda>m.
         bind_io (modify_io (\<lambda>s. s\<lparr>shared_irq_handlers := m(intid := None)\<rparr>)) (\<lambda>_.
         return_io (m intid))))))"

definition set_private_irq_handler ::
  "'e irq_env_scheme \<Rightarrow> intid \<Rightarrow> 'h \<Rightarrow> (('h, 's) irq_state_scheme, 'h option) io" where
  "set_private_irq_handler E intid handler =
     bind_io (log E Trace ''Setting private IRQ handler for {intid:?}'' [A_intid intid]) (\<lambda>_.
     exception_free (
       bind_io (with_lock SHARED_IRQ_HANDLERS_lock (gets_io shared_irq_handlers)) (\<lambda>m.
       bind_io (lift_io (require
         (Assert_failed ''Private IRQ handler already exists for {intid:?}'') (m intid = None))) (\<lambda>_.
       bind_io (private_update E (\<lambda>p. p(intid \<mapsto> handler))) (\<lambda>p.
       return_io (p intid))))))"

definition remove_private_irq_handler ::
  "'e irq_env_scheme \<Rightarrow> intid \<Rightarrow> (('h, 's) irq_state_scheme, 'h option) io" where
  "remove_private_irq_handler E intid =
     bind_io (log E Trace ''Removing private IRQ handler for {intid:?}'' [A_intid intid]) (\<lambda>_.
     exception_free (
       bind_io (private_update E (\<lambda>p. p(intid := None))) (\<lambda>p.
       return_io (p intid))))"

section \<open>Dispatch\<close>

text \<open>The guard of the shared table lives while its handler runs, and is dropped before the last
  \<^verbatim>\<open>else\<close> (2024 edition scoping of \<^verbatim>\<open>if let\<close>).\<close>

definition handle_irq ::
  "'e irq_env_scheme \<Rightarrow> ('h \<Rightarrow> intid \<Rightarrow> (('h, 's) irq_state_scheme, unit) io) \<Rightarrow>
   (('h, 's) irq_state_scheme, unit) io" where
  "handle_irq E run =
     bind_io (call (ack_reply E) (Gic Gicc_acknowledge)) (\<lambda>r.
     bind_io (lift_io (expect_opt ''No pending interrupt'' r)) (\<lambda>intid.
     bind_io (log E Trace ''IRQ: {intid:?}'' [A_intid intid]) (\<lambda>_.
     exception_free (
       bind_io (private_get E) (\<lambda>(i, p).
       case p intid of
         Some handler \<Rightarrow> with_borrow (run handler intid)
       | None \<Rightarrow>
           bind_io (acquire SHARED_IRQ_HANDLERS_lock) (\<lambda>_.
           bind_io (gets_io shared_irq_handlers) (\<lambda>m.
           case m intid of
             Some handler \<Rightarrow>
               bind_io (run handler intid) (\<lambda>_.
               release SHARED_IRQ_HANDLERS_lock)
           | None \<Rightarrow>
               bind_io (release SHARED_IRQ_HANDLERS_lock) (\<lambda>_.
               abort_io (Panic (Explicit ''Unexpected IRQ {:?} with no handler''))))))))))"

text \<open>exceptions.rs: \<^verbatim>\<open>irq_current\<close>, the entry of an interrupt taken on the current
  exception level.\<close>

definition irq_current ::
  "'e irq_env_scheme \<Rightarrow> ('h \<Rightarrow> intid \<Rightarrow> (('h, 's) irq_state_scheme, unit) io) \<Rightarrow>
   (('h, 's) irq_state_scheme, unit) io" where
  "irq_current E run =
     bind_io (log E Trace ''irq_current, register_state: {register_state:#018x?}'' []) (\<lambda>_.
     handle_irq E run)"

section \<open>Setting up the interrupt controller\<close>

text \<open>\<^verbatim>\<open>NonNull::new(address).unwrap()\<close>.\<close>

definition non_null :: "u64 \<Rightarrow> u64 res" where
  "non_null a = (if a = 0 then Inl (Panic Unwrap_none) else Inr a)"

definition make_gic ::
  "'e irq_env_scheme \<Rightarrow> fdt \<Rightarrow> (('h, 's) irq_state_scheme, unit option) io" where
  "make_gic E fdt =
     bind_io (lift_io (cpu_count_in (Some fdt))) (\<lambda>cpu_count.
     case next_opt (fdt_find_compatible fdt ''arm,gic-v3'') of
       None \<Rightarrow> return_io None
     | Some node \<Rightarrow>
         bind_io (log E Info ''Found GIC FDT node {}'' [A_str (node_name node)]) (\<lambda>_.
         bind_io (lift_io (rbind (unwrap (node_reg node)) unwrap_opt)) (\<lambda>reg.
         bind_io (lift_io (expect_opt ''GICD region missing'' (next_opt reg))) (\<lambda>gicd_region.
         bind_io (lift_io (expect_opt ''GICR region missing'' (next_opt (drop 1 reg)))) (\<lambda>gicr_region.
         bind_io (log E Info ''  GICD: {gicd_region:?}'' []) (\<lambda>_.
         bind_io (log E Info ''  GICR: {gicr_region:?}'' []) (\<lambda>_.
         bind_io (lift_io (unwrap (reg_size gicr_region))) (\<lambda>gicr_region_size.
         bind_io (lift_io (unwrap (reg_size gicd_region))) (\<lambda>gicd_region_size.
         bind_io (log E Info ''  GICR space for {} CPUs''
           [A_u64 (gicr_region_size div sizeof_GicrSgi E)]) (\<lambda>_.
         bind_io (lift_io (require (Assert_failed ''gicd_region_size == size_of::<Gicd>()'')
           (gicd_region_size = sizeof_Gicd E))) (\<lambda>_.
         bind_io (lift_io (checked_mul (sizeof_GicrSgi E) (of_nat cpu_count))) (\<lambda>needed.
         bind_io (lift_io (require
           (Assert_failed ''gicr_region_size >= size_of::<GicrSgi>() * cpu_count'')
           (needed \<le> gicr_region_size))) (\<lambda>_.
         bind_io (lift_io (rbind (unwrap (reg_address gicd_region)) non_null)) (\<lambda>gicd.
         bind_io (lift_io (rbind (unwrap (reg_address gicr_region)) non_null)) (\<lambda>gicr.
         bind_io (log E Debug ''GICD: {gicd:?} GICR: {gicr:?} cpu_count {cpu_count}''
           [A_u64 gicd, A_u64 gicr, A_nat cpu_count]) (\<lambda>_.
         bind_io (emit (Gic (Gic_new gicd gicr cpu_count))) (\<lambda>_.
         return_io (Some ()))))))))))))))))))"

text \<open>\<open>setup_gic\<close> is the platform's hook (\<^verbatim>\<open>PlatformImpl::setup_gic\<close>).\<close>

definition init_gic ::
  "'e irq_env_scheme \<Rightarrow> (('h, 's) irq_state_scheme, unit) io \<Rightarrow> fdt \<Rightarrow>
   (('h, 's) irq_state_scheme, unit) io" where
  "init_gic E setup_gic fdt =
     bind_io (init_irq_routing E) (\<lambda>_.
     bind_io (gets_io gic_set) (\<lambda>already.
     if already then return_io ()
     else
       bind_io (make_gic E fdt) (\<lambda>gic.
       bind_io (lift_io (expect_opt ''No GIC found in FDT'' gic)) (\<lambda>_.
       block_io [
         log E Debug ''gic.setup...'' [],
         emit (Gic (Gic_setup 0)),
         log E Debug ''Platform GIC setup'' [],
         setup_gic,
         modify_io (\<lambda>s. s\<lparr>gic_set := True\<rparr>)]))))"

text \<open>\<^verbatim>\<open>GIC.get().unwrap().lock()\<close> for the scope of a statement or block.\<close>

definition with_gic ::
  "(('h, 's) irq_state_scheme, 'a) io \<Rightarrow> (('h, 's) irq_state_scheme, 'a) io" where
  "with_gic m =
     bind_io (gets_io gic_set) (\<lambda>b.
     bind_io (lift_io (require Unwrap_none b)) (\<lambda>_.
     with_lock GIC_lock m))"

text \<open>A fallible call of the GIC driver, unwrapped.\<close>

definition gic_call :: "'e irq_env_scheme \<Rightarrow> gic_event \<Rightarrow> ('s io_state_scheme, unit) io" where
  "gic_call E ev =
     bind_io (call (\<lambda>h. gic_reply E h ev) (Gic ev)) (\<lambda>r. lift_io (unwrap r))"

definition secondary_init_gic :: "'e irq_env_scheme \<Rightarrow> (('h, 's) irq_state_scheme, unit) io" where
  "secondary_init_gic E =
     bind_io (init_irq_routing E) (\<lambda>_.
     bind_io (current_cpu_index E) (\<lambda>cpu.
     block_io [
       with_gic (emit (Gic (Gic_init_cpu cpu))),
       emit (Gic (Gicc_enable_group1 True)),
       emit (Gic (Gicc_set_priority_mask 0xff))]))"

section \<open>The handler tables as a contract\<close>

text \<open>What a client of a handler table relies on: an insertion that the other table allows returns
  the handler that was there and changes that entry only; one that the other table forbids panics
  and changes nothing; a removal returns the handler that was there and deletes that entry only.\<close>

locale handler_table =
  fixes ins :: "'k \<Rightarrow> 'v \<Rightarrow> ('s, 'v option) io"
    and rem :: "'k \<Rightarrow> ('s, 'v option) io"
    and table :: "'s \<Rightarrow> 'k \<Rightarrow> 'v option"
    and ready :: "'s \<Rightarrow> bool"
    and allowed :: "'s \<Rightarrow> 'k \<Rightarrow> bool"
  assumes ins_allowed: "ready s \<Longrightarrow> allowed s k \<Longrightarrow>
      wpre (ins k v)
        (\<lambda>r s'. r = table s k \<and> table s' = (table s)(k \<mapsto> v) \<and> ready s' \<and> allowed s' = allowed s)
        (\<lambda>_ _. False) s"
    and ins_refused: "ready s \<Longrightarrow> \<not> allowed s k \<Longrightarrow>
      wpre (ins k v) (\<lambda>_ _. False)
        (\<lambda>e s'. (\<exists>msg. e = Panic (Assert_failed msg)) \<and> table s' = table s \<and> allowed s' = allowed s) s"
    and rem_ready: "ready s \<Longrightarrow>
      wpre (rem k)
        (\<lambda>r s'. r = table s k \<and> table s' = (table s)(k := None) \<and> ready s' \<and> allowed s' = allowed s)
        (\<lambda>_ _. False) s"
begin

text \<open>Registering one handler for a list of keys, as the program does in a loop.\<close>

lemma ins_all:
  assumes "ready s" and "\<And>k. k \<in> set ks \<Longrightarrow> allowed s k"
  shows "wpre (for_each ks (\<lambda>k. bind_io (ins k v) (\<lambda>_. return_io ())))
    (\<lambda>_ s'. table s' = (\<lambda>k. if k \<in> set ks then Some v else table s k) \<and> ready s' \<and> allowed s' = allowed s)
    (\<lambda>_ _. False) s"
  using assms
proof (induction ks arbitrary: s)
  case Nil
  then show ?case by (simp add: wp)
next
  case (Cons k ks)
  have 1: "wpre (ins k v)
      (\<lambda>r s'. r = table s k \<and> table s' = (table s)(k \<mapsto> v) \<and> ready s' \<and> allowed s' = allowed s)
      (\<lambda>_ _. False) s"
    using Cons.prems by (intro ins_allowed) auto
  have 2: "wpre (for_each ks (\<lambda>k. bind_io (ins k v) (\<lambda>_. return_io ())))
      (\<lambda>_ s''. table s'' = (\<lambda>j. if j \<in> set (k # ks) then Some v else table s j) \<and> ready s'' \<and>
        allowed s'' = allowed s) (\<lambda>_ _. False) s'"
    if "table s' = (table s)(k \<mapsto> v)" "ready s'" "allowed s' = allowed s" for s'
  proof -
    have "wpre (for_each ks (\<lambda>k. bind_io (ins k v) (\<lambda>_. return_io ())))
        (\<lambda>_ s''. table s'' = (\<lambda>j. if j \<in> set ks then Some v else table s' j) \<and> ready s'' \<and>
          allowed s'' = allowed s') (\<lambda>_ _. False) s'"
      using that Cons.prems by (intro Cons.IH) auto
    then show ?thesis by (rule wpre_mono) (use that in auto)
  qed
  show ?case
    using 1 2 by (auto simp: wp elim!: wpre_mono)
qed

lemma rem_all:
  assumes "ready s"
  shows "wpre (for_each ks (\<lambda>k. bind_io (rem k) (\<lambda>_. return_io ())))
    (\<lambda>_ s'. table s' = (\<lambda>k. if k \<in> set ks then None else table s k) \<and> ready s' \<and> allowed s' = allowed s)
    (\<lambda>_ _. False) s"
  using assms
proof (induction ks arbitrary: s)
  case Nil
  then show ?case by (simp add: wp)
next
  case (Cons k ks)
  have 2: "wpre (for_each ks (\<lambda>k. bind_io (rem k) (\<lambda>_. return_io ())))
      (\<lambda>_ s''. table s'' = (\<lambda>j. if j \<in> set (k # ks) then None else table s j) \<and> ready s'' \<and>
        allowed s'' = allowed s) (\<lambda>_ _. False) s'"
    if "table s' = (table s)(k := None)" "ready s'" "allowed s' = allowed s" for s'
  proof -
    have "wpre (for_each ks (\<lambda>k. bind_io (rem k) (\<lambda>_. return_io ())))
        (\<lambda>_ s''. table s'' = (\<lambda>j. if j \<in> set ks then None else table s' j) \<and> ready s'' \<and>
          allowed s'' = allowed s') (\<lambda>_ _. False) s'"
      using that by (intro Cons.IH)
    then show ?thesis by (rule wpre_mono) (use that in auto)
  qed
  show ?case
    using rem_ready [OF Cons.prems, of k] 2 by (auto simp: wp elim!: wpre_mono)
qed

text \<open>Registering and then removing gives back the table, on keys that were free.\<close>

lemma ins_then_rem:
  assumes "ready s" and "allowed s k"
  shows "wpre (bind_io (ins k v) (\<lambda>_. rem k))
    (\<lambda>r s'. r = Some v \<and> table s' = (table s)(k := None) \<and> ready s') (\<lambda>_ _. False) s"
  using ins_allowed [OF assms, of v]
  by (auto simp: wp elim!: wpre_mono intro!: wpre_mono [OF rem_ready])

end

section \<open>The model's tables satisfy the contract\<close>

text \<open>\<open>core_at E s tables i\<close>: the running core has index \<open>i\<close> in the device tree and the per-core
  tables, forced or not, are \<open>tables\<close>.\<close>

definition core_at :: "'e irq_env_scheme \<Rightarrow> ('h, 's) irq_state_scheme \<Rightarrow> (intid \<rightharpoonup> 'h) list \<Rightarrow> nat \<Rightarrow> bool" where
  "core_at E s tables i \<longleftrightarrow>
     private_table s = Inr tables \<and> current_cpu_index_in E (FDT s) = Inr i \<and> i < length tables"

definition my_private :: "'e irq_env_scheme \<Rightarrow> ('h, 's) irq_state_scheme \<Rightarrow> intid \<rightharpoonup> 'h" where
  "my_private E s =
     (case (private_table s, current_cpu_index_in E (FDT s)) of
        (Inr tables, Inr i) \<Rightarrow> tables ! i
      | _ \<Rightarrow> Map.empty)"

text \<open>The tables can be used: the core is in the device tree, the lock of the shared table is free,
  the private table is not borrowed, and trace messages are off.\<close>

definition irq_ready :: "'e irq_env_scheme \<Rightarrow> ('h, 's) irq_state_scheme \<Rightarrow> bool" where
  "irq_ready E s \<longleftrightarrow>
     (\<exists>tables i. core_at E s tables i) \<and> SHARED_IRQ_HANDLERS_lock \<notin> set (held s) \<and>
     \<not> private_borrowed s \<and> \<not> logs Trace s"

lemma my_private_core_at: "core_at E s tables i \<Longrightarrow> my_private E s = tables ! i"
  by (simp add: my_private_def core_at_def)

lemma private_table_forced [simp]:
  "private_table (s\<lparr>private_irq_handlers := Some tables\<rparr>) = Inr tables"
  by (simp add: private_table_def)

lemma private_table_updates [simp]:
  "private_table (s\<lparr>masked := b\<rparr>) = private_table s"
  "private_table (s\<lparr>held := x\<rparr>) = private_table s"
  "private_table (s\<lparr>trace := h\<rparr>) = private_table s"
  "private_table (s\<lparr>shared_irq_handlers := m\<rparr>) = private_table s"
  "private_table (s\<lparr>private_borrowed := b\<rparr>) = private_table s"
  "private_table (s\<lparr>gic_set := b\<rparr>) = private_table s"
  by (simp_all add: private_table_def split: option.split)

lemma core_at_updates [simp]:
  "core_at E (s\<lparr>masked := b\<rparr>) = core_at E s"
  "core_at E (s\<lparr>held := x\<rparr>) = core_at E s"
  "core_at E (s\<lparr>trace := h\<rparr>) = core_at E s"
  "core_at E (s\<lparr>shared_irq_handlers := m\<rparr>) = core_at E s"
  "core_at E (s\<lparr>private_borrowed := b\<rparr>) = core_at E s"
  "core_at E (s\<lparr>gic_set := b\<rparr>) = core_at E s"
  by (simp_all add: core_at_def fun_eq_iff)

lemma wpre_private_get:
  assumes "core_at E s tables i"
  shows "wpre (private_get E) Q Er s =
    Q (i, tables ! i) (s\<lparr>private_irq_handlers := Some tables\<rparr>)"
  using assms by (simp add: private_get_def private_force_def core_at_def wp)

lemma wpre_private_update:
  assumes "core_at E s tables i"
  shows "wpre (private_update E f) Q Er s =
    (if private_borrowed s
     then Er (Panic Already_borrowed) (s\<lparr>private_irq_handlers := Some tables\<rparr>)
     else Q (tables ! i) (s\<lparr>private_irq_handlers := Some (tables[i := f (tables ! i)])\<rparr>))"
  using assms by (simp add: private_update_def wpre_private_get [OF assms] wp)

lemma logs_updates [simp]:
  "logs l (s\<lparr>masked := b\<rparr>) = logs l s"
  "logs l (s\<lparr>held := x\<rparr>) = logs l s"
  "logs l (s\<lparr>trace := h\<rparr>) = logs l s"
  "logs l (t\<lparr>private_irq_handlers := p\<rparr>) = logs l t"
  "logs l (t\<lparr>shared_irq_handlers := m\<rparr>) = logs l t"
  "logs l (t\<lparr>private_borrowed := b\<rparr>) = logs l t"
  by (simp_all add: logs_def)

lemma wpre_gic_call [wp]:
  "wpre (gic_call E ev) Q R =
     (\<lambda>s. case gic_reply E (trace s) ev of
        Inl _ \<Rightarrow> R (Panic Unwrap_err) (s\<lparr>trace := trace s @ [Gic ev]\<rparr>)
      | Inr _ \<Rightarrow> Q () (s\<lparr>trace := trace s @ [Gic ev]\<rparr>))"
  by (rule ext) (simp add: gic_call_def wp split: sum.split)

lemma irq_ready_updates [simp]:
  "irq_ready E (s\<lparr>trace := h\<rparr>) = irq_ready E s"
  "irq_ready E (s\<lparr>masked := b\<rparr>) = irq_ready E s"
  "irq_ready E (s\<lparr>gic_set := b\<rparr>) = irq_ready E s"
  "my_private E (s\<lparr>trace := h\<rparr>) = my_private E s"
  "my_private E (s\<lparr>masked := b\<rparr>) = my_private E s"
  "my_private E (s\<lparr>held := l\<rparr>) = my_private E s"
  "my_private E (s\<lparr>gic_set := b\<rparr>) = my_private E s"
  by (simp_all add: irq_ready_def my_private_def logs_def)

lemma wpre_with_gic [wp]:
  "wpre (with_gic m) Q R =
     (\<lambda>s. if gic_set s then wpre (with_lock GIC_lock m) Q R s else R (Panic Unwrap_none) s)"
  by (rule ext) (simp add: with_gic_def wp require_def)

lemma irq_ready_gic [simp]: "irq_ready E (s\<lparr>held := GIC_lock # held s\<rparr>) = irq_ready E s"
  by (simp add: irq_ready_def logs_def)

lemma irq_readyE:
  assumes "irq_ready E s"
  obtains tables i where "core_at E s tables i" "SHARED_IRQ_HANDLERS_lock \<notin> set (held s)"
    "\<not> private_borrowed s" "\<not> logs Trace s"
  using assms by (auto simp: irq_ready_def)

lemma core_at_cong:
  assumes "core_at E s tables i"
    and "FDT t = FDT s" and "private_irq_handlers t = Some tables'" and "length tables' = length tables"
  shows "core_at E t tables' i"
  using assms by (simp add: core_at_def private_table_def)

lemma my_private_cong:
  assumes "core_at E s tables i"
    and "FDT t = FDT s" and "private_irq_handlers t = Some tables'" and "length tables' = length tables"
  shows "my_private E t = tables' ! i"
  using core_at_cong [OF assms] by (rule my_private_core_at)

text \<open>Each operation, run where the tables are ready, in closed form.\<close>

lemma set_shared_run:
  assumes "irq_ready E s" and "core_at E s tables i"
  shows "wpre (set_shared_irq_handler E k h) Q Er s =
    (if (tables ! i) k = None
     then Q (shared_irq_handlers s k)
       (s\<lparr>private_irq_handlers := Some tables, shared_irq_handlers := (shared_irq_handlers s)(k \<mapsto> h)\<rparr>)
     else Er (Panic (Assert_failed ''Private IRQ handler already exists for {intid:?}''))
       (s\<lparr>masked := True, private_irq_handlers := Some tables\<rparr>))"
  using assms
  by (auto simp: set_shared_irq_handler_def wp irq_ready_def wpre_private_get)

lemma set_private_run:
  assumes "irq_ready E s" and "core_at E s tables i"
  shows "wpre (set_private_irq_handler E k h) Q Er s =
    (if shared_irq_handlers s k = None
     then Q ((tables ! i) k)
       (s\<lparr>private_irq_handlers := Some (tables[i := (tables ! i)(k \<mapsto> h)])\<rparr>)
     else Er (Panic (Assert_failed ''Private IRQ handler already exists for {intid:?}''))
       (s\<lparr>masked := True\<rparr>))"
  using assms
  by (auto simp: set_private_irq_handler_def wp irq_ready_def wpre_private_update)

lemma remove_shared_run:
  assumes "irq_ready E s"
  shows "wpre (remove_shared_irq_handler E k) Q Er s =
     Q (shared_irq_handlers s k)
       (s\<lparr>shared_irq_handlers := (shared_irq_handlers s)(k := None)\<rparr>)"
  using assms
  by (auto simp: remove_shared_irq_handler_def wp irq_ready_def)

lemma remove_private_run:
  assumes "irq_ready E s" and "core_at E s tables i"
  shows "wpre (remove_private_irq_handler E k) Q Er s =
     Q ((tables ! i) k)
       (s\<lparr>private_irq_handlers := Some (tables[i := (tables ! i)(k := None)])\<rparr>)"
  using assms
  by (auto simp: remove_private_irq_handler_def wp irq_ready_def wpre_private_update)

interpretation shr: handler_table
  "set_shared_irq_handler E" "remove_shared_irq_handler E" shared_irq_handlers "irq_ready E"
  "\<lambda>s k. my_private E s k = None"
  for E :: "'e irq_env_scheme"
proof unfold_locales
  fix s :: "('h, 's) irq_state_scheme" and k :: intid and v :: 'h
  assume ready: "irq_ready E s"
  then obtain tables i where at: "core_at E s tables i" by (rule irq_readyE)
  note simps = irq_ready_def my_private_cong [OF at] my_private_core_at [OF at]
  have ready': "\<exists>ts j. core_at E t ts j" if "FDT t = FDT s" "private_irq_handlers t = Some tables" for t
    using core_at_cong [OF at that] by auto
  show "wpre (set_shared_irq_handler E k v)
      (\<lambda>r s'. r = shared_irq_handlers s k \<and> shared_irq_handlers s' = (shared_irq_handlers s)(k \<mapsto> v) \<and>
        irq_ready E s' \<and> (\<lambda>k. my_private E s' k = None) = (\<lambda>k. my_private E s k = None))
      (\<lambda>_ _. False) s" if "my_private E s k = None"
    using that ready by (auto simp: set_shared_run [OF ready at] simps intro!: ready')
  show "wpre (set_shared_irq_handler E k v) (\<lambda>_ _. False)
      (\<lambda>e s'. (\<exists>msg. e = Panic (Assert_failed msg)) \<and> shared_irq_handlers s' = shared_irq_handlers s \<and>
        (\<lambda>k. my_private E s' k = None) = (\<lambda>k. my_private E s k = None)) s"
    if "my_private E s k \<noteq> None"
    using that by (simp add: set_shared_run [OF ready at] simps)
  show "wpre (remove_shared_irq_handler E k)
      (\<lambda>r s'. r = shared_irq_handlers s k \<and> shared_irq_handlers s' = (shared_irq_handlers s)(k := None) \<and>
        irq_ready E s' \<and> (\<lambda>k. my_private E s' k = None) = (\<lambda>k. my_private E s k = None))
      (\<lambda>_ _. False) s"
    using ready at by (auto simp: remove_shared_run [OF ready] my_private_core_at simps)
qed

interpretation prv: handler_table
  "set_private_irq_handler E" "remove_private_irq_handler E" "my_private E" "irq_ready E"
  "\<lambda>s k. shared_irq_handlers s k = None"
  for E :: "'e irq_env_scheme"
proof unfold_locales
  fix s :: "('h, 's) irq_state_scheme" and k :: intid and v :: 'h
  assume ready: "irq_ready E s"
  then obtain tables i where at: "core_at E s tables i" by (rule irq_readyE)
  then have i: "i < length tables" by (simp add: core_at_def)
  note simps = irq_ready_def my_private_cong [OF at] my_private_core_at [OF at]
  have ready': "\<exists>ts j. core_at E t ts j"
    if "FDT t = FDT s" "private_irq_handlers t = Some tables'" "length tables' = length tables" for t tables'
    using core_at_cong [OF at that] by auto
  show "wpre (set_private_irq_handler E k v)
      (\<lambda>r s'. r = my_private E s k \<and> my_private E s' = (my_private E s)(k \<mapsto> v) \<and> irq_ready E s' \<and>
        (\<lambda>k. shared_irq_handlers s' k = None) = (\<lambda>k. shared_irq_handlers s k = None))
      (\<lambda>_ _. False) s" if "shared_irq_handlers s k = None"
    using that ready i by (auto simp: set_private_run [OF ready at] simps intro!: ready')
  show "wpre (set_private_irq_handler E k v) (\<lambda>_ _. False)
      (\<lambda>e s'. (\<exists>msg. e = Panic (Assert_failed msg)) \<and> my_private E s' = my_private E s \<and>
        (\<lambda>k. shared_irq_handlers s' k = None) = (\<lambda>k. shared_irq_handlers s k = None)) s"
    if "shared_irq_handlers s k \<noteq> None"
    using that at by (simp add: set_private_run [OF ready at] my_private_core_at)
  show "wpre (remove_private_irq_handler E k)
      (\<lambda>r s'. r = my_private E s k \<and> my_private E s' = (my_private E s)(k := None) \<and> irq_ready E s' \<and>
        (\<lambda>k. shared_irq_handlers s' k = None) = (\<lambda>k. shared_irq_handlers s k = None))
      (\<lambda>_ _. False) s"
    using ready i by (auto simp: remove_private_run [OF ready at] simps intro!: ready')
qed

section \<open>Properties\<close>

text \<open>Dispatch, in closed form: the private table of the running core decides first, then the
  shared table, whose lock is held while its handler runs; both handlers run with interrupts
  masked.\<close>

lemma handle_irq_run:
  assumes "irq_ready E s" and at: "core_at E s tables i" and "ack_reply E (trace s) = Some k"
  shows "wpre (handle_irq E run) Q Er s =
    (let t = s\<lparr>trace := trace s @ [Gic Gicc_acknowledge], masked := True,
               private_irq_handlers := Some tables\<rparr> in
     case (tables ! i) k of
       Some h \<Rightarrow>
         wpre (run h k) (\<lambda>_ s'. Q () (s'\<lparr>private_borrowed := False, masked := masked s\<rparr>)) Er
           (t\<lparr>private_borrowed := True\<rparr>)
     | None \<Rightarrow>
         (case shared_irq_handlers s k of
            Some h \<Rightarrow>
              wpre (run h k)
                (\<lambda>_ s'. Q () (s'\<lparr>held := remove1 SHARED_IRQ_HANDLERS_lock (held s'), masked := masked s\<rparr>)) Er
                (t\<lparr>held := SHARED_IRQ_HANDLERS_lock # held s\<rparr>)
          | None \<Rightarrow> Er (Panic (Explicit ''Unexpected IRQ {:?} with no handler'')) t))"
  using assms
  by (simp add: handle_irq_def wp irq_ready_def wpre_private_get [where tables = tables and i = i]
      with_borrow_def Let_def split: option.split)

lemma handle_irq_eq:
  assumes "irq_ready E s" and at: "core_at E s tables i" and "ack_reply E (trace s) = Some k"
  shows "handle_irq E run s =
    (let t = s\<lparr>trace := trace s @ [Gic Gicc_acknowledge], masked := True,
               private_irq_handlers := Some tables\<rparr> in
     case (tables ! i) k of
       Some h \<Rightarrow>
         (case run h k (t\<lparr>private_borrowed := True\<rparr>) of
            (Inl e, u) \<Rightarrow> (Inl e, u)
          | (Inr _, u) \<Rightarrow> (Inr (), u\<lparr>private_borrowed := False, masked := masked s\<rparr>))
     | None \<Rightarrow>
         (case shared_irq_handlers s k of
            Some h \<Rightarrow>
              (case run h k (t\<lparr>held := SHARED_IRQ_HANDLERS_lock # held s\<rparr>) of
                 (Inl e, u) \<Rightarrow> (Inl e, u)
               | (Inr _, u) \<Rightarrow> (Inr (), u\<lparr>held := remove1 SHARED_IRQ_HANDLERS_lock (held u),
                   masked := masked s\<rparr>))
          | None \<Rightarrow> (Inl (Panic (Explicit ''Unexpected IRQ {:?} with no handler'')), t)))"
  by (rule wpre_eqI, subst handle_irq_run [OF assms])
    (simp add: wpre_def Let_def split: option.split prod.split sum.split)

text \<open>A registration that returns has found the other table free for its key.\<close>

lemma set_shared_returned:
  assumes "set_shared_irq_handler E k h s = (Inr r, t)"
  shows "\<exists>tables i. private_table s = Inr tables \<and> current_cpu_index_in E (FDT s) = Inr i \<and>
    i < length tables \<and> (tables ! i) k = None \<and> private_irq_handlers t = Some tables \<and>
    shared_irq_handlers t = (shared_irq_handlers s)(k \<mapsto> h) \<and> FDT t = FDT s"
  using assms
  by (auto simp: set_shared_irq_handler_def private_get_def private_force_def
      core_index_def current_cpu_index_def rets split: if_splits)

lemma set_private_returned:
  assumes "set_private_irq_handler E k h s = (Inr r, t)"
  shows "\<exists>tables i. private_table s = Inr tables \<and> current_cpu_index_in E (FDT s) = Inr i \<and>
    i < length tables \<and> shared_irq_handlers s k = None \<and>
    private_irq_handlers t = Some (tables[i := (tables ! i)(k \<mapsto> h)]) \<and>
    shared_irq_handlers t = shared_irq_handlers s \<and> FDT t = FDT s"
  using assms
  by (auto simp: set_private_irq_handler_def private_update_def private_get_def private_force_def
      core_index_def current_cpu_index_def rets split: if_splits)

lemma remove_shared_returned:
  assumes "remove_shared_irq_handler E k s = (Inr r, t)"
  shows "private_irq_handlers t = private_irq_handlers s \<and>
    shared_irq_handlers t = (shared_irq_handlers s)(k := None) \<and> FDT t = FDT s"
  using assms unfolding remove_shared_irq_handler_def rets
  by (elim exE conjE) (simp split: if_split_asm)

lemma remove_private_returned:
  assumes "remove_private_irq_handler E k s = (Inr r, t)"
  shows "\<exists>tables i. private_table s = Inr tables \<and> i < length tables \<and>
    private_irq_handlers t = Some (tables[i := (tables ! i)(k := None)]) \<and>
    shared_irq_handlers t = shared_irq_handlers s \<and> FDT t = FDT s"
  using assms
  by (auto simp: remove_private_irq_handler_def private_update_def private_get_def private_force_def
      core_index_def current_cpu_index_def rets split: if_splits)

lemmas registry_returned =
  set_shared_returned set_private_returned remove_shared_returned remove_private_returned

section \<open>Sequences of registry operations on any cores\<close>

text \<open>One step is one of the four operations, run to its end by the core whose MPIDR is \<open>m\<close>. The
  operations exclude each other on the shared table by its lock, and the private table of a core is
  touched by that core only.\<close>

inductive irq_step ::
  "'e irq_env_scheme \<Rightarrow> ('h, 's) irq_state_scheme \<Rightarrow> ('h, 's) irq_state_scheme \<Rightarrow> bool"
  for E :: "'e irq_env_scheme"
where
  step_set_shared: "set_shared_irq_handler (E\<lparr>mpidr_el1 := m\<rparr>) k h s = (Inr r, t) \<Longrightarrow> irq_step E s t"
| step_set_private: "set_private_irq_handler (E\<lparr>mpidr_el1 := m\<rparr>) k h s = (Inr r, t) \<Longrightarrow> irq_step E s t"
| step_remove_shared: "remove_shared_irq_handler (E\<lparr>mpidr_el1 := m\<rparr>) k s = (Inr r, t) \<Longrightarrow> irq_step E s t"
| step_remove_private: "remove_private_irq_handler (E\<lparr>mpidr_el1 := m\<rparr>) k s = (Inr r, t) \<Longrightarrow> irq_step E s t"

text \<open>No interrupt has both a shared handler and a private handler on some core.\<close>

definition tables_disjoint :: "('h, 's) irq_state_scheme \<Rightarrow> bool" where
  "tables_disjoint s \<longleftrightarrow>
     (\<forall>tables p k. private_table s = Inr tables \<longrightarrow> p \<in> set tables \<longrightarrow> p k \<noteq> None \<longrightarrow>
        shared_irq_handlers s k = None)"

definition one_core :: "('h, 's) irq_state_scheme \<Rightarrow> bool" where
  "one_core s \<longleftrightarrow> (\<exists>p. private_table s = Inr [p])"

lemma private_table_Some: "private_irq_handlers t = Some tables \<Longrightarrow> private_table t = Inr tables"
  by (simp add: private_table_def)

lemma private_table_same:
  "private_irq_handlers t = private_irq_handlers s \<Longrightarrow> FDT t = FDT s \<Longrightarrow> private_table t = private_table s"
  by (simp add: private_table_def split: option.split)

text \<open>With one core its own private table is the only one, so the check of each registration is
  enough to keep the tables apart.\<close>

definition one_table :: "('h, 's) irq_state_scheme \<Rightarrow> (intid \<rightharpoonup> 'h) \<Rightarrow> bool" where
  "one_table s p \<longleftrightarrow> private_table s = Inr [p] \<and> (\<forall>k. p k \<noteq> None \<longrightarrow> shared_irq_handlers s k = None)"

lemma one_core_disjoint_iff: "one_core s \<and> tables_disjoint s \<longleftrightarrow> (\<exists>p. one_table s p)"
  by (auto simp: one_core_def tables_disjoint_def one_table_def)

lemma irq_step_one_core:
  assumes "irq_step E s t" and "one_table s p"
  shows "\<exists>q. one_table t q"
  using assms
proof (cases rule: irq_step.cases)
  case (step_set_shared m k h r)
  with assms(2) have "one_table t p"
    by (auto dest!: set_shared_returned simp: one_table_def private_table_Some)
  then show ?thesis by blast
next
  case (step_set_private m k h r)
  with assms(2) have "one_table t (p(k \<mapsto> h))"
    by (auto dest!: set_private_returned simp: one_table_def private_table_Some)
  then show ?thesis by blast
next
  case (step_remove_shared m k r)
  with assms(2) have "one_table t p"
    by (auto dest!: remove_shared_returned simp: one_table_def private_table_same [of t s])
  then show ?thesis by blast
next
  case (step_remove_private m k r)
  with assms(2) have "one_table t (p(k := None))"
    by (auto dest!: remove_private_returned simp: one_table_def private_table_Some)
  then show ?thesis by blast
qed

lemma irq_steps_one_core:
  assumes "(irq_step E)\<^sup>*\<^sup>* s t" and "one_core s" and "tables_disjoint s"
  shows "one_core t \<and> tables_disjoint t"
proof -
  have "\<exists>p. one_table s p" using assms(2,3) by (simp flip: one_core_disjoint_iff)
  with assms(1) have "\<exists>q. one_table t q"
    by (induction rule: rtranclp_induct) (auto dest: irq_step_one_core)
  then show ?thesis by (simp only: one_core_disjoint_iff)
qed

section \<open>A concrete machine\<close>

text \<open>Two cores with affinities 0 and 1, a console and a GIC that accept every call, and a pending
  interrupt: the fixture of the witnesses below.\<close>

definition ex_node :: fdt_node where
  "ex_node = Fdt_node ''/'' None (Inr None) (Inr None) (\<lambda>_. None) []"

definition ex_fdt :: fdt where
  "ex_fdt = \<lparr>fdt_root = ex_node, fdt_memory_reg = Inr (Inr None),
     fdt_cpus = Inr [\<lparr>cpu_ids = Inr [Inr 0]\<rparr>, \<lparr>cpu_ids = Inr [Inr 1]\<rparr>],
     fdt_find_node = (\<lambda>_. None), fdt_find_compatible = (\<lambda>_. [])\<rparr>"

definition ex_irq_env :: "u64 \<Rightarrow> irq_env" where
  "ex_irq_env core = \<lparr>write_reply = (\<lambda>_ _. Inr ()),
     read_ready_reply = (\<lambda>_. Inr True), read_reply = (\<lambda>_ _. Inr [10]), mpidr_el1 = core, currentel = 1, esr_el1 = 0,
     esr_el2 = 0, far_el1 = 0, far_el2 = 0, hcr_el2 = (\<lambda>_. 0), HcrEl2_IMO = 16, MpidrEl1_U = 0x40000000, MpidrEl1_MT = 0x1000000, version_reply = (\<lambda>_ _. Inr 0),
     affinity_reply = (\<lambda>_ _ _ _. Inr Aff_off), cpu_on_reply = (\<lambda>_ _ _ _. Inr ()),
     cpu_off_reply = (\<lambda>_ _. None), system_off_reply = (\<lambda>_ _. None),
     ack_reply = (\<lambda>_. Some (Sgi 0)), gic_reply = (\<lambda>_ _. Inr ()), SGI_COUNT = 16,
     sizeof_Gicd = 65536, sizeof_GicrSgi = 131072\<rparr>"

definition ex_irq_state :: "nat irq_state" where
  "ex_irq_state = \<lparr>trace = [], held = [], masked = False, console_set = True, logger = Some Debug, FDT = Some ex_fdt,
     shared_irq_handlers = Map.empty, private_irq_handlers = None, private_borrowed = False,
     gic_set = False\<rparr>"

lemma ex_index:
  "current_cpu_index_in (ex_irq_env 0) (Some ex_fdt) = Inr 0"
  "current_cpu_index_in (ex_irq_env 1) (Some ex_fdt) = Inr 1"
  by (simp_all add: current_cpu_index_in_def mpidr_to_cpu_index_def fdt_cpu_nodes_def ex_fdt_def
      cpu_id_def mpidr_affinity_def MPIDR_AFFINITY_MASK_def ex_irq_env_def)

lemma ex_core_at:
  "core_at (ex_irq_env 0) ex_irq_state [Map.empty, Map.empty] 0"
  "core_at (ex_irq_env 1) ex_irq_state [Map.empty, Map.empty] 1"
  using ex_index
  by (simp_all add: core_at_def private_table_def ex_irq_state_def cpu_count_in_def fdt_cpu_nodes_def
      ex_fdt_def numeral_2_eq_2)

lemma ex_irq_ready:
  "irq_ready (ex_irq_env 0) ex_irq_state" "irq_ready (ex_irq_env 1) ex_irq_state"
  using ex_core_at
  by (auto simp: irq_ready_def ex_irq_state_def logs_def less_eq_level_def)

lemma ex_my_private:
  "my_private (ex_irq_env 0) ex_irq_state = Map.empty"
  "my_private (ex_irq_env 1) ex_irq_state = Map.empty"
  using ex_core_at by (simp_all add: my_private_core_at)

lemma ex_env_core: "(ex_irq_env c)\<lparr>mpidr_el1 := d\<rparr> = ex_irq_env d"
  by (simp add: ex_irq_env_def)

section \<open>Properties of the registry\<close>

text \<open>\<^verbatim>\<open>set_shared_irq_handler\<close> returns the previous shared handler and replaces that
  entry only, unless the running core has a private handler for the interrupt: then it panics and
  both tables stay as they were.\<close>

lemma set_shared_irq_handler_spec:
  assumes "irq_ready E s"
  shows "case my_private E s k of
      None \<Rightarrow> \<exists>t. set_shared_irq_handler E k h s = (Inr (shared_irq_handlers s k), t) \<and>
        shared_irq_handlers t = (shared_irq_handlers s)(k \<mapsto> h) \<and> my_private E t = my_private E s \<and>
        held t = held s \<and> masked t = masked s
    | Some _ \<Rightarrow> \<exists>msg t. set_shared_irq_handler E k h s = (Inl (Panic (Assert_failed msg)), t) \<and>
        shared_irq_handlers t = shared_irq_handlers s \<and> my_private E t = my_private E s"
proof -
  obtain tables i where at: "core_at E s tables i" using assms by (rule irq_readyE)
  let ?m = "set_shared_irq_handler E k h"
  note run = set_shared_run [OF assms at, of k h]
  show ?thesis
  proof (cases "my_private E s k")
    case None
    then have "wpre ?m (\<lambda>r t. r = shared_irq_handlers s k \<and>
        shared_irq_handlers t = (shared_irq_handlers s)(k \<mapsto> h) \<and> my_private E t = my_private E s \<and>
        held t = held s \<and> masked t = masked s) (\<lambda>_ _. False) s"
      by (simp add: run my_private_core_at [OF at] my_private_cong [OF at])
    with None show ?thesis by (auto simp: wpre_returned)
  next
    case (Some h')
    then have "wpre ?m (\<lambda>_ _. False) (\<lambda>e t. (\<exists>msg. e = Panic (Assert_failed msg)) \<and>
        shared_irq_handlers t = shared_irq_handlers s \<and> my_private E t = my_private E s) s"
      by (simp add: run my_private_core_at [OF at] my_private_cong [OF at])
    with Some show ?thesis by (auto simp: wpre_aborted)
  qed
qed

lemma set_shared_irq_handler_ex:
  "\<exists>t. set_shared_irq_handler (ex_irq_env 0) (Spi 1) 7 ex_irq_state = (Inr None, t) \<and>
     shared_irq_handlers t = [Spi 1 \<mapsto> 7]"
  using set_shared_irq_handler_spec [OF ex_irq_ready(1), of "Spi 1" 7]
  by (simp add: ex_my_private) (auto simp: ex_irq_state_def)

text \<open>C16: An acknowledged interrupt is dispatched to the private handler of the running core if
  there is one, else to the shared handler, and otherwise the program panics. The handler runs with
  interrupts masked, in a state that is the one the interrupt came in but for the recorded
  acknowledgement, the mask, the borrow of the private table or the lock of the shared table, and the
  private tables having been created; when the handler returns, what the dispatch took is given back.
  Assumed: the tables are ready to use (\<^verbatim>\<open>irq_ready\<close>): the device tree has the running core, the lock of
  the shared table is free, the private table is not borrowed, and trace messages are off.\<close>

theorem handle_irq_dispatch:
  assumes ready: "irq_ready E s" and ack: "ack_reply E (trace s) = Some k"
  shows "\<exists>tables. private_table s = Inr tables \<and>
    (let t = s\<lparr>trace := trace s @ [Gic Gicc_acknowledge], masked := True, private_irq_handlers := Some tables\<rparr> in
     handle_irq E run s =
       (case my_private E s k of
          Some h \<Rightarrow>
            (case run h k (t\<lparr>private_borrowed := True\<rparr>) of
               (Inl e, u) \<Rightarrow> (Inl e, u)
             | (Inr _, u) \<Rightarrow> (Inr (), u\<lparr>private_borrowed := False, masked := masked s\<rparr>))
        | None \<Rightarrow>
            (case shared_irq_handlers s k of
               Some h \<Rightarrow>
                 (case run h k (t\<lparr>held := SHARED_IRQ_HANDLERS_lock # held s\<rparr>) of
                    (Inl e, u) \<Rightarrow> (Inl e, u)
                  | (Inr _, u) \<Rightarrow> (Inr (), u\<lparr>held := remove1 SHARED_IRQ_HANDLERS_lock (held u),
                      masked := masked s\<rparr>))
             | None \<Rightarrow> (Inl (Panic (Explicit ''Unexpected IRQ {:?} with no handler'')), t))))"
proof -
  obtain tables i where at: "core_at E s tables i" using ready by (rule irq_readyE)
  then have "private_table s = Inr tables" by (simp add: core_at_def)
  with my_private_core_at [OF at] handle_irq_eq [OF ready at ack, of run] show ?thesis
    by (intro exI [of _ tables]) (simp add: Let_def)
qed

theorem handle_irq_dispatch_witness:
  "handle_irq (ex_irq_env 0) (\<lambda>h _. emit (Cpu (Write_hcr_el2 (of_nat h))))
     (ex_irq_state\<lparr>shared_irq_handlers := [Sgi 0 \<mapsto> 7]\<rparr>) =
     (Inr (), ex_irq_state\<lparr>shared_irq_handlers := [Sgi 0 \<mapsto> 7],
        private_irq_handlers := Some [Map.empty, Map.empty],
        trace := [Gic Gicc_acknowledge, Cpu (Write_hcr_el2 7)]\<rparr>)"
proof -
  let ?s = "ex_irq_state\<lparr>shared_irq_handlers := [Sgi 0 \<mapsto> 7]\<rparr>"
  have at: "core_at (ex_irq_env 0) ?s [Map.empty, Map.empty] 0"
    using ex_core_at(1) by (simp add: core_at_def private_table_def)
  with ex_irq_ready(1) have ready: "irq_ready (ex_irq_env 0) ?s" by (auto simp: irq_ready_def)
  have ack: "ack_reply (ex_irq_env 0) (trace ?s) = Some (Sgi 0)" by (simp add: ex_irq_env_def)
  have p: "private_table ?s = Inr [Map.empty, Map.empty]" using at by (simp add: core_at_def)
  from handle_irq_dispatch [OF ready ack, of "\<lambda>h _. emit (Cpu (Write_hcr_el2 (of_nat h)))"] p show ?thesis
    by (simp add: my_private_core_at [OF at] Let_def emit_run) (simp add: ex_irq_state_def)
qed

text \<open>C23: On a machine with one core, no sequence of registrations and removals leaves an interrupt
  with both a shared and a private handler: the check each registration makes is enough.\<close>

theorem one_core_tables_disjoint:
  assumes "(irq_step E)\<^sup>*\<^sup>* s t" and "one_core s" and "tables_disjoint s"
  shows "tables_disjoint t"
  using irq_steps_one_core [OF assms] by simp

definition ex_one_state :: "nat irq_state" where
  "ex_one_state = ex_irq_state\<lparr>FDT := Some (ex_fdt\<lparr>fdt_cpus := Inr [\<lparr>cpu_ids = Inr [Inr 0]\<rparr>]\<rparr>)\<rparr>"

lemma ex_one_table: "one_table ex_one_state Map.empty"
  by (simp add: one_table_def private_table_def ex_one_state_def ex_irq_state_def cpu_count_in_def
      fdt_cpu_nodes_def)

lemma ex_one_core_at: "core_at (ex_irq_env 0) ex_one_state [Map.empty] 0"
  using ex_one_table
  by (simp add: core_at_def one_table_def)
    (simp add: ex_one_state_def ex_irq_state_def current_cpu_index_in_def mpidr_to_cpu_index_def
      fdt_cpu_nodes_def cpu_id_def mpidr_affinity_def MPIDR_AFFINITY_MASK_def ex_irq_env_def)

lemma ex_one_ready: "irq_ready (ex_irq_env 0) ex_one_state"
  using ex_one_core_at
  by (auto simp: irq_ready_def ex_one_state_def ex_irq_state_def logs_def less_eq_level_def)

theorem one_core_tables_disjoint_witness:
  "\<exists>t. (irq_step (ex_irq_env 0))\<^sup>*\<^sup>* ex_one_state t \<and> shared_irq_handlers t (Spi 1) = Some 7 \<and>
     tables_disjoint t"
proof -
  obtain r t where run: "set_shared_irq_handler (ex_irq_env 0) (Spi 1) 7 ex_one_state = (Inr r, t)"
    and tab: "shared_irq_handlers t (Spi 1) = Some 7"
    using shr.ins_allowed [OF ex_one_ready, of "Spi 1" 7] my_private_core_at [OF ex_one_core_at]
    by (auto simp: wpre_returned)
  have "irq_step (ex_irq_env 0) ex_one_state t"
    using run by (intro step_set_shared [where m = 0]) (simp add: ex_env_core)
  moreover have "one_core ex_one_state" "tables_disjoint ex_one_state"
    using ex_one_table one_core_disjoint_iff by blast+
  ultimately show ?thesis using one_core_tables_disjoint tab by blast
qed

text \<open>C24: With two cores the check is not enough: after core 1 has registered a private handler for
  an interrupt, core 0 can register a shared handler for the same interrupt, because the check looks
  at the private table of the calling core only. The two tables then disagree about the interrupt on
  core 1.\<close>

theorem two_cores_tables_overlap:
  "\<exists>t. (irq_step (ex_irq_env 0))\<^sup>*\<^sup>* ex_irq_state t \<and> tables_disjoint ex_irq_state \<and>
     my_private (ex_irq_env 1) t (Sgi 0) = Some 1 \<and> shared_irq_handlers t (Sgi 0) = Some 2 \<and>
     \<not> tables_disjoint t"
proof -
  let ?s1 = "ex_irq_state\<lparr>private_irq_handlers := Some [Map.empty, [Sgi 0 \<mapsto> 1]]\<rparr>"
  let ?s2 = "?s1\<lparr>shared_irq_handlers := [Sgi 0 \<mapsto> 2]\<rparr>"
  have sh: "shared_irq_handlers ex_irq_state = Map.empty" by (simp add: ex_irq_state_def)
  have 1: "set_private_irq_handler (ex_irq_env 1) (Sgi 0) 1 ex_irq_state = (Inr None, ?s1)"
    by (rule wpre_eqI, subst set_private_run [OF ex_irq_ready(2) ex_core_at(2)]) (simp add: sh)
  have at: "core_at (ex_irq_env 0) ?s1 [Map.empty, [Sgi 0 \<mapsto> 1]] 0"
    by (rule core_at_cong [OF ex_core_at(1)]) simp_all
  have ready: "irq_ready (ex_irq_env 0) ?s1"
    using at ex_irq_ready(1) by (auto simp: irq_ready_def)
  have 2: "set_shared_irq_handler (ex_irq_env 0) (Sgi 0) 2 ?s1 = (Inr None, ?s2)"
    by (rule wpre_eqI, subst set_shared_run [OF ready at]) (simp add: sh)
  have "irq_step (ex_irq_env 0) ex_irq_state ?s1"
    using 1 by (intro step_set_private [where m = 1]) (simp add: ex_env_core)
  moreover have "irq_step (ex_irq_env 0) ?s1 ?s2"
    using 2 by (intro step_set_shared [where m = 0]) (simp add: ex_env_core)
  ultimately have "(irq_step (ex_irq_env 0))\<^sup>*\<^sup>* ex_irq_state ?s2" by simp
  moreover have "tables_disjoint ex_irq_state" by (simp add: tables_disjoint_def sh)
  moreover have "my_private (ex_irq_env 1) ?s2 = [Sgi 0 \<mapsto> 1]"
    by (simp add: my_private_cong [OF ex_core_at(2)])
  moreover have "\<not> tables_disjoint ?s2" by (auto simp: tables_disjoint_def private_table_Some)
  ultimately show ?thesis by (intro exI [of _ ?s2]) simp
qed

end
