(* ===== verification/Pagetable.thy ===== *)
theory Pagetable
  imports Interrupts
begin

text \<open>
  pagetable.rs: the attributes of the mappings, the identity translation the page table crate calls
  back into, and the identity map at EL1 or EL2.

  The page table itself belongs to a crate. What is in it after a sequence of calls is a parameter
  \<open>translate\<close> of the properties, a function of the trace; \<open>mapping_law\<close> states what the crate
  documents about \<^verbatim>\<open>map_range\<close>.
\<close>

section \<open>Environment and state\<close>

datatype map_error = Map_error

text \<open>\<^verbatim>\<open>MemoryRegion::new\<close> can panic, when rounding up to a page overflows. The attribute bits are constants of
  the crate.\<close>

record pt_env = irq_env +
  MemoryRegion_new :: "usize \<Rightarrow> usize \<Rightarrow> memory_region res"
  map_range_reply :: "event list \<Rightarrow> pt_event \<Rightarrow> map_error + unit"
  mapping_size :: "nat \<Rightarrow> usize"
  mapping_active :: "event list \<Rightarrow> nat \<Rightarrow> bool"
  El1_VALID :: u64
  El1_ATTRIBUTE_INDEX_0 :: u64
  El1_ATTRIBUTE_INDEX_1 :: u64
  El1_INNER_SHAREABLE :: u64
  El1_ACCESSED :: u64
  El1_NON_GLOBAL :: u64
  El1_UXN :: u64
  El23_VALID :: u64
  El23_ATTRIBUTE_INDEX_0 :: u64
  El23_ATTRIBUTE_INDEX_1 :: u64
  El23_INNER_SHAREABLE :: u64
  El23_ACCESSED :: u64
  El23_NON_GLOBAL :: u64
  El23_XN :: u64

definition ASID :: nat where
  "ASID = 0"

definition ROOT_LEVEL :: nat where
  "ROOT_LEVEL = 1"

section \<open>Attributes\<close>

definition EL1_DEVICE_ATTRIBUTES :: "'e pt_env_scheme \<Rightarrow> u64" where
  "EL1_DEVICE_ATTRIBUTES E =
     El1_VALID E OR El1_ATTRIBUTE_INDEX_0 E OR El1_ACCESSED E OR El1_UXN E"

definition EL1_MEMORY_ATTRIBUTES :: "'e pt_env_scheme \<Rightarrow> u64" where
  "EL1_MEMORY_ATTRIBUTES E =
     El1_VALID E OR El1_ATTRIBUTE_INDEX_1 E OR El1_INNER_SHAREABLE E OR El1_ACCESSED E OR
     El1_NON_GLOBAL E"

definition EL2_DEVICE_ATTRIBUTES :: "'e pt_env_scheme \<Rightarrow> u64" where
  "EL2_DEVICE_ATTRIBUTES E =
     El23_VALID E OR El23_ATTRIBUTE_INDEX_0 E OR El23_ACCESSED E OR El23_XN E"

definition EL2_MEMORY_ATTRIBUTES :: "'e pt_env_scheme \<Rightarrow> u64" where
  "EL2_MEMORY_ATTRIBUTES E =
     El23_VALID E OR El23_ATTRIBUTE_INDEX_1 E OR El23_INNER_SHAREABLE E OR El23_ACCESSED E OR
     El23_NON_GLOBAL E"

section \<open>The identity translation\<close>

text \<open>\<^verbatim>\<open>IdTranslation\<close> holds a page allocator, a dependency: \<open>'heap\<close> with an allocation
  and a deallocation operation. \<open>size\<close> and \<open>align\<close> are those of \<^verbatim>\<open>PageTable<A>\<close>; memory
  maps addresses to bytes.\<close>

record 'heap heap_ops =
  heap_alloc :: "usize \<Rightarrow> usize \<Rightarrow> 'heap \<Rightarrow> (u64 \<times> 'heap) option"
  heap_dealloc :: "u64 \<Rightarrow> usize \<Rightarrow> usize \<Rightarrow> 'heap \<Rightarrow> 'heap"
  PageTable_size :: usize
  PageTable_align :: usize

record 'heap id_translation =
  page_allocator :: 'heap

definition IdTranslation_new :: "'heap \<Rightarrow> 'heap id_translation" where
  "IdTranslation_new h = \<lparr>page_allocator = h\<rparr>"

definition virtual_to_physical :: "u64 \<Rightarrow> u64" where
  "virtual_to_physical va = va"

text \<open>\<^verbatim>\<open>ptr::write_bytes(pointer, 0, size)\<close>.\<close>

definition write_zeros :: "u64 \<Rightarrow> usize \<Rightarrow> (u64 \<Rightarrow> u8) \<Rightarrow> (u64 \<Rightarrow> u8)" where
  "write_zeros p n mem a = (if unat p \<le> unat a \<and> unat a < unat p + unat n then 0 else mem a)"

definition allocate_table ::
  "'heap heap_ops \<Rightarrow> 'heap id_translation \<Rightarrow> (u64 \<Rightarrow> u8) \<Rightarrow>
   ((u64 \<times> u64) \<times> 'heap id_translation \<times> (u64 \<Rightarrow> u8)) res" where
  "allocate_table ops t mem =
     rbind (expect_opt ''Failed to allocate page for pagetable''
       (heap_alloc ops (PageTable_size ops) (PageTable_align ops) (page_allocator t))) (\<lambda>(pointer, heap).
     let mem = write_zeros pointer (PageTable_size ops) mem; table = pointer
     in Inr ((table, table), t\<lparr>page_allocator := heap\<rparr>, mem))"

definition deallocate_table :: "'heap heap_ops \<Rightarrow> u64 \<Rightarrow> 'heap id_translation \<Rightarrow> 'heap id_translation" where
  "deallocate_table ops table t =
     t\<lparr>page_allocator :=
       heap_dealloc ops table (PageTable_size ops) (PageTable_align ops) (page_allocator t)\<rparr>"

definition physical_to_virtual :: "u64 \<Rightarrow> u64 res" where
  "physical_to_virtual pa =
     (if pa = 0 then Inl (Panic (Expect ''Got physical address 0 for pagetable'')) else Inr pa)"

section \<open>The identity map\<close>

datatype idmap = IdMap_El1 | IdMap_El2

record 'h pt_state = "'h irq_state" +
  PAGETABLE :: "idmap option"

text \<open>\<^verbatim>\<open>IdMap::new\<close>.\<close>

definition idmap_new :: "'e pt_env_scheme \<Rightarrow> ('s io_state_scheme, idmap) io" where
  "idmap_new E =
     (if current_el E = 2 then
        bind_io (emit (Pt (Mapping_new 2 None ROOT_LEVEL))) (\<lambda>_. return_io IdMap_El2)
      else
        bind_io (emit (Pt (Mapping_new 1 (Some ASID) ROOT_LEVEL))) (\<lambda>_. return_io IdMap_El1))"

fun idmap_level :: "idmap \<Rightarrow> nat" where
  "idmap_level IdMap_El1 = 1"
| "idmap_level IdMap_El2 = 2"

text \<open>\<^verbatim>\<open>IdMap::size\<close>.\<close>

fun idmap_size :: "'e pt_env_scheme \<Rightarrow> idmap \<Rightarrow> usize" where
  "idmap_size E IdMap_El1 = mapping_size E 1"
| "idmap_size E IdMap_El2 = mapping_size E 2"

definition map_range ::
  "'e pt_env_scheme \<Rightarrow> nat \<Rightarrow> memory_region \<Rightarrow> u64 \<Rightarrow> u64 \<Rightarrow> ('s io_state_scheme, map_error + unit) io" where
  "map_range E el region pa attrs =
     call (\<lambda>h. map_range_reply E h (Map_range el region pa attrs)) (Pt (Map_range el region pa attrs))"

fun map_memory ::
  "'e pt_env_scheme \<Rightarrow> idmap \<Rightarrow> memory_region \<Rightarrow> ('s io_state_scheme, map_error + unit) io" where
  "map_memory E IdMap_El1 region =
     (let pa = virtual_to_physical (mr_start region) in map_range E 1 region pa (EL1_MEMORY_ATTRIBUTES E))"
| "map_memory E IdMap_El2 region =
     (let pa = virtual_to_physical (mr_start region) in map_range E 2 region pa (EL2_MEMORY_ATTRIBUTES E))"

fun map_device ::
  "'e pt_env_scheme \<Rightarrow> idmap \<Rightarrow> memory_region \<Rightarrow> ('s io_state_scheme, map_error + unit) io" where
  "map_device E IdMap_El1 region =
     (let pa = virtual_to_physical (mr_start region) in map_range E 1 region pa (EL1_DEVICE_ATTRIBUTES E))"
| "map_device E IdMap_El2 region =
     (let pa = virtual_to_physical (mr_start region) in map_range E 2 region pa (EL2_DEVICE_ATTRIBUTES E))"

fun activate :: "idmap \<Rightarrow> ('s io_state_scheme, unit) io" where
  "activate IdMap_El1 = emit (Pt (Activate 1))"
| "activate IdMap_El2 = emit (Pt (Activate 2))"

definition activate_secondary :: "'e pt_env_scheme \<Rightarrow> idmap \<Rightarrow> ('s io_state_scheme, unit) io" where
  "activate_secondary E m =
     bind_io (gets_io (\<lambda>s. mapping_active E (trace s) (idmap_level m))) (\<lambda>active.
     bind_io (lift_io (require (Assert_failed ''mapping.active()'') active)) (\<lambda>_.
     activate m))"

text \<open>\<^verbatim>\<open>PAGETABLE.call_once\<close>.\<close>

definition pagetable_call_once :: "idmap \<Rightarrow> (('h, 's) pt_state_scheme, unit) io" where
  "pagetable_call_once m =
     modify_io (\<lambda>s. case PAGETABLE s of None \<Rightarrow> s\<lparr>PAGETABLE := Some m\<rparr> | Some _ \<Rightarrow> s)"

section \<open>What the crate documents\<close>

definition in_region :: "u64 \<Rightarrow> memory_region \<Rightarrow> bool" where
  "in_region v r \<longleftrightarrow> mr_start r \<le> v \<and> v < mr_end r"

text \<open>A successful \<^verbatim>\<open>map_range\<close> maps the region linearly from the physical start and leaves the
  other addresses as they were; no other call changes a translation.\<close>

definition mapping_law ::
  "'e pt_env_scheme \<Rightarrow> (event list \<Rightarrow> nat \<Rightarrow> u64 \<Rightarrow> (u64 \<times> u64) option) \<Rightarrow> bool" where
  "mapping_law E translate \<longleftrightarrow>
     (\<forall>h ev el v. (\<forall>el' r pa a. ev \<noteq> Pt (Map_range el' r pa a)) \<longrightarrow>
        translate (h @ [ev]) el v = translate h el v) \<and>
     (\<forall>h el r pa a v. map_range_reply E h (Map_range el r pa a) = Inr () \<longrightarrow>
        translate (h @ [Pt (Map_range el r pa a)]) el v =
          (if in_region v r then Some (pa + (v - mr_start r), a) else translate h el v))"

text \<open>\<^verbatim>\<open>MemoryRegion::new\<close>, where it returns, rounds outwards to page boundaries.\<close>

definition region_law :: "'e pt_env_scheme \<Rightarrow> bool" where
  "region_law E \<longleftrightarrow>
     (\<forall>a b r v. MemoryRegion_new E a b = Inr r \<longrightarrow> a \<le> v \<longrightarrow> v < b \<longrightarrow> in_region v r)"

text \<open>The addresses of the region from \<open>a\<close> to \<open>b\<close>.\<close>

definition region_covers :: "'e pt_env_scheme \<Rightarrow> u64 \<Rightarrow> u64 \<Rightarrow> u64 \<Rightarrow> bool" where
  "region_covers E a b v \<longleftrightarrow> (case MemoryRegion_new E a b of Inl _ \<Rightarrow> False | Inr r \<Rightarrow> in_region v r)"

section \<open>Identity mapping as a contract\<close>

text \<open>What the clients of the identity map rely on: mapping a region that succeeds maps exactly the
  addresses of the region to themselves, with one set of attributes.\<close>

locale id_mapper =
  fixes map_op :: "memory_region \<Rightarrow> ('s, unit) io"
    and lookup :: "'s \<Rightarrow> u64 \<Rightarrow> (u64 \<times> u64) option"
    and attrs :: u64
    and ok :: "'s \<Rightarrow> bool"
  assumes map_op: "ok s \<Longrightarrow>
    wpre (map_op r)
      (\<lambda>_ t. ok t \<and> lookup t = (\<lambda>v. if in_region v r then Some (v, attrs) else lookup s v))
      (\<lambda>_ _. True) s"
begin

text \<open>A loop that maps one region per element, with any other effects that leave the table alone.\<close>

lemma map_all:
  assumes "ok s"
    and step: "\<And>x t. x \<in> set xs \<Longrightarrow> ok t \<Longrightarrow>
      wpre (f x) (\<lambda>_ u. ok u \<and> lookup u = (\<lambda>v. if P x v then Some (v, attrs) else lookup t v))
        (\<lambda>_ _. True) t"
  shows "wpre (for_each xs f)
    (\<lambda>_ t. ok t \<and> lookup t = (\<lambda>v. if \<exists>x \<in> set xs. P x v then Some (v, attrs) else lookup s v))
    (\<lambda>_ _. True) s"
  using assms
proof (induction xs arbitrary: s)
  case Nil
  then show ?case by (simp add: wp)
next
  case (Cons x xs)
  have "wpre (f x) (\<lambda>_ u. ok u \<and> lookup u = (\<lambda>v. if P x v then Some (v, attrs) else lookup s v))
      (\<lambda>_ _. True) s"
    using Cons.prems by simp
  moreover have "wpre (for_each xs f)
      (\<lambda>_ t. ok t \<and> lookup t = (\<lambda>v. if \<exists>y \<in> set (x # xs). P y v then Some (v, attrs) else lookup s v))
      (\<lambda>_ _. True) u"
    if "ok u" "lookup u = (\<lambda>v. if P x v then Some (v, attrs) else lookup s v)" for u
  proof -
    have "wpre (for_each xs f)
        (\<lambda>_ t. ok t \<and> lookup t = (\<lambda>v. if \<exists>y \<in> set xs. P y v then Some (v, attrs) else lookup u v))
        (\<lambda>_ _. True) u"
      using that Cons.prems(2) by (intro Cons.IH) auto
    then show ?thesis by (rule wpre_mono) (use that in auto)
  qed
  ultimately show ?case by (auto simp: wp elim!: wpre_mono)
qed

text \<open>Whatever was the identity stays the identity.\<close>

lemma map_op_identity:
  assumes "ok s" and "\<And>v pa a. lookup s v = Some (pa, a) \<Longrightarrow> pa = v"
  shows "wpre (map_op r) (\<lambda>_ t. \<forall>v pa a. lookup t v = Some (pa, a) \<longrightarrow> pa = v) (\<lambda>_ _. True) s"
  using map_op [OF assms(1)] by (rule wpre_mono) (use assms(2) in \<open>auto split: if_splits\<close>)

end

text \<open>\<^verbatim>\<open>idmap.map_device(...).unwrap()\<close>, \<^verbatim>\<open>idmap.map_memory(...).unwrap()\<close>.\<close>

definition map_device_unwrap ::
  "'e pt_env_scheme \<Rightarrow> idmap \<Rightarrow> memory_region \<Rightarrow> ('s io_state_scheme, unit) io" where
  "map_device_unwrap E m r = bind_io (map_device E m r) (\<lambda>x. lift_io (unwrap x))"

definition map_memory_unwrap ::
  "'e pt_env_scheme \<Rightarrow> idmap \<Rightarrow> memory_region \<Rightarrow> ('s io_state_scheme, unit) io" where
  "map_memory_unwrap E m r = bind_io (map_memory E m r) (\<lambda>x. lift_io (unwrap x))"

fun device_attributes :: "'e pt_env_scheme \<Rightarrow> idmap \<Rightarrow> u64" where
  "device_attributes E IdMap_El1 = EL1_DEVICE_ATTRIBUTES E"
| "device_attributes E IdMap_El2 = EL2_DEVICE_ATTRIBUTES E"

fun memory_attributes :: "'e pt_env_scheme \<Rightarrow> idmap \<Rightarrow> u64" where
  "memory_attributes E IdMap_El1 = EL1_MEMORY_ATTRIBUTES E"
| "memory_attributes E IdMap_El2 = EL2_MEMORY_ATTRIBUTES E"

lemma map_device_eq:
  "map_device E m r = map_range E (idmap_level m) r (mr_start r) (device_attributes E m)"
  by (cases m) (simp_all add: virtual_to_physical_def)

lemma map_memory_eq:
  "map_memory E m r = map_range E (idmap_level m) r (mr_start r) (memory_attributes E m)"
  by (cases m) (simp_all add: virtual_to_physical_def)

lemma wpre_map_range [wp]:
  "wpre (map_range E el r pa a) Q Er =
     (\<lambda>s. Q (map_range_reply E (trace s) (Map_range el r pa a))
       (s\<lparr>trace := trace s @ [Pt (Map_range el r pa a)]\<rparr>))"
  by (simp add: map_range_def wp)

lemma mapping_law_map:
  assumes "mapping_law E translate" and "map_range_reply E h (Map_range el r (mr_start r) a) = Inr ()"
  shows "translate (h @ [Pt (Map_range el r (mr_start r) a)]) el =
    (\<lambda>v. if in_region v r then Some (v, a) else translate h el v)"
  using assms by (auto simp: mapping_law_def)

lemma mapping_law_con [simp]:
  assumes "mapping_law E translate"
  shows "translate (h @ [Con ev]) = translate h"
  using assms by (auto simp: mapping_law_def fun_eq_iff)

interpretation dev: id_mapper
  "map_device_unwrap E m" "\<lambda>s. translate (trace s) (idmap_level m)" "device_attributes E m"
  "\<lambda>_. mapping_law E translate"
  for E :: "'e pt_env_scheme" and m translate
  by unfold_locales
    (auto simp: map_device_unwrap_def map_device_eq wp mapping_law_map split: sum.split)

interpretation mem: id_mapper
  "map_memory_unwrap E m" "\<lambda>s. translate (trace s) (idmap_level m)" "memory_attributes E m"
  "\<lambda>_. mapping_law E translate"
  for E :: "'e pt_env_scheme" and m translate
  by unfold_locales
    (auto simp: map_memory_unwrap_def map_memory_eq wp mapping_law_map split: sum.split)

text \<open>A table that satisfies the law: the last successful mapping of an address decides.\<close>

fun table_step ::
  "(nat \<Rightarrow> u64 \<Rightarrow> (u64 \<times> u64) option) \<Rightarrow> event \<Rightarrow> (nat \<Rightarrow> u64 \<Rightarrow> (u64 \<times> u64) option)" where
  "table_step tbl (Pt (Map_range el r pa a)) =
     (\<lambda>el' v. if el' = el \<and> in_region v r then Some (pa + (v - mr_start r), a) else tbl el' v)"
| "table_step tbl _ = tbl"

definition table_of :: "event list \<Rightarrow> nat \<Rightarrow> u64 \<Rightarrow> (u64 \<times> u64) option" where
  "table_of tr = foldl table_step (\<lambda>_ _. None) tr"

lemma table_of_law: "mapping_law E table_of"
proof -
  have "table_step tbl ev = tbl" if "\<forall>el' r pa a. ev \<noteq> Pt (Map_range el' r pa a)" for tbl ev
    using that by (cases "(tbl, ev)" rule: table_step.cases) auto
  then show ?thesis by (auto simp: mapping_law_def table_of_def)
qed

text \<open>An environment for examples: every call succeeds, the attribute bits are those of the architecture.\<close>

definition ex_pt_env :: pt_env where
  "ex_pt_env = \<lparr>write_reply = (\<lambda>_ _. Inr ()),
     read_ready_reply = (\<lambda>_. Inr True), read_reply = (\<lambda>_ _. Inr [10]), mpidr_el1 = 0, currentel = 1, esr_el1 = 0,
     esr_el2 = 0, far_el1 = 0, far_el2 = 0, hcr_el2 = (\<lambda>_. 0), HcrEl2_IMO = 16, MpidrEl1_U = 0x40000000, MpidrEl1_MT = 0x1000000, version_reply = (\<lambda>_ _. Inr 0),
     affinity_reply = (\<lambda>_ _ _ _. Inr Aff_off), cpu_on_reply = (\<lambda>_ _ _ _. Inr ()),
     cpu_off_reply = (\<lambda>_ _. None), system_off_reply = (\<lambda>_ _. None),
     ack_reply = (\<lambda>_. Some (Sgi 0)), gic_reply = (\<lambda>_ _. Inr ()), SGI_COUNT = 16,
     sizeof_Gicd = 65536, sizeof_GicrSgi = 131072,
     MemoryRegion_new = (\<lambda>a b. Inr \<lparr>mr_start = a, mr_end = b\<rparr>), map_range_reply = (\<lambda>_ _. Inr ()),
     mapping_size = (\<lambda>_. 0x8000000000), mapping_active = (\<lambda>_ _. True),
     El1_VALID = 1, El1_ATTRIBUTE_INDEX_0 = 0, El1_ATTRIBUTE_INDEX_1 = 4, El1_INNER_SHAREABLE = 0x300,
     El1_ACCESSED = 0x400, El1_NON_GLOBAL = 0x800, El1_UXN = 0x40000000000000,
     El23_VALID = 1, El23_ATTRIBUTE_INDEX_0 = 0, El23_ATTRIBUTE_INDEX_1 = 4, El23_INNER_SHAREABLE = 0x300,
     El23_ACCESSED = 0x400, El23_NON_GLOBAL = 0x800, El23_XN = 0x40000000000000\<rparr>"

end
