(* ===== verification/Platform.thy ===== *)
theory Platform
  imports Console Pagetable
begin

text \<open>
  platform.rs, platform/qemu.rs and platform/crosvm.rs: the two boards, each with its initial page
  table, its drivers and its set-up of the interrupt controller.
\<close>

section \<open>The program's interrupt handlers\<close>

text \<open>The three function values that are ever put into a handler table:
  \<^verbatim>\<open>Console::handle_irq\<close>, \<^verbatim>\<open>alarm::irq_handle\<close> and \<^verbatim>\<open>secondary_irq_handler\<close>.\<close>

datatype irq_handler = Console_handle_irq | Alarm_irq_handle | Secondary_irq_handler

type_synonym 's os_state = "(irq_handler, 's) pt_state_scheme"

section \<open>Platform parts\<close>

text \<open>The drivers, each known by the base address it was created for.\<close>

record platform_parts =
  part_console :: u64
  part_rtc :: u64

record platform =
  platform_parts :: "platform_parts option"

text \<open>\<^verbatim>\<open>Platform::parts\<close>, the same on both boards: \<^verbatim>\<open>Option::take\<close>.\<close>

definition parts :: "platform \<Rightarrow> platform_parts option \<times> platform" where
  "parts p = (platform_parts p, p\<lparr>platform_parts := None\<rparr>)"

section \<open>Initial page tables\<close>

text \<open>512 entries of 1 GiB each; an entry is the attributes and the output address.\<close>

definition qemu_initial_idmap :: "'e pt_env_scheme \<Rightarrow> u64 list" where
  "qemu_initial_idmap E =
     (let idmap = replicate 512 0;
          idmap = idmap[0 := EL1_DEVICE_ATTRIBUTES E];
          idmap = idmap[1 := EL1_MEMORY_ATTRIBUTES E OR 0x40000000];
          idmap = idmap[256 := EL1_DEVICE_ATTRIBUTES E OR 0x4000000000]
      in idmap)"

definition crosvm_initial_idmap :: "'e pt_env_scheme \<Rightarrow> u64 list" where
  "crosvm_initial_idmap E =
     (let idmap = replicate 512 0;
          idmap = idmap[0 := EL1_DEVICE_ATTRIBUTES E];
          idmap = idmap[1 := EL1_DEVICE_ATTRIBUTES E OR 0x40000000];
          idmap = idmap[2 := EL1_MEMORY_ATTRIBUTES E OR 0x80000000]
      in idmap)"

section \<open>QEMU\<close>

definition qemu_UART_BASE_ADDRESS :: u64 where
  "qemu_UART_BASE_ADDRESS = 0x9000000"

definition PL031_BASE_ADDRESS :: u64 where
  "PL031_BASE_ADDRESS = 0x9010000"

definition qemu_CONSOLE_IRQ :: intid where
  "qemu_CONSOLE_IRQ = Spi 1"

definition qemu_RTC_IRQ :: intid where
  "qemu_RTC_IRQ = Spi 2"

definition qemu_create :: "'e con_env_scheme \<Rightarrow> ('s io_state_scheme, platform) io" where
  "qemu_create E =
     bind_io (lift_io (non_null qemu_UART_BASE_ADDRESS)) (\<lambda>base.
     bind_io (emit (Con (Uart_new base))) (\<lambda>_.
     bind_io (emit (Con Uart_unmask_rxi)) (\<lambda>_.
     bind_io (emit (Rtc (Rtc_new PL031_BASE_ADDRESS))) (\<lambda>_.
     return_io \<lparr>platform_parts = Some \<lparr>part_console = base, part_rtc = PL031_BASE_ADDRESS\<rparr>\<rparr>))))"

text \<open>The body both boards share up to the trigger: \<^verbatim>\<open>setup_gic\<close>.\<close>

definition qemu_setup_gic :: "'e irq_env_scheme \<Rightarrow> ((irq_handler, 's) irq_state_scheme, unit) io" where
  "qemu_setup_gic E =
     bind_io (gic_call E (Gic_set_priority qemu_CONSOLE_IRQ None 0x10)) (\<lambda>_.
     bind_io (gic_call E (Gic_set_trigger qemu_CONSOLE_IRQ None Level_trigger)) (\<lambda>_.
     bind_io (gic_call E (Gic_enable qemu_CONSOLE_IRQ None True)) (\<lambda>_.
     bind_io (set_shared_irq_handler E qemu_CONSOLE_IRQ Console_handle_irq) (\<lambda>_.
     return_io ()))))"

section \<open>crosvm\<close>

definition crosvm_UART_BASE_ADDRESS :: u64 where
  "crosvm_UART_BASE_ADDRESS = 0x03f8"

definition PL030_BASE_ADDRESS :: u64 where
  "PL030_BASE_ADDRESS = 0x2000"

definition crosvm_CONSOLE_IRQ :: intid where
  "crosvm_CONSOLE_IRQ = Spi 0"

definition crosvm_RTC_IRQ :: intid where
  "crosvm_RTC_IRQ = Spi 1"

definition crosvm_create :: "'e con_env_scheme \<Rightarrow> ('s io_state_scheme, platform) io" where
  "crosvm_create E =
     bind_io (lift_io (non_null crosvm_UART_BASE_ADDRESS)) (\<lambda>base.
     bind_io (call (\<lambda>h. write_reply E h (Uart_new base)) (Con (Uart_new base))) (\<lambda>uart.
     bind_io (lift_io (unwrap uart)) (\<lambda>_.
     bind_io (call (\<lambda>h. write_reply E h Uart_init) (Con Uart_init)) (\<lambda>r.
     bind_io (lift_io (unwrap r)) (\<lambda>_.
     bind_io (emit (Rtc (Rtc_new PL030_BASE_ADDRESS))) (\<lambda>_.
     return_io \<lparr>platform_parts = Some \<lparr>part_console = base, part_rtc = PL030_BASE_ADDRESS\<rparr>\<rparr>))))))"

definition crosvm_setup_gic :: "'e irq_env_scheme \<Rightarrow> ((irq_handler, 's) irq_state_scheme, unit) io" where
  "crosvm_setup_gic E =
     bind_io (gic_call E (Gic_set_priority crosvm_CONSOLE_IRQ None 0x10)) (\<lambda>_.
     bind_io (gic_call E (Gic_set_trigger crosvm_CONSOLE_IRQ None Edge_trigger)) (\<lambda>_.
     bind_io (gic_call E (Gic_enable crosvm_CONSOLE_IRQ None True)) (\<lambda>_.
     bind_io (set_shared_irq_handler E crosvm_CONSOLE_IRQ Console_handle_irq) (\<lambda>_.
     return_io ()))))"

section \<open>The platform the program is built for\<close>

text \<open>\<^verbatim>\<open>PlatformImpl\<close>: the build picks one of the two implementations of the trait.\<close>

datatype board = Qemu | Crosvm

fun initial_idmap :: "'e pt_env_scheme \<Rightarrow> board \<Rightarrow> u64 list" where
  "initial_idmap E Qemu = qemu_initial_idmap E"
| "initial_idmap E Crosvm = crosvm_initial_idmap E"

fun RTC_IRQ :: "board \<Rightarrow> intid" where
  "RTC_IRQ Qemu = qemu_RTC_IRQ"
| "RTC_IRQ Crosvm = crosvm_RTC_IRQ"

fun CONSOLE_IRQ :: "board \<Rightarrow> intid" where
  "CONSOLE_IRQ Qemu = qemu_CONSOLE_IRQ"
| "CONSOLE_IRQ Crosvm = crosvm_CONSOLE_IRQ"

fun platform_create :: "'e con_env_scheme \<Rightarrow> board \<Rightarrow> ('s io_state_scheme, platform) io" where
  "platform_create E Qemu = qemu_create E"
| "platform_create E Crosvm = crosvm_create E"

fun setup_gic :: "'e irq_env_scheme \<Rightarrow> board \<Rightarrow> ((irq_handler, 's) irq_state_scheme, unit) io" where
  "setup_gic E Qemu = qemu_setup_gic E"
| "setup_gic E Crosvm = crosvm_setup_gic E"

fun uart_handle_irq :: "board \<Rightarrow> intid \<Rightarrow> ('s io_state_scheme, unit) io" where
  "uart_handle_irq Qemu = pl011_handle_irq"
| "uart_handle_irq Crosvm = uart16550_handle_irq"

section \<open>What the clients of a platform rely on\<close>

text \<open>The board's two interrupts differ, and its set-up of the interrupt controller registers the
  console's handler for the first, whatever was registered before, and touches no other entry. It
  panics only when the controller refuses a call.\<close>

locale platform_impl =
  fixes con_irq rtc_irq :: intid
    and hook :: "((irq_handler, 's) irq_state_scheme, unit) io"
    and ready :: "(irq_handler, 's) irq_state_scheme \<Rightarrow> bool"
    and own :: "(irq_handler, 's) irq_state_scheme \<Rightarrow> intid \<rightharpoonup> irq_handler"
  assumes irqs_differ: "con_irq \<noteq> rtc_irq"
    and hook_registers: "ready s \<Longrightarrow> own s con_irq = None \<Longrightarrow>
      wpre hook
        (\<lambda>_ t. shared_irq_handlers t = (shared_irq_handlers s)(con_irq \<mapsto> Console_handle_irq) \<and> ready t \<and>
           (\<forall>k. (own t k = None) = (own s k = None)))
        (\<lambda>e _. e = Panic Unwrap_err) s"
begin

text \<open>The alarm's handler can be registered next to the console's.\<close>

lemma hook_keeps_rtc:
  assumes "ready s" and "own s con_irq = None" and "hook s = (Inr u, t)"
  shows "shared_irq_handlers t con_irq = Some Console_handle_irq"
    and "shared_irq_handlers t rtc_irq = shared_irq_handlers s rtc_irq"
  using wpre_runs [OF hook_registers [OF assms(1,2)] assms(3)] irqs_differ by auto

end

lemma console_registered:
  assumes "irq_ready E s" and "my_private E s k = None"
  shows "wpre (bind_io (set_shared_irq_handler E k h) (\<lambda>_. return_io ()))
    (\<lambda>_ t. shared_irq_handlers t = (shared_irq_handlers s)(k \<mapsto> h) \<and> irq_ready E t \<and>
       (\<forall>j. (my_private E t j = None) = (my_private E s j = None)))
    (\<lambda>e _. e = Panic Unwrap_err) s"
  using shr.ins_allowed [OF assms, of h]
  by (auto simp: wp fun_eq_iff elim!: wpre_mono)

interpretation qemu: platform_impl qemu_CONSOLE_IRQ qemu_RTC_IRQ "qemu_setup_gic E" "irq_ready E" "my_private E"
  for E :: "'e irq_env_scheme"
proof
  show "qemu_CONSOLE_IRQ \<noteq> qemu_RTC_IRQ" by (simp add: qemu_CONSOLE_IRQ_def qemu_RTC_IRQ_def)
next
  fix s :: "(irq_handler, 's) irq_state_scheme"
  assume "irq_ready E s" and "my_private E s qemu_CONSOLE_IRQ = None"
  then show "wpre (qemu_setup_gic E)
      (\<lambda>_ t. shared_irq_handlers t = (shared_irq_handlers s)(qemu_CONSOLE_IRQ \<mapsto> Console_handle_irq) \<and>
         irq_ready E t \<and> (\<forall>k. (my_private E t k = None) = (my_private E s k = None)))
      (\<lambda>e _. e = Panic Unwrap_err) s"
    using console_registered [of E "s\<lparr>trace := _\<rparr>" qemu_CONSOLE_IRQ Console_handle_irq]
    by (auto simp: qemu_setup_gic_def wpre_bind [of "gic_call _ _"] wpre_gic_call split: sum.split)
qed

interpretation crosvm: platform_impl crosvm_CONSOLE_IRQ crosvm_RTC_IRQ "crosvm_setup_gic E" "irq_ready E"
  "my_private E"
  for E :: "'e irq_env_scheme"
proof
  show "crosvm_CONSOLE_IRQ \<noteq> crosvm_RTC_IRQ" by (simp add: crosvm_CONSOLE_IRQ_def crosvm_RTC_IRQ_def)
next
  fix s :: "(irq_handler, 's) irq_state_scheme"
  assume "irq_ready E s" and "my_private E s crosvm_CONSOLE_IRQ = None"
  then show "wpre (crosvm_setup_gic E)
      (\<lambda>_ t. shared_irq_handlers t = (shared_irq_handlers s)(crosvm_CONSOLE_IRQ \<mapsto> Console_handle_irq) \<and>
         irq_ready E t \<and> (\<forall>k. (my_private E t k = None) = (my_private E s k = None)))
      (\<lambda>e _. e = Panic Unwrap_err) s"
    using console_registered [of E "s\<lparr>trace := _\<rparr>" crosvm_CONSOLE_IRQ Console_handle_irq]
    by (auto simp: crosvm_setup_gic_def wpre_bind [of "gic_call _ _"] wpre_gic_call split: sum.split)
qed

section \<open>The initial page tables\<close>

text \<open>Output address of a 1 GiB block entry, and the attribute bits as the architecture places them: none
  in the address field.\<close>

definition ADDRESS_BITS :: u64 where
  "ADDRESS_BITS = 0xFFFFC0000000"

definition block_address :: "u64 \<Rightarrow> u64" where
  "block_address e = e AND ADDRESS_BITS"

definition block_attributes :: "u64 \<Rightarrow> u64" where
  "block_attributes e = e AND NOT ADDRESS_BITS"

definition attributes_law :: "'e pt_env_scheme \<Rightarrow> bool" where
  "attributes_law E \<longleftrightarrow>
     El1_VALID E AND ADDRESS_BITS = 0 \<and> El1_ATTRIBUTE_INDEX_0 E AND ADDRESS_BITS = 0 \<and>
     El1_ATTRIBUTE_INDEX_1 E AND ADDRESS_BITS = 0 \<and> El1_INNER_SHAREABLE E AND ADDRESS_BITS = 0 \<and>
     El1_ACCESSED E AND ADDRESS_BITS = 0 \<and> El1_NON_GLOBAL E AND ADDRESS_BITS = 0 \<and>
     El1_UXN E AND ADDRESS_BITS = 0"

lemma and_or_zero: "(x :: u64) AND m = 0 \<Longrightarrow> y AND m = 0 \<Longrightarrow> (x OR y) AND m = 0"
  by (simp add: bit.conj_disj_distrib2)

lemma EL1_attributes_bits:
  assumes "attributes_law E"
  shows "EL1_DEVICE_ATTRIBUTES E AND ADDRESS_BITS = 0" "EL1_MEMORY_ATTRIBUTES E AND ADDRESS_BITS = 0"
  using assms unfolding attributes_law_def EL1_DEVICE_ATTRIBUTES_def EL1_MEMORY_ATTRIBUTES_def
  by (intro and_or_zero; simp)+

lemma entry_split:
  assumes "a AND ADDRESS_BITS = 0" and "p AND ADDRESS_BITS = p"
  shows "block_address (a OR p) = p" "block_attributes (a OR p) = a"
proof -
  show "block_address (a OR p) = p"
    using assms by (simp add: block_address_def bit.conj_disj_distrib2)
  have "a AND NOT ADDRESS_BITS = a"
    using assms(1) by (auto simp: bit_eq_iff bit_simps)
  moreover have "p AND NOT ADDRESS_BITS = 0"
    using assms(2) by (auto simp: bit_eq_iff bit_simps)
  ultimately show "block_attributes (a OR p) = a"
    by (simp add: block_attributes_def bit.conj_disj_distrib2)
qed


lemma EL1_entries:
  assumes "attributes_law E"
  shows "block_address (EL1_DEVICE_ATTRIBUTES E) = 0" "block_attributes (EL1_DEVICE_ATTRIBUTES E) = EL1_DEVICE_ATTRIBUTES E"
    "block_address (EL1_DEVICE_ATTRIBUTES E OR 0x40000000) = 0x40000000"
    "block_attributes (EL1_DEVICE_ATTRIBUTES E OR 0x40000000) = EL1_DEVICE_ATTRIBUTES E"
    "block_address (EL1_DEVICE_ATTRIBUTES E OR 0x4000000000) = 0x4000000000"
    "block_attributes (EL1_DEVICE_ATTRIBUTES E OR 0x4000000000) = EL1_DEVICE_ATTRIBUTES E"
    "block_address (EL1_MEMORY_ATTRIBUTES E OR 0x40000000) = 0x40000000"
    "block_attributes (EL1_MEMORY_ATTRIBUTES E OR 0x40000000) = EL1_MEMORY_ATTRIBUTES E"
    "block_address (EL1_MEMORY_ATTRIBUTES E OR 0x80000000) = 0x80000000"
    "block_attributes (EL1_MEMORY_ATTRIBUTES E OR 0x80000000) = EL1_MEMORY_ATTRIBUTES E"
proof -
  note bits = EL1_attributes_bits [OF assms]
  have p: "(0 :: u64) AND ADDRESS_BITS = 0" "0x40000000 AND ADDRESS_BITS = 0x40000000"
    "0x80000000 AND ADDRESS_BITS = 0x80000000" "0x4000000000 AND ADDRESS_BITS = 0x4000000000"
    by (simp_all add: ADDRESS_BITS_def)
  show "block_address (EL1_DEVICE_ATTRIBUTES E) = 0" "block_attributes (EL1_DEVICE_ATTRIBUTES E) = EL1_DEVICE_ATTRIBUTES E"
    using entry_split [OF bits(1) p(1)] by simp_all
qed (intro entry_split EL1_attributes_bits [OF assms]; simp add: ADDRESS_BITS_def)+

lemma qemu_idmap_nth:
  "i < 512 \<Longrightarrow> qemu_initial_idmap E ! i =
     (if i = 0 then EL1_DEVICE_ATTRIBUTES E else if i = 1 then EL1_MEMORY_ATTRIBUTES E OR 0x40000000
      else if i = 256 then EL1_DEVICE_ATTRIBUTES E OR 0x4000000000 else 0)"
  by (simp add: qemu_initial_idmap_def nth_list_update)

lemma crosvm_idmap_nth:
  "i < 512 \<Longrightarrow> crosvm_initial_idmap E ! i =
     (if i = 0 then EL1_DEVICE_ATTRIBUTES E else if i = 1 then EL1_DEVICE_ATTRIBUTES E OR 0x40000000
      else if i = 2 then EL1_MEMORY_ATTRIBUTES E OR 0x80000000 else 0)"
  by (simp add: crosvm_initial_idmap_def nth_list_update)

lemma idmap_length: "length (qemu_initial_idmap E) = 512" "length (crosvm_initial_idmap E) = 512"
  by (simp_all add: qemu_initial_idmap_def crosvm_initial_idmap_def)

text \<open>The entry that translates an address, and how the boards use their addresses.\<close>

definition entry_of :: "'e pt_env_scheme \<Rightarrow> board \<Rightarrow> u64 \<Rightarrow> u64" where
  "entry_of E b va = initial_idmap E b ! unat (drop_bit 30 va)"

fun uart_base :: "board \<Rightarrow> u64" where
  "uart_base Qemu = qemu_UART_BASE_ADDRESS"
| "uart_base Crosvm = crosvm_UART_BASE_ADDRESS"

fun rtc_base :: "board \<Rightarrow> u64" where
  "rtc_base Qemu = PL031_BASE_ADDRESS"
| "rtc_base Crosvm = PL030_BASE_ADDRESS"

text \<open>linker/qemu.ld and linker/crosvm.ld.\<close>

fun image_origin :: "board \<Rightarrow> nat" where
  "image_origin Qemu = 0x40080000"
| "image_origin Crosvm = 0x80200000"

fun image_length :: "board \<Rightarrow> nat" where
  "image_length Qemu = 2 * 1024 * 1024"
| "image_length Crosvm = 32 * 1024 * 1024"

lemma initial_idmap_identity:
  assumes "attributes_law E" and "i < 512" and "initial_idmap E b ! i \<noteq> 0"
  shows "length (initial_idmap E b) = 512 \<and>
    block_address (initial_idmap E b ! i) = of_nat i * 2 ^ 30 \<and>
    block_attributes (initial_idmap E b ! i) \<in> {EL1_DEVICE_ATTRIBUTES E, EL1_MEMORY_ATTRIBUTES E}"
  using assms(2,3) by (cases b)
    (auto simp: idmap_length qemu_idmap_nth crosvm_idmap_nth EL1_entries [OF assms(1)] split: if_splits)

lemma ex_attributes_law: "attributes_law ex_pt_env"
  by (simp add: attributes_law_def ADDRESS_BITS_def ex_pt_env_def)

lemma initial_idmap_covers:
  "entry_of E b (uart_base b) = EL1_DEVICE_ATTRIBUTES E \<and> entry_of E b (rtc_base b) = EL1_DEVICE_ATTRIBUTES E \<and>
   (\<forall>va. image_origin b \<le> unat va \<and> unat va < image_origin b + image_length b \<longrightarrow>
      (\<exists>p. entry_of E b va = EL1_MEMORY_ATTRIBUTES E OR p))"
proof -
  have 1: "unat (drop_bit 30 va) = unat va div 2 ^ 30" for va :: u64
    by (simp add: drop_bit_eq_div unat_div)
  have 2: "unat (drop_bit 30 va) = 1" if "0x40080000 \<le> unat va" "unat va < 0x40280000" for va :: u64
    using that unfolding 1 by simp
  have 3: "unat (drop_bit 30 va) = 2" if "0x80200000 \<le> unat va" "unat va < 0x82200000" for va :: u64
    using that unfolding 1 by simp
  show ?thesis
    using 2 3 by (cases b)
      (auto simp: entry_of_def qemu_idmap_nth crosvm_idmap_nth qemu_UART_BASE_ADDRESS_def
        PL031_BASE_ADDRESS_def crosvm_UART_BASE_ADDRESS_def PL030_BASE_ADDRESS_def)
qed

end
