(* ===== verification/Rust_Std.thy ===== *)
theory Rust_Std
  imports Prelude
begin

text \<open>
  The parts of the Rust standard library the program uses on data: memory layouts, UTF-8
  validation, splitting a string at a separator, and parsing decimal integers. Strings are lists
  of bytes.
\<close>

section \<open>Layouts\<close>

record layout =
  layout_size :: usize
  layout_align :: usize

definition is_power_of_two :: "usize \<Rightarrow> bool" where
  "is_power_of_two n \<longleftrightarrow> n \<noteq> 0 \<and> n AND (n - 1) = 0"

datatype layout_error = Layout_error

text \<open>\<^verbatim>\<open>Layout::from_size_align\<close>: the alignment is a power of two, and the size rounded up to it
  does not exceed \<^verbatim>\<open>isize::MAX\<close>.\<close>

definition layout_from_size_align :: "usize \<Rightarrow> usize \<Rightarrow> layout_error + layout" where
  "layout_from_size_align sz al =
     (if is_power_of_two al \<and> unat sz + unat al \<le> 2 ^ 63
      then Inr \<lparr>layout_size = sz, layout_align = al\<rparr> else Inl Layout_error)"

lemma layout_from_size_align_Inr:
  "layout_from_size_align sz al = Inr l \<longleftrightarrow>
     is_power_of_two al \<and> unat sz + unat al \<le> 2 ^ 63 \<and>
     l = \<lparr>layout_size = sz, layout_align = al\<rparr>"
  by (auto simp: layout_from_size_align_def)

section \<open>Splitting strings\<close>

text \<open>\<^verbatim>\<open>str::split\<close> at a one-byte separator: the pieces between separators, the empty ones
  included.\<close>

fun split_on :: "u8 \<Rightarrow> u8 list \<Rightarrow> u8 list list" where
  "split_on c [] = [[]]"
| "split_on c (x # xs) =
     (if x = c then [] # split_on c xs
      else (case split_on c xs of [] \<Rightarrow> [[x]] | w # ws \<Rightarrow> (x # w) # ws))"

fun join_with :: "u8 \<Rightarrow> u8 list list \<Rightarrow> u8 list" where
  "join_with c [] = []"
| "join_with c [w] = w"
| "join_with c (w # v # ws) = w @ c # join_with c (v # ws)"

lemma split_on_nonempty: "split_on c xs \<noteq> []"
  by (cases xs) (auto split: list.split)

lemma split_on_pieces: "w \<in> set (split_on c xs) \<Longrightarrow> c \<notin> set w"
proof (induction xs arbitrary: w)
  case Nil
  then show ?case by simp
next
  case (Cons x xs)
  then show ?case
    by (cases "split_on c xs") (auto split: if_splits)
qed

lemma join_split: "join_with c (split_on c xs) = xs"
proof (induction xs)
  case Nil
  then show ?case by simp
next
  case (Cons x xs)
  obtain w ws where sp: "split_on c xs = w # ws"
    using split_on_nonempty [of c xs] by (cases "split_on c xs") auto
  show ?case
  proof (cases "x = c")
    case True
    then show ?thesis using Cons sp by simp
  next
    case False
    then show ?thesis using Cons sp by (cases ws) simp_all
  qed
qed

lemma split_on_free: "c \<notin> set w \<Longrightarrow> split_on c w = [w]"
  by (induction w) auto

lemma split_on_append:
  "c \<notin> set w \<Longrightarrow> split_on c (w @ c # xs) = w # split_on c xs"
  by (induction w) auto

section \<open>UTF-8\<close>

definition utf8_cont :: "u8 \<Rightarrow> bool" where
  "utf8_cont b \<longleftrightarrow> 0x80 \<le> b \<and> b \<le> 0xBF"

text \<open>The well-formed sequences of the Unicode standard, as \<^verbatim>\<open>str::from_utf8\<close> accepts them.\<close>

fun utf8_valid :: "u8 list \<Rightarrow> bool" where
  "utf8_valid [] = True"
| "utf8_valid (b # bs) =
     (if b < 0x80 then utf8_valid bs
      else if 0xC2 \<le> b \<and> b \<le> 0xDF then
        (case bs of c # cs \<Rightarrow> utf8_cont c \<and> utf8_valid cs | _ \<Rightarrow> False)
      else if 0xE0 \<le> b \<and> b \<le> 0xEF then
        (case bs of c # d # cs \<Rightarrow>
           utf8_cont c \<and> (b = 0xE0 \<longrightarrow> 0xA0 \<le> c) \<and> (b = 0xED \<longrightarrow> c \<le> 0x9F) \<and> utf8_cont d \<and>
           utf8_valid cs
         | _ \<Rightarrow> False)
      else if 0xF0 \<le> b \<and> b \<le> 0xF4 then
        (case bs of c # d # e # cs \<Rightarrow>
           utf8_cont c \<and> (b = 0xF0 \<longrightarrow> 0x90 \<le> c) \<and> (b = 0xF4 \<longrightarrow> c \<le> 0x8F) \<and> utf8_cont d \<and>
           utf8_cont e \<and> utf8_valid cs
         | _ \<Rightarrow> False)
      else False)"

lemma utf8_valid_ascii: "(\<And>b. b \<in> set bs \<Longrightarrow> b < 0x80) \<Longrightarrow> utf8_valid bs"
  by (induction bs) auto

section \<open>Decimal integers\<close>

definition is_digit :: "u8 \<Rightarrow> bool" where
  "is_digit b \<longleftrightarrow> 0x30 \<le> b \<and> b \<le> 0x39"

fun digits_value :: "nat \<Rightarrow> u8 list \<Rightarrow> nat" where
  "digits_value acc [] = acc"
| "digits_value acc (b # bs) = digits_value (10 * acc + unat (b - 0x30)) bs"

definition parse_digits :: "u8 list \<Rightarrow> nat option" where
  "parse_digits bs = (if bs \<noteq> [] \<and> list_all is_digit bs then Some (digits_value 0 bs) else None)"

text \<open>\<^verbatim>\<open>parse::<uN>()\<close>: an optional plus sign and at least one digit, the value in range.\<close>

definition parse_unsigned :: "nat \<Rightarrow> u8 list \<Rightarrow> nat option" where
  "parse_unsigned w bs =
     (case parse_digits (case bs of b # rest \<Rightarrow> if b = 0x2B then rest else bs | [] \<Rightarrow> []) of
        Some n \<Rightarrow> if n < 2 ^ w then Some n else None
      | None \<Rightarrow> None)"

definition parse_u32 :: "u8 list \<Rightarrow> u32 option" where
  "parse_u32 bs = map_option of_nat (parse_unsigned 32 bs)"

definition parse_u64 :: "u8 list \<Rightarrow> u64 option" where
  "parse_u64 bs = map_option of_nat (parse_unsigned 64 bs)"

definition parse_usize :: "u8 list \<Rightarrow> nat option" where
  "parse_usize bs = parse_unsigned 64 bs"

text \<open>\<^verbatim>\<open>parse::<i64>()\<close>: the sign may also be a minus.\<close>

definition parse_i64 :: "u8 list \<Rightarrow> int option" where
  "parse_i64 bs =
     (case bs of
        [] \<Rightarrow> None
      | b # rest \<Rightarrow>
          if b = 0x2D then
            (case parse_digits rest of
               Some n \<Rightarrow> if n \<le> 2 ^ 63 then Some (- int n) else None
             | None \<Rightarrow> None)
          else
            (case parse_digits (if b = 0x2B then rest else bs) of
               Some n \<Rightarrow> if n < 2 ^ 63 then Some (int n) else None
             | None \<Rightarrow> None))"

lemma parse_unsigned_bound: "parse_unsigned w bs = Some n \<Longrightarrow> n < 2 ^ w"
  by (auto simp: parse_unsigned_def split: option.splits if_splits)

lemma parse_u32_unat: "parse_u32 bs = Some x \<longleftrightarrow> parse_unsigned 32 bs = Some (unat x)"
  using parse_unsigned_bound [of 32 bs] by (auto simp: parse_u32_def unat_of_nat)

lemma parse_u64_unat: "parse_u64 bs = Some x \<longleftrightarrow> parse_unsigned 64 bs = Some (unat x)"
  using parse_unsigned_bound [of 64 bs] by (auto simp: parse_u64_def unat_of_nat)

lemma parse_i64_bounds: "parse_i64 bs = Some n \<Longrightarrow> - (2 ^ 63) \<le> n \<and> n < 2 ^ 63"
  by (auto simp: parse_i64_def split: list.splits option.splits if_splits)

end
