(* ===== verification/Alarm.thy ===== *)
theory Alarm
  imports Platform Rust_Std
begin

text \<open>
  apps/alarm.rs: the real-time clock's alarm, from setting it through its interrupt to clearing it.
\<close>

section \<open>State and clock\<close>

text \<open>\<^verbatim>\<open>ALARM_FIRED\<close>.\<close>

record 'h alarm_state = "'h pt_state" +
  ALARM_FIRED :: bool

text \<open>The clock: the time it gives (in seconds), whether it accepts a time to match, and the addition of a
  number of seconds to a time, which panics (\<open>None\<close>) outside the range of the date type.\<close>

datatype rtc_error = Rtc_error

record rtc_ops =
  time_reply :: "event list \<Rightarrow> int"
  set_match_reply :: "event list \<Rightarrow> int \<Rightarrow> rtc_error + unit"
  add_seconds :: "int \<Rightarrow> int \<Rightarrow> int option"

section \<open>Operations\<close>

definition irq_setup :: "'e irq_env_scheme \<Rightarrow> board \<Rightarrow> ((irq_handler, 's) irq_state_scheme, unit) io" where
  "irq_setup E b =
     with_gic (
       bind_io (set_shared_irq_handler E (RTC_IRQ b) Alarm_irq_handle) (\<lambda>_.
       bind_io (gic_call E (Gic_set_priority (RTC_IRQ b) None 0x80)) (\<lambda>_.
       bind_io (gic_call E (Gic_set_trigger (RTC_IRQ b) None Level_trigger)) (\<lambda>_.
       gic_call E (Gic_enable (RTC_IRQ b) None True)))))"

definition irq_remove :: "'e irq_env_scheme \<Rightarrow> board \<Rightarrow> ((irq_handler, 's) irq_state_scheme, unit) io" where
  "irq_remove E b = bind_io (remove_shared_irq_handler E (RTC_IRQ b)) (\<lambda>_. return_io ())"

definition irq_handle :: "'e con_env_scheme \<Rightarrow> intid \<Rightarrow> (('h, 's) alarm_state_scheme, unit) io" where
  "irq_handle E intid =
     bind_io (log E Info ''RTC alarm'' []) (\<lambda>_.
     modify_io (\<lambda>s. s\<lparr>ALARM_FIRED := True\<rparr>))"

definition irq_finish :: "'e con_env_scheme \<Rightarrow> board \<Rightarrow> (('h, 's) alarm_state_scheme, unit) io" where
  "irq_finish E b =
     bind_io (gets_io ALARM_FIRED) (\<lambda>fired.
     bind_io (modify_io (\<lambda>s. s\<lparr>ALARM_FIRED := False\<rparr>)) (\<lambda>_.
     if fired then
       bind_io (emit (Rtc Rtc_clear_interrupt)) (\<lambda>_.
       bind_io (emit (Gic (Gicc_end_interrupt (RTC_IRQ b)))) (\<lambda>_.
       log E Info ''Alarm fired, clearing'' []))
     else return_io ()))"

definition rtc_get_time :: "rtc_ops \<Rightarrow> ('s io_state_scheme, int) io" where
  "rtc_get_time R = call (time_reply R) (Rtc Rtc_get_time)"

definition alarm ::
  "'e con_env_scheme \<Rightarrow> rtc_ops \<Rightarrow> board \<Rightarrow> u8 list list \<Rightarrow> (('h, 's) alarm_state_scheme, unit) io" where
  "alarm E R b args =
     bind_io (irq_finish E b) (\<lambda>_.
     case next_opt args of
       None \<Rightarrow>
         bind_io (con_fmt E ''Usage:'' []) (\<lambda>_.
         con_fmt E ''  alarm <delay>'' [])
     | Some delay \<Rightarrow>
         (case parse_i64 delay of
            None \<Rightarrow> con_fmt E ''Invalid delay time'' []
          | Some delay \<Rightarrow>
              bind_io (rtc_get_time R) (\<lambda>timestamp.
              bind_io (lift_io (expect_opt ''out of range'' (add_seconds R timestamp delay))) (\<lambda>alarm_time.
              bind_io (call (\<lambda>h. set_match_reply R h alarm_time) (Rtc (Rtc_set_match alarm_time))) (\<lambda>r.
              bind_io (lift_io (unwrap r)) (\<lambda>_.
              bind_io (emit (Rtc (Rtc_enable_interrupt True))) (\<lambda>_.
              con_fmt E ''Set alarm for {alarm_time}'' [A_int alarm_time])))))))"

section \<open>Rules\<close>

text \<open>The calls of the clock and the interrupts ended, as the trace shows them.\<close>

fun rtc_events :: "event list \<Rightarrow> rtc_event list" where
  "rtc_events [] = []"
| "rtc_events (Rtc e # es) = e # rtc_events es"
| "rtc_events (_ # es) = rtc_events es"

lemma rtc_events_append [simp]: "rtc_events (xs @ ys) = rtc_events xs @ rtc_events ys"
  by (induction xs rule: rtc_events.induct) simp_all

lemma rtc_events_Con [simp]: "rtc_events (map Con es) = []"
  by (induction es) simp_all

definition ended :: "intid \<Rightarrow> event list \<Rightarrow> nat" where
  "ended i tr = count_list tr (Gic (Gicc_end_interrupt i))"

lemma ended_simps [simp]:
  "ended i [] = 0" "ended i (xs @ ys) = ended i xs + ended i ys"
  "ended i (Gic (Gicc_end_interrupt j) # es) = (if i = j then Suc (ended i es) else ended i es)"
  "ended i (Con c # es) = ended i es" "ended i (Rtc r # es) = ended i es" "ended i (Psci p # es) = ended i es"
  by (simp_all add: ended_def)

lemma irq_handle_returned:
  assumes "irq_handle E i s = (Inr u, t)"
  obtains es where "t = s\<lparr>trace := trace s @ map Con es, ALARM_FIRED := True\<rparr>"
  using assms unfolding irq_handle_def rets_bind rets_modify
  by (elim exE conjE log_state) auto

lemma irq_finish_returned:
  assumes "irq_finish E b s = (Inr u, t)"
  obtains es where "t = (if ALARM_FIRED s
    then s\<lparr>ALARM_FIRED := False, trace := trace s @ [Rtc Rtc_clear_interrupt, Gic (Gicc_end_interrupt (RTC_IRQ b))] @ map Con es\<rparr>
    else s\<lparr>ALARM_FIRED := False\<rparr>)"
proof (cases "ALARM_FIRED s")
  case True
  with assms have "log E Info ''Alarm fired, clearing'' []
      (s\<lparr>ALARM_FIRED := False, trace := trace s @ [Rtc Rtc_clear_interrupt, Gic (Gicc_end_interrupt (RTC_IRQ b))]\<rparr>) = (Inr (), t)"
    by (simp add: irq_finish_def bind_run gets_io_def modify_io_def emit_run)
  then show thesis using that True by (auto elim!: log_state)
next
  case False
  with assms have "t = s\<lparr>ALARM_FIRED := False\<rparr>"
    by (simp add: irq_finish_def runs)
  with False that show thesis by auto
qed

lemma ended_map_Con [simp]: "ended i (map Con es) = 0"
  by (induction es) simp_all

lemma irq_finish_rtc:
  assumes "irq_finish E b s = (Inr u, t)"
  shows "rtc_events (trace t) = rtc_events (trace s) @ (if ALARM_FIRED s then [Rtc_clear_interrupt] else [])"
    and "\<not> ALARM_FIRED t"
  using assms by (auto elim!: irq_finish_returned split: if_splits)

lemma alarm_sets_match:
  assumes "alarm E R b (word # args) s = (Inr u, t)" and "parse_i64 word = Some n"
  shows "\<exists>h es at. trace t = h @ Rtc Rtc_get_time # es \<and> add_seconds R (time_reply R h) n = Some at \<and>
    \<not> ALARM_FIRED t \<and>
    rtc_events (trace t) = rtc_events (trace s) @ (if ALARM_FIRED s then [Rtc_clear_interrupt] else []) @
      [Rtc_get_time, Rtc_set_match at, Rtc_enable_interrupt True]"
proof -
  from assms obtain v at w where fin: "irq_finish E b s = (Inr (), v)"
    and at: "add_seconds R (time_reply R (trace v)) n = Some at"
    and w: "w = v\<lparr>trace := trace v @ [Rtc Rtc_get_time, Rtc (Rtc_set_match at), Rtc (Rtc_enable_interrupt True)]\<rparr>"
    and out: "con_fmt E ''Set alarm for {alarm_time}'' [A_int at] w = (Inr (), t)"
    by (auto simp: alarm_def rets_bind rets_lift rets_emit rets_call rtc_get_time_def)
  with irq_finish_rtc [OF fin] con_fmt_state [OF out] show ?thesis by auto
qed

lemma alarm_refused:
  assumes "alarm E R b args s = (Inr u, t)" and "\<forall>word rest. args = word # rest \<longrightarrow> parse_i64 word = None"
  shows "\<not> ALARM_FIRED t \<and>
    rtc_events (trace t) = rtc_events (trace s) @ (if ALARM_FIRED s then [Rtc_clear_interrupt] else [])"
proof (cases args)
  case Nil
  with assms(1) obtain v w where fin: "irq_finish E b s = (Inr (), v)"
    and "con_fmt E ''Usage:'' [] v = (Inr (), w)" "con_fmt E ''  alarm <delay>'' [] w = (Inr (), t)"
    by (auto simp: alarm_def rets_bind)
  then show ?thesis using irq_finish_rtc [OF fin] by (auto dest!: con_fmt_state)
next
  case (Cons word rest)
  with assms obtain v where fin: "irq_finish E b s = (Inr (), v)"
    and "con_fmt E ''Invalid delay time'' [] v = (Inr (), t)"
    by (auto simp: alarm_def rets_bind)
  then show ?thesis using irq_finish_rtc [OF fin] by (auto dest!: con_fmt_state)
qed

text \<open>C35: a command \<^verbatim>\<open>alarm\<close> that returns has cleared an alarm that had fired and left none pending. With a valid
  delay \<open>n\<close> as its argument it has then read the time and set the clock to match \<open>n\<close> seconds later and to interrupt;
  without one it has made no other call of the clock. The delay is always that of the argument: the 5 seconds of the
  comment above the function are not in the code.\<close>

theorem alarm_command:
  assumes "alarm E R b args s = (Inr u, t)"
  shows "\<not> ALARM_FIRED t \<and>
    (case args of
       [] \<Rightarrow> rtc_events (trace t) = rtc_events (trace s) @ (if ALARM_FIRED s then [Rtc_clear_interrupt] else [])
     | word # _ \<Rightarrow>
         (case parse_i64 word of
            None \<Rightarrow> rtc_events (trace t) = rtc_events (trace s) @ (if ALARM_FIRED s then [Rtc_clear_interrupt] else [])
          | Some n \<Rightarrow>
              \<exists>h es at. trace t = h @ Rtc Rtc_get_time # es \<and> add_seconds R (time_reply R h) n = Some at \<and>
                rtc_events (trace t) = rtc_events (trace s) @ (if ALARM_FIRED s then [Rtc_clear_interrupt] else []) @
                  [Rtc_get_time, Rtc_set_match at, Rtc_enable_interrupt True]))"
proof (cases "\<exists>word rest n. args = word # rest \<and> parse_i64 word = Some n")
  case True
  then obtain word rest n where a: "args = word # rest" "parse_i64 word = Some n" by blast
  from alarm_sets_match [OF assms [unfolded a] a(2)] show ?thesis using a by auto
next
  case False
  with alarm_refused [OF assms] show ?thesis by (auto split: list.split option.split)
qed

section \<open>An example\<close>

definition ex_rtc :: rtc_ops where
  "ex_rtc = \<lparr>time_reply = (\<lambda>h. 1000), set_match_reply = (\<lambda>_ _. Inr ()), add_seconds = (\<lambda>a b. Some (a + b))\<rparr>"

definition ex_alarm_state :: "irq_handler alarm_state" where
  "ex_alarm_state = \<lparr>trace = [], held = [], masked = False, console_set = True, logger = Some Debug,
     FDT = Some ex_fdt, shared_irq_handlers = Map.empty, private_irq_handlers = None, private_borrowed = False,
     gic_set = True, PAGETABLE = None, ALARM_FIRED = False\<rparr>"

lemma ex_pt_env_write [simp]: "write_reply ex_pt_env h ev = Inr ()"
  by (simp add: ex_pt_env_def)

definition ex_fired :: "irq_handler alarm_state" where
  "ex_fired = ex_alarm_state\<lparr>trace := [Con (Log_line Info ''RTC alarm'' [])], ALARM_FIRED := True\<rparr>"

lemma ex_alarm_fires: "irq_handle ex_pt_env (RTC_IRQ Qemu) ex_alarm_state = (Inr (), ex_fired)"
  by (simp add: irq_handle_def runs ex_alarm_state_def ex_fired_def logs_def less_eq_level_def)

text \<open>The word \<^verbatim>\<open>42\<close>.\<close>

definition ex_word :: "u8 list" where
  "ex_word = [0x34, 0x32]"

lemma ex_word_parse: "parse_i64 ex_word = Some 42"
  by (simp add: ex_word_def parse_i64_def parse_digits_def is_digit_def)

definition ex_set where
  "ex_set args = snd (alarm ex_pt_env ex_rtc Qemu args ex_fired)"

lemma ex_set_run: "alarm ex_pt_env ex_rtc Qemu [ex_word] ex_fired = (Inr (), ex_set [ex_word])"
  by (simp add: ex_set_def alarm_def irq_finish_def rtc_get_time_def runs ex_word_parse ex_fired_def
      ex_alarm_state_def ex_rtc_def logs_def less_eq_level_def)

theorem alarm_command_witness:
  "rtc_events (trace (ex_set [ex_word])) =
     [Rtc_clear_interrupt, Rtc_get_time, Rtc_set_match 1042, Rtc_enable_interrupt True]"
  using alarm_command [OF ex_set_run]
  by (auto simp: ex_word_parse ex_fired_def ex_rtc_def)

lemma ex_set_none: "alarm ex_pt_env ex_rtc Qemu [] ex_fired = (Inr (), ex_set [])"
  by (simp add: ex_set_def alarm_def irq_finish_def runs ex_fired_def ex_alarm_state_def logs_def less_eq_level_def)

lemma ex_set_none_events: "rtc_events (trace (ex_set [])) = [Rtc_clear_interrupt]"
  using alarm_refused [OF ex_set_none] by (simp add: ex_fired_def)

lemma irq_setup_run:
  assumes "irq_ready E s" and "my_private E s (RTC_IRQ b) = None" and "gic_set s" and "GIC_lock \<notin> set (held s)"
  shows "wpre (irq_setup E b)
    (\<lambda>_ t. shared_irq_handlers t = (shared_irq_handlers s)(RTC_IRQ b \<mapsto> Alarm_irq_handle))
    (\<lambda>e _. e = Panic Unwrap_err \<and> (\<exists>h ev x. gic_reply E h ev = Inl x)) s"
proof -
  let ?s = "s\<lparr>held := GIC_lock # held s\<rparr>"
  have "wpre (set_shared_irq_handler E (RTC_IRQ b) Alarm_irq_handle)
      (\<lambda>_ t. shared_irq_handlers t = (shared_irq_handlers s)(RTC_IRQ b \<mapsto> Alarm_irq_handle))
      (\<lambda>_ _. False) ?s"
    using shr.ins_allowed [of E ?s "RTC_IRQ b" Alarm_irq_handle] assms(1,2) by (auto elim!: wpre_mono)
  then show ?thesis
    using assms(3,4) by (auto simp: irq_setup_def wp elim!: wpre_mono split: sum.split)
qed

text \<open>The two interrupts of a board differ.\<close>

lemma board_irqs_differ: "CONSOLE_IRQ b \<noteq> RTC_IRQ b"
  using qemu.irqs_differ crosvm.irqs_differ by (cases b) simp_all

text \<open>Setting up the alarm registers its handler and leaves every other entry of the shared table alone, the
  console's in particular; removing it again deletes exactly that entry.\<close>

lemma alarm_registration:
  assumes "irq_ready E s" and "my_private E s (RTC_IRQ b) = None" and "gic_set s" and "GIC_lock \<notin> set (held s)"
    and "irq_setup E b s = (Inr u, t)"
  shows "shared_irq_handlers t = (shared_irq_handlers s)(RTC_IRQ b \<mapsto> Alarm_irq_handle) \<and>
    shared_irq_handlers t (CONSOLE_IRQ b) = shared_irq_handlers s (CONSOLE_IRQ b) \<and>
    (\<forall>v w. irq_remove E b t = (Inr v, w) \<longrightarrow>
       shared_irq_handlers w = (shared_irq_handlers s)(RTC_IRQ b := None))"
proof -
  have t: "shared_irq_handlers t = (shared_irq_handlers s)(RTC_IRQ b \<mapsto> Alarm_irq_handle)"
    using wpre_runs [OF irq_setup_run [OF assms(1-4)] assms(5)] .
  moreover have "shared_irq_handlers w = (shared_irq_handlers t)(RTC_IRQ b := None)"
    if "irq_remove E b t = (Inr v, w)" for v w
    using that remove_shared_returned [of E "RTC_IRQ b" t _ w] by (auto simp: irq_remove_def rets)
  ultimately show ?thesis using board_irqs_differ [of b] by auto
qed

lemma ex_alarm_ready: "irq_ready ex_pt_env ex_alarm_state" "my_private ex_pt_env ex_alarm_state = Map.empty"
proof -
  have "core_at ex_pt_env ex_alarm_state [Map.empty, Map.empty] 0"
    by (simp add: core_at_def private_table_def ex_alarm_state_def cpu_count_in_def fdt_cpu_nodes_def
        ex_fdt_def numeral_2_eq_2 current_cpu_index_in_def mpidr_to_cpu_index_def cpu_id_def
        mpidr_affinity_def MPIDR_AFFINITY_MASK_def ex_pt_env_def)
  then show "irq_ready ex_pt_env ex_alarm_state" "my_private ex_pt_env ex_alarm_state = Map.empty"
    by (auto simp: irq_ready_def ex_alarm_state_def logs_def less_eq_level_def dest: my_private_core_at)
qed

lemma alarm_registration_ex:
  "\<exists>t. irq_setup ex_pt_env Qemu ex_alarm_state = (Inr (), t) \<and>
    shared_irq_handlers t = [RTC_IRQ Qemu \<mapsto> Alarm_irq_handle]"
proof -
  have pre: "my_private ex_pt_env ex_alarm_state (RTC_IRQ Qemu) = None" "gic_set ex_alarm_state"
    "GIC_lock \<notin> set (held ex_alarm_state)" "shared_irq_handlers ex_alarm_state = Map.empty"
    using ex_alarm_ready(2) by (simp, simp_all add: ex_alarm_state_def)
  have "gic_reply ex_pt_env h ev = Inr ()" for h ev by (simp add: ex_pt_env_def)
  then obtain t where t: "irq_setup ex_pt_env Qemu ex_alarm_state = (Inr (), t)"
    using irq_setup_run [OF ex_alarm_ready(1) pre(1,2,3)] by (auto elim!: wpre_cases)
  with alarm_registration [OF ex_alarm_ready(1) pre(1,2,3) t] pre(4) show ?thesis by auto
qed

end
