(* ===== verification/Secondary.thy ===== *)
theory Secondary
  imports Alarm
begin

text \<open>
  secondary_entry.rs: starting another core on a stack of its own and what that core does first; the
  part of apps/cpus.rs that runs on the other core; and the dispatch of the program's three interrupt
  handlers.
\<close>

section \<open>State\<close>

text \<open>\<^verbatim>\<open>SECONDARY_STACKS\<close>: the address of the stack boxed for each MPIDR.\<close>

record 'h sec_state = "'h alarm_state" +
  SECONDARY_STACKS :: "u64 \<rightharpoonup> u64"

text \<open>The global heap, as far as stacks go: the address \<^verbatim>\<open>Box::new\<close> gets, none when memory is out.\<close>

type_synonym stack_heap = "event list \<Rightarrow> u64 option"

section \<open>Stacks\<close>

definition SECONDARY_STACK_PAGE_COUNT :: nat where
  "SECONDARY_STACK_PAGE_COUNT = 4"

text \<open>\<^verbatim>\<open>SecondaryStack::default\<close>.\<close>

definition secondary_stack_default :: "stack_heap \<Rightarrow> ('s io_state_scheme, u64) io" where
  "secondary_stack_default heap =
     bind_io (gets_io (\<lambda>s. heap (trace s))) (\<lambda>r.
     case r of
       None \<Rightarrow> abort_io (Panic (Explicit ''memory allocation failed''))
     | Some p \<Rightarrow>
         bind_io (emit (Psci (Alloc_stack p))) (\<lambda>_.
         return_io p))"

definition get_secondary_stack :: "stack_heap \<Rightarrow> u64 \<Rightarrow> (('h, 's) sec_state_scheme, u64) io" where
  "get_secondary_stack heap mpidr =
     with_lock SECONDARY_STACKS_lock (
       bind_io (gets_io SECONDARY_STACKS) (\<lambda>stacks.
       case stacks mpidr of
         Some p \<Rightarrow> return_io p
       | None \<Rightarrow>
           bind_io (secondary_stack_default heap) (\<lambda>p.
           bind_io (modify_io (\<lambda>s. s\<lparr>SECONDARY_STACKS := (SECONDARY_STACKS s)(mpidr \<mapsto> p)\<rparr>)) (\<lambda>_.
           return_io p))))"

text \<open>\<^verbatim>\<open>start_core\<close>: the firmware is asked to start the core on the stack. What the started core runs is
  \<open>secondary_boot\<close> below.\<close>

definition start_core ::
  "'e psci_env_scheme \<Rightarrow> conduit \<Rightarrow> u64 \<Rightarrow> u64 \<Rightarrow> ('s io_state_scheme, psci_error + unit) io" where
  "start_core E c mpidr stack =
     call (\<lambda>h. cpu_on_reply E h c mpidr stack) (Psci (Psci_cpu_on c mpidr stack))"

definition start_core_with_stack ::
  "'e psci_env_scheme \<Rightarrow> stack_heap \<Rightarrow> u64 \<Rightarrow> (('h, 's) sec_state_scheme, psci_error + unit) io" where
  "start_core_with_stack E heap mpidr =
     bind_io (get_secondary_stack heap mpidr) (\<lambda>stack.
     bind_io smc_for_psci (\<lambda>smc.
     if smc then start_core E Smc mpidr stack else start_core E Hvc mpidr stack))"

section \<open>On the other core\<close>

definition secondary_init :: "'e pt_env_scheme \<Rightarrow> (('h, 's) pt_state_scheme, unit) io" where
  "secondary_init E =
     bind_io (gets_io PAGETABLE) (\<lambda>p.
     bind_io (lift_io (unwrap_opt p)) (\<lambda>m.
     bind_io (activate_secondary E m) (\<lambda>_.
     bind_io (log E Debug ''Page table activated on secondary CPU.'' []) (\<lambda>_.
     secondary_init_gic E))))"

text \<open>\<^verbatim>\<open>irq_enable\<close>: unmasks interrupts on the running core.\<close>

definition irq_enable :: "('s io_state_scheme, unit) io" where
  "irq_enable = bind_io (emit (Cpu Irq_enable)) (\<lambda>_. modify_io (\<lambda>s. s\<lparr>masked := False\<rparr>))"

text \<open>\<^verbatim>\<open>0..IntId::SGI_COUNT\<close>, as interrupt identifiers.\<close>

definition sgi_ids :: "'e irq_env_scheme \<Rightarrow> intid list" where
  "sgi_ids E = map (\<lambda>n. Sgi (of_nat n)) [0 ..< unat (SGI_COUNT E)]"

definition enable_sgis :: "'e irq_env_scheme \<Rightarrow> nat \<Rightarrow> (('h, 's) irq_state_scheme, unit) io" where
  "enable_sgis E cpu =
     with_gic (for_each (sgi_ids E) (\<lambda>sgi.
       bind_io (gic_call E (Gic_enable sgi (Some cpu) True)) (\<lambda>_.
       gic_call E (Gic_set_priority sgi (Some cpu) 0x80))))"

text \<open>\<^verbatim>\<open>secondary_entry\<close>. \<open>irqs\<close> is what the interrupts taken while the core waits do.\<close>

definition secondary_entry ::
  "'e irq_env_scheme \<Rightarrow> ((irq_handler, 's) irq_state_scheme, unit) io \<Rightarrow> u64 \<Rightarrow>
   ((irq_handler, 's) irq_state_scheme, unit) io" where
  "secondary_entry E irqs arg =
     bind_io (current_cpu_index E) (\<lambda>cpu.
     block_io [
       log E Info ''Secondary CPU {cpu} started with arg {arg}'' [A_nat cpu, A_u64 arg],
       enable_sgis E cpu,
       for_each (sgi_ids E) (\<lambda>sgi.
         bind_io (set_private_irq_handler E sgi Secondary_irq_handler) (\<lambda>_. return_io ())),
       irq_enable,
       log E Info ''Waiting for interrupt...'' [],
       wait_for_irq irqs,
       log E Info ''Finished waiting'' [],
       for_each (sgi_ids E) (\<lambda>sgi.
         bind_io (remove_private_irq_handler E sgi) (\<lambda>_. return_io ())),
       bind_io smc_for_psci (\<lambda>smc.
       bind_io (if smc then cpu_off E Smc else cpu_off E Hvc) (\<lambda>r.
       lift_io (unwrap r))),
       log E Error ''PSCI_CPU_OFF returned unexpectedly'' [],
       abort_io Halt])"

definition secondary_irq_handler :: "'e irq_env_scheme \<Rightarrow> intid \<Rightarrow> ('s boot_state_scheme, unit) io" where
  "secondary_irq_handler E intid =
     bind_io (gets_io FDT) (\<lambda>fdt.
     log_lazy E Info ''Secondary CPU {} IRQ handler {intid:?}''
       (rbind (current_cpu_index_in E fdt) (\<lambda>i. Inr [A_nat i, A_intid intid])))"

text \<open>The closure that \<^verbatim>\<open>start_core_with_stack\<close> passes on, with the entry of \<^verbatim>\<open>start_cpu\<close>.\<close>

definition secondary_boot ::
  "'e pt_env_scheme \<Rightarrow> ((irq_handler, 's) pt_state_scheme, unit) io \<Rightarrow> u64 \<Rightarrow>
   ((irq_handler, 's) pt_state_scheme, unit) io" where
  "secondary_boot E irqs arg =
     bind_io (secondary_init E) (\<lambda>_.
     secondary_entry E irqs arg)"

section \<open>The program's handlers\<close>

text \<open>What the entries of the handler tables run.\<close>

fun run_handler ::
  "'e irq_env_scheme \<Rightarrow> board \<Rightarrow> irq_handler \<Rightarrow> intid \<Rightarrow> ((irq_handler, 's) alarm_state_scheme, unit) io" where
  "run_handler E b Console_handle_irq i = console_handle_irq (uart_handle_irq b) i"
| "run_handler E b Alarm_irq_handle i = irq_handle E i"
| "run_handler E b Secondary_irq_handler i = secondary_irq_handler E i"

text \<open>The interrupts a waiting core takes: at most one, when interrupts are not masked and one is pending.\<close>

definition take_irq ::
  "'e irq_env_scheme \<Rightarrow> board \<Rightarrow> (event list \<Rightarrow> bool) \<Rightarrow> ((irq_handler, 's) alarm_state_scheme, unit) io" where
  "take_irq E b pending =
     bind_io (gets_io (\<lambda>s. \<not> masked s \<and> pending (trace s))) (\<lambda>now.
     if now then irq_current E (run_handler E b) else return_io ())"

section \<open>Stacks of other cores\<close>

text \<open>The bytes of a stack, with \<open>page\<close> bytes to a page of the type \<^verbatim>\<open>Stack\<close>. A heap does not hand out memory that is
  still in use, and stacks are never freed.\<close>

definition stack_block :: "nat \<Rightarrow> u64 \<Rightarrow> nat set" where
  "stack_block page p = {unat p ..< unat p + SECONDARY_STACK_PAGE_COUNT * page}"

definition heap_apart :: "nat \<Rightarrow> stack_heap \<Rightarrow> bool" where
  "heap_apart page heap \<longleftrightarrow>
     (\<forall>h p q. heap h = Some p \<and> Psci (Alloc_stack q) \<in> set h \<longrightarrow> stack_block page p \<inter> stack_block page q = {})"

definition stack_event :: "event \<Rightarrow> bool" where
  "stack_event e = (case e of Psci (Alloc_stack _) \<Rightarrow> True | Psci (Psci_cpu_on _ _ _) \<Rightarrow> True | _ \<Rightarrow> False)"

definition stacks_inv :: "nat \<Rightarrow> ('h, 's) sec_state_scheme \<Rightarrow> bool" where
  "stacks_inv page s \<longleftrightarrow>
     (\<forall>m p. SECONDARY_STACKS s m = Some p \<longrightarrow> Psci (Alloc_stack p) \<in> set (trace s)) \<and>
     (\<forall>m m' p p'. SECONDARY_STACKS s m = Some p \<and> SECONDARY_STACKS s m' = Some p' \<and> m \<noteq> m' \<longrightarrow>
        stack_block page p \<inter> stack_block page p' = {}) \<and>
     (\<forall>c m p. Psci (Psci_cpu_on c m p) \<in> set (trace s) \<longrightarrow> SECONDARY_STACKS s m = Some p)"

lemma get_secondary_stack_returned:
  assumes "get_secondary_stack heap m s = (Inr p, t)"
  shows "(SECONDARY_STACKS s m = Some p \<and> t = s) \<or>
    (SECONDARY_STACKS s m = None \<and> heap (trace s) = Some p \<and>
     t = s\<lparr>trace := trace s @ [Psci (Alloc_stack p)], SECONDARY_STACKS := (SECONDARY_STACKS s)(m \<mapsto> p)\<rparr>)"
  using assms
  by (auto simp: get_secondary_stack_def secondary_stack_default_def rets split: option.splits)

lemma start_core_with_stack_returned:
  assumes "start_core_with_stack E heap m s = (Inr r, t)"
  obtains p c u where "get_secondary_stack heap m s = (Inr p, u)"
    and "t = u\<lparr>trace := trace u @ [Psci (Psci_cpu_on c m p)]\<rparr>"
  using assms unfolding start_core_with_stack_def rets_bind
proof (elim exE conjE)
  fix p u smc v
  assume 1: "get_secondary_stack heap m s = (Inr p, u)" and 2: "smc_for_psci u = (Inr smc, v)"
    and 3: "(if smc then start_core E Smc m p else start_core E Hvc m p) v = (Inr r, t)"
  have "v = u" using 2 by (auto simp: smc_for_psci_def rets)
  with 1 3 that show thesis by (auto simp: start_core_def rets split: if_splits)
qed

lemma stacks_inv_start:
  assumes apart: "heap_apart page heap" and inv: "stacks_inv page s"
    and run: "start_core_with_stack E heap m s = (Inr r, t)"
  shows "stacks_inv page t \<and> SECONDARY_STACKS s \<subseteq>\<^sub>m SECONDARY_STACKS t"
proof -
  obtain p c u where get: "get_secondary_stack heap m s = (Inr p, u)"
    and t: "t = u\<lparr>trace := trace u @ [Psci (Psci_cpu_on c m p)]\<rparr>"
    using run by (rule start_core_with_stack_returned)
  from get_secondary_stack_returned [OF get] show ?thesis
  proof (elim disjE conjE)
    assume "SECONDARY_STACKS s m = Some p" "u = s"
    with inv t show ?thesis by (auto simp: stacks_inv_def map_le_def)
  next
    assume none: "SECONDARY_STACKS s m = None" and p: "heap (trace s) = Some p"
      and u: "u = s\<lparr>trace := trace s @ [Psci (Alloc_stack p)], SECONDARY_STACKS := (SECONDARY_STACKS s)(m \<mapsto> p)\<rparr>"
    have new: "stack_block page p \<inter> stack_block page q = {}" if "SECONDARY_STACKS s k = Some q" for k q
      using apart p inv that unfolding heap_apart_def stacks_inv_def by blast
    have "stack_block page q \<inter> stack_block page p = {}" if "SECONDARY_STACKS s k = Some q" for k q
      using new [OF that] by blast
    with inv none new t u show ?thesis
      by (auto simp: stacks_inv_def map_le_def)
  qed
qed

text \<open>Any sequence of starts, with anything in between that neither allocates stacks nor starts cores.\<close>

inductive core_starts ::
  "'e psci_env_scheme \<Rightarrow> stack_heap \<Rightarrow> ('h, 's) sec_state_scheme \<Rightarrow> ('h, 's) sec_state_scheme \<Rightarrow> bool"
  for E heap s where
  cs_none: "core_starts E heap s s"
| cs_start: "core_starts E heap s t \<Longrightarrow> start_core_with_stack E heap m t = (Inr r, u) \<Longrightarrow> core_starts E heap s u"
| cs_other: "core_starts E heap s t \<Longrightarrow> SECONDARY_STACKS u = SECONDARY_STACKS t \<Longrightarrow> trace u = trace t @ es \<Longrightarrow>
    \<not> list_ex stack_event es \<Longrightarrow> core_starts E heap s u"

lemma core_starts_inv:
  assumes "core_starts E heap s t" and apart: "heap_apart page heap" and "stacks_inv page s"
  shows "stacks_inv page t \<and> SECONDARY_STACKS s \<subseteq>\<^sub>m SECONDARY_STACKS t"
  using assms(1)
proof induction
  case cs_none
  then show ?case using assms(3) by simp
next
  case (cs_start t m r u)
  then show ?case using stacks_inv_start [OF apart, of t E m r u] map_le_trans by blast
next
  case (cs_other t u es)
  then have "Psci (Psci_cpu_on c m p) \<notin> set es" for c m p
    by (auto simp: list_ex_iff stack_event_def)
  with cs_other show ?case by (auto simp: stacks_inv_def)
qed

text \<open>C5: cores never share a stack: however many starts have been made since boot, two requests to start the same
  core name the same stack, and the stacks of two different cores, each of \<^verbatim>\<open>SECONDARY_STACK_PAGE_COUNT\<close> pages, have no
  byte in common. Assumed: a block that the heap hands out does not overlap one that it handed out before
  (stacks are never freed).\<close>

theorem core_stacks_unique:
  assumes "heap_apart page heap" and "core_starts E heap s t"
    and "SECONDARY_STACKS s = Map.empty" and "\<not> list_ex stack_event (trace s)"
    and "Psci (Psci_cpu_on c m p) \<in> set (trace t)" and "Psci (Psci_cpu_on c' m' p') \<in> set (trace t)"
  shows "if m = m' then p = p' else stack_block page p \<inter> stack_block page p' = {}"
proof -
  have "Psci (Psci_cpu_on c m p) \<notin> set (trace s)" for c m p
    using assms(4) by (auto simp: list_ex_iff stack_event_def)
  with assms(3) have "stacks_inv page s" by (simp add: stacks_inv_def)
  with core_starts_inv [OF assms(2,1)] have "stacks_inv page t" by blast
  then have "SECONDARY_STACKS t m = Some p" "SECONDARY_STACKS t m' = Some p'"
    and "\<forall>m m' p p'. SECONDARY_STACKS t m = Some p \<and> SECONDARY_STACKS t m' = Some p' \<and> m \<noteq> m' \<longrightarrow>
      stack_block page p \<inter> stack_block page p' = {}"
    using assms(5,6) unfolding stacks_inv_def by blast+
  then show ?thesis by auto
qed

section \<open>Interrupts taken while waiting\<close>

text \<open>The state in which the program waits: the handler tables can be used and the console too.\<close>

definition os_ready :: "'e irq_env_scheme \<Rightarrow> ('h, 's) irq_state_scheme \<Rightarrow> bool" where
  "os_ready E s \<longleftrightarrow> irq_ready E s \<and> console_set s \<and> CONSOLE_lock \<notin> set (held s)"

text \<open>All that handling an interrupt may change: the trace grows, the per-core tables are created, the alarm's
  flag may be set.\<close>

definition handled :: "('h, 's) alarm_state_scheme \<Rightarrow> ('h, 's) alarm_state_scheme \<Rightarrow> bool" where
  "handled s t \<longleftrightarrow>
     t = s\<lparr>trace := trace t, private_irq_handlers := private_irq_handlers t, ALARM_FIRED := ALARM_FIRED t\<rparr> \<and>
     private_table t = private_table s"

lemma handled_refl [simp]: "handled s s"
  by (simp add: handled_def)

lemma handled_same:
  assumes "handled s t"
  shows "held t = held s" "masked t = masked s" "console_set t = console_set s" "logger t = logger s"
    "FDT t = FDT s" "shared_irq_handlers t = shared_irq_handlers s" "gic_set t = gic_set s"
    "private_borrowed t = private_borrowed s" "my_private E t = my_private E s"
    "PAGETABLE t = PAGETABLE s"
proof -
  let ?u = "s\<lparr>trace := trace t, private_irq_handlers := private_irq_handlers t, ALARM_FIRED := ALARM_FIRED t\<rparr>"
  have t: "t = ?u" and p: "private_table t = private_table s" using assms by (simp_all add: handled_def)
  show "held t = held s" "masked t = masked s" "console_set t = console_set s" "logger t = logger s"
    "shared_irq_handlers t = shared_irq_handlers s" "gic_set t = gic_set s"
    "private_borrowed t = private_borrowed s" "PAGETABLE t = PAGETABLE s" and fdt: "FDT t = FDT s"
    by (subst t, simp)+
  show "my_private E t = my_private E s" using p fdt by (simp add: my_private_def)
qed

lemma os_ready_handled:
  assumes "handled s t" "os_ready E s" shows "os_ready E t"
  using assms(2) handled_same [OF assms(1)] assms(1)
  by (simp add: os_ready_def irq_ready_def core_at_def logs_def handled_def)

text \<open>Each of the three handlers returns when run by the dispatcher.\<close>

lemma run_handler_returns:
  assumes "console_ok E" and "console_set s" and "CONSOLE_lock \<notin> set (held s)"
    and "current_cpu_index_in E (FDT s) = Inr i"
  obtains f es where "run_handler E b h k s = (Inr (), s\<lparr>trace := trace s @ es, ALARM_FIRED := f\<rparr>)"
proof (cases h)
  case Console_handle_irq
  have "\<exists>es. console_handle_irq (uart_handle_irq b) k s = (Inr (), s\<lparr>trace := trace s @ es\<rparr>)"
    using pl011.console_handles [OF assms(2,3), of k] u16550.console_handles [OF assms(2,3), of k]
    by (cases b) auto
  with that [of "ALARM_FIRED s"] Console_handle_irq show thesis by auto
next
  case Alarm_irq_handle
  show thesis
  proof (cases "logs Info s")
    case True
    with Alarm_irq_handle assms that show thesis
      by (simp add: irq_handle_def runs console_okD)
  next
    case False
    with Alarm_irq_handle that [of True "[]"] show thesis by (simp add: irq_handle_def runs)
  qed
next
  case Secondary_irq_handler
  show thesis
  proof (cases "logs Info s")
    case True
    with Secondary_irq_handler assms that [of "ALARM_FIRED s"] show thesis
      by (simp add: secondary_irq_handler_def runs console_okD)
  next
    case False
    with Secondary_irq_handler that [of "ALARM_FIRED s" "[]"] show thesis
      by (simp add: secondary_irq_handler_def runs)
  qed
qed


lemma irq_current_returns:
  assumes ok: "console_ok E" and ready: "os_ready E s"
    and ack: "ack_reply E (trace s) = Some k" "my_private E s k \<noteq> None \<or> shared_irq_handlers s k \<noteq> None"
  shows "\<exists>t. irq_current E (run_handler E b) s = (Inr (), t) \<and> handled s t"
proof -
  from ready have irq: "irq_ready E s" and con: "console_set s" "CONSOLE_lock \<notin> set (held s)"
    by (simp_all add: os_ready_def)
  from irq obtain tables i where at: "core_at E s tables i" and nb: "\<not> private_borrowed s"
    and nt: "\<not> logs Trace s" by (rule irq_readyE)
  from at have i: "current_cpu_index_in E (FDT s) = Inr i" and p: "private_table s = Inr tables"
    by (simp_all add: core_at_def)
  let ?t = "s\<lparr>trace := trace s @ [Gic Gicc_acknowledge], masked := True, private_irq_handlers := Some tables\<rparr>"
  have cur: "irq_current E (run_handler E b) s = handle_irq E (run_handler E b) s"
    using nt by (simp add: irq_current_def runs)
  show ?thesis
  proof (cases "(tables ! i) k")
    case None
    with ack(2) at obtain h where h: "shared_irq_handlers s k = Some h"
      by (auto simp: my_private_core_at)
    obtain f es where run: "run_handler E b h k (?t\<lparr>held := SHARED_IRQ_HANDLERS_lock # held s\<rparr>) =
        (Inr (), ?t\<lparr>held := SHARED_IRQ_HANDLERS_lock # held s, trace := trace ?t @ es, ALARM_FIRED := f\<rparr>)"
      by (rule run_handler_returns [OF ok, of "?t\<lparr>held := SHARED_IRQ_HANDLERS_lock # held s\<rparr>" i b h k])
        (use con i in \<open>auto\<close>)
    show ?thesis
      using p unfolding cur handle_irq_eq [OF irq at ack(1)]
      by (simp add: None h Let_def run handled_def) (simp add: private_table_def)
  next
    case (Some h)
    obtain f es where run: "run_handler E b h k (?t\<lparr>private_borrowed := True\<rparr>) =
        (Inr (), ?t\<lparr>private_borrowed := True, trace := trace ?t @ es, ALARM_FIRED := f\<rparr>)"
      by (rule run_handler_returns [OF ok, of "?t\<lparr>private_borrowed := True\<rparr>" i b h k])
        (use con i in \<open>auto\<close>)
    show ?thesis
      using p nb unfolding cur handle_irq_eq [OF irq at ack(1)]
      by (simp add: Some Let_def run handled_def) (simp add: private_table_def)
  qed
qed

lemma take_irq_returns:
  assumes "console_ok E" and "os_ready E s"
    and "pending (trace s) \<Longrightarrow> \<exists>k. ack_reply E (trace s) = Some k \<and>
      (my_private E s k \<noteq> None \<or> shared_irq_handlers s k \<noteq> None)"
  shows "\<exists>t. take_irq E b pending s = (Inr (), t) \<and> handled s t \<and> os_ready E t"
proof (cases "\<not> masked s \<and> pending (trace s)")
  case True
  with assms(3) obtain k where "ack_reply E (trace s) = Some k"
    "my_private E s k \<noteq> None \<or> shared_irq_handlers s k \<noteq> None" by blast
  from irq_current_returns [OF assms(1,2) this] True assms(2) show ?thesis
    by (auto simp: take_irq_def runs intro: os_ready_handled)
next
  case False
  with assms(2) show ?thesis by (auto simp: take_irq_def runs)
qed

text \<open>C21: an interrupt taken while the program waits is handled and changes nothing but the record of what
  happened and the alarm's flag: locks, interrupt mask and handler tables are as before, so the code that was
  waiting goes on. Assumed: the console driver works, and the interrupt has a handler.\<close>

theorem take_irq_transparent:
  assumes "console_ok E" and "os_ready E s"
    and "pending (trace s) \<Longrightarrow> \<exists>k. ack_reply E (trace s) = Some k \<and>
      (my_private E s k \<noteq> None \<or> shared_irq_handlers s k \<noteq> None)"
  shows "\<exists>t. take_irq E b pending s = (Inr (), t) \<and> handled s t \<and> os_ready E t"
  using take_irq_returns [OF assms(1,2)] assms(3) by blast

section \<open>The life of another core\<close>

definition gic_ok :: "'e irq_env_scheme \<Rightarrow> bool" where
  "gic_ok E \<longleftrightarrow> (\<forall>h ev. \<exists>u. gic_reply E h ev = Inr u)"

lemma for_each_trace:
  assumes "\<And>x s. x \<in> set xs \<Longrightarrow> f x s = (Inr (), s\<lparr>trace := trace s @ g x\<rparr>)"
  shows "for_each xs f s = (Inr (), s\<lparr>trace := trace s @ concat (map g xs)\<rparr>)"
  using assms by (induction xs arbitrary: s) (simp_all add: runs)

lemma enable_sgis_run:
  assumes "gic_ok E" and "gic_set s" and "GIC_lock \<notin> set (held s)"
  shows "enable_sgis E cpu s = (Inr (), s\<lparr>trace := trace s @ concat (map (\<lambda>i.
    [Gic (Gic_enable i (Some cpu) True), Gic (Gic_set_priority i (Some cpu) 0x80)]) (sgi_ids E))\<rparr>)"
proof -
  have ok: "gic_reply E h ev = Inr ()" for h ev
    using assms(1) by (auto simp: gic_ok_def)
  have "for_each (sgi_ids E) (\<lambda>sgi.
       bind_io (gic_call E (Gic_enable sgi (Some cpu) True)) (\<lambda>_.
       gic_call E (Gic_set_priority sgi (Some cpu) 0x80))) (s\<lparr>held := GIC_lock # held s\<rparr>) =
    (Inr (), s\<lparr>held := GIC_lock # held s, trace := trace s @ concat (map (\<lambda>i.
    [Gic (Gic_enable i (Some cpu) True), Gic (Gic_set_priority i (Some cpu) 0x80)]) (sgi_ids E))\<rparr>)"
    by (subst for_each_trace [where g = "\<lambda>i. [Gic (Gic_enable i (Some cpu) True), Gic (Gic_set_priority i (Some cpu) 0x80)]"])
      (simp_all add: gic_call_def runs ok)
  with assms(2,3) show ?thesis
    by (intro wpre_eqI) (simp add: enable_sgis_def wp, simp add: wpre_def)
qed

text \<open>A loop over the private table changes that table only.\<close>

definition private_only :: "('h, 's) irq_state_scheme \<Rightarrow> ('h, 's) irq_state_scheme \<Rightarrow> bool" where
  "private_only s t \<longleftrightarrow> t = s\<lparr>trace := trace t, private_irq_handlers := private_irq_handlers t\<rparr>"

interpretation pvo: frame private_only
proof unfold_locales
  show "private_only s s" for s :: "('h, 's) irq_state_scheme" by (simp add: private_only_def)
  show "private_only s u" if "private_only s t" "private_only t u" for s t u :: "('h, 's) irq_state_scheme"
  proof -
    have "u = (s\<lparr>trace := trace t, private_irq_handlers := private_irq_handlers t\<rparr>)
        \<lparr>trace := trace u, private_irq_handlers := private_irq_handlers u\<rparr>"
      using that unfolding private_only_def by simp
    then show ?thesis unfolding private_only_def by simp
  qed
qed

lemma private_only_set: "returns private_only (set_private_irq_handler E k h)"
  by (rule returnsI)
    (auto simp: set_private_irq_handler_def private_update_def private_get_def private_force_def
      core_index_def current_cpu_index_def private_only_def rets split: if_splits)

lemma private_only_remove: "returns private_only (remove_private_irq_handler E k)"
  by (rule returnsI)
    (auto simp: remove_private_irq_handler_def private_update_def private_get_def private_force_def
      core_index_def current_cpu_index_def private_only_def rets split: if_splits)


text \<open>What the body of \<^verbatim>\<open>secondary_entry\<close> carries from statement to statement.\<close>

definition core_runs ::
  "'e irq_env_scheme \<Rightarrow> (intid \<rightharpoonup> 'h) \<Rightarrow> (intid \<rightharpoonup> 'h) \<Rightarrow> ('h, 's) irq_state_scheme \<Rightarrow> bool" where
  "core_runs E sh mine t \<longleftrightarrow> os_ready E t \<and> gic_set t \<and> GIC_lock \<notin> set (held t) \<and>
     shared_irq_handlers t = sh \<and> my_private E t = mine"

lemma os_ready_updates [simp]:
  "os_ready E (s\<lparr>trace := h\<rparr>) = os_ready E s" "os_ready E (s\<lparr>masked := b\<rparr>) = os_ready E s"
  by (simp_all add: os_ready_def)

lemma core_runs_updates [simp]:
  "core_runs E sh mine (t\<lparr>trace := h\<rparr>) = core_runs E sh mine t"
  "core_runs E sh mine (t\<lparr>masked := b\<rparr>) = core_runs E sh mine t"
  by (simp_all add: core_runs_def)

lemma wpre_then: "wpre m Q (\<lambda>_ _. False) s \<Longrightarrow> (\<And>x t. Q x t \<Longrightarrow> Q' x t) \<Longrightarrow> wpre m Q' R s"
  by (erule wpre_mono) auto

lemma core_runs_enable:
  "core_runs E sh mine t \<Longrightarrow> wpre irq_enable (\<lambda>_. core_runs E sh mine) (\<lambda>_ _. False) t"
  by (simp add: irq_enable_def wp)

lemma core_runs_log:
  assumes "console_ok E" and "core_runs E sh mine t"
  shows "wpre (log E lvl lit args) (\<lambda>_. core_runs E sh mine) (\<lambda>_ _. False) t"
proof -
  have "CONSOLE_lock \<notin> set (held t)" using assms(2) by (simp add: core_runs_def os_ready_def)
  with assms show ?thesis by (simp add: wpre_log console_okD)
qed

lemma core_runs_private:
  assumes m: "wpre m (\<lambda>_ t'. my_private E t' = mine' \<and> irq_ready E t') (\<lambda>_ _. False) t"
    and f: "returns private_only m" and t: "core_runs E sh mine t"
  shows "wpre m (\<lambda>_. core_runs E sh mine') (\<lambda>_ _. False) t"
proof -
  from m obtain u t' where run: "m t = (Inr u, t')" and post: "my_private E t' = mine'" "irq_ready E t'"
    by (auto elim!: wpre_cases)
  from returnsD [OF f run] obtain h p where "t' = t\<lparr>trace := h, private_irq_handlers := p\<rparr>"
    by (auto simp: private_only_def)
  with post t run show ?thesis by (simp add: wpre_def core_runs_def os_ready_def)
qed

lemma core_runs_register:
  assumes "core_runs E sh mine t" and "\<forall>k\<in>set ks. sh k = None"
  shows "wpre (for_each ks (\<lambda>k. bind_io (set_private_irq_handler E k h) (\<lambda>_. return_io ())))
    (\<lambda>_. core_runs E sh (\<lambda>k. if k \<in> set ks then Some h else mine k)) (\<lambda>_ _. False) t"
proof (rule core_runs_private [OF _ _ assms(1)])
  have "irq_ready E t" "\<And>k. k \<in> set ks \<Longrightarrow> shared_irq_handlers t k = None" "my_private E t = mine"
    using assms by (auto simp: core_runs_def os_ready_def)
  from prv.ins_all [of E t ks h, OF this(1,2)] this(3)
  show "wpre (for_each ks (\<lambda>k. bind_io (set_private_irq_handler E k h) (\<lambda>_. return_io ())))
     (\<lambda>_ t'. my_private E t' = (\<lambda>k. if k \<in> set ks then Some h else mine k) \<and> irq_ready E t') (\<lambda>_ _. False) t"
    by (auto elim!: wpre_mono)
qed (intro pvo.returns_for_each pvo.returns_bind private_only_set keeps_returns pvo.keeps_return)

lemma core_runs_unregister:
  assumes "core_runs E sh mine t"
  shows "wpre (for_each ks (\<lambda>k. bind_io (remove_private_irq_handler E k) (\<lambda>_. return_io ())))
    (\<lambda>_. core_runs E sh (\<lambda>k. if k \<in> set ks then None else mine k)) (\<lambda>_ _. False) t"
proof (rule core_runs_private [OF _ _ assms])
  have "irq_ready E t" "my_private E t = mine"
    using assms by (auto simp: core_runs_def os_ready_def)
  from prv.rem_all [of E t ks, OF this(1)] this(2)
  show "wpre (for_each ks (\<lambda>k. bind_io (remove_private_irq_handler E k) (\<lambda>_. return_io ())))
     (\<lambda>_ t'. my_private E t' = (\<lambda>k. if k \<in> set ks then None else mine k) \<and> irq_ready E t') (\<lambda>_ _. False) t"
    by (auto elim!: wpre_mono)
qed (intro pvo.returns_for_each pvo.returns_bind private_only_remove keeps_returns pvo.keeps_return)

lemma core_runs_wait:
  assumes "console_ok E" and t: "core_runs E sh mine t"
    and ack: "\<And>h. pending h \<Longrightarrow> \<exists>k. ack_reply E h = Some k \<and> (mine k \<noteq> None \<or> sh k \<noteq> None)"
  shows "wpre (wait_for_irq (take_irq E b pending)) (\<lambda>_. core_runs E sh mine) (\<lambda>_ _. False) t"
proof -
  let ?t = "t\<lparr>trace := trace t @ [Cpu Wfi]\<rparr>"
  have "os_ready E ?t" using t by (simp add: core_runs_def)
  moreover have "\<exists>k. ack_reply E (trace ?t) = Some k \<and> (my_private E ?t k \<noteq> None \<or> shared_irq_handlers ?t k \<noteq> None)"
    if "pending (trace ?t)"
    using ack [OF that] t by (simp add: core_runs_def)
  ultimately obtain t' where "take_irq E b pending ?t = (Inr (), t')" "handled ?t t'" "os_ready E t'"
    using take_irq_returns [OF assms(1), of ?t pending b] by blast
  with t show ?thesis
    by (simp add: wait_for_irq_def wp wpre_def core_runs_def handled_same)
qed

lemma core_runs_off:
  assumes "core_runs E sh mine t" and "\<And>h c. cpu_off_reply E h c = None"
  shows "wpre (bind_io smc_for_psci (\<lambda>smc. bind_io (if smc then cpu_off E Smc else cpu_off E Hvc) (\<lambda>r. lift_io (unwrap r))))
    (\<lambda>_ _. False)
    (\<lambda>e u. e = Powered_off \<and> core_runs E sh mine u \<and> (\<exists>c. last (trace u) = Psci (Psci_cpu_off c))) t"
  using assms by (auto simp: wp split: option.split)

text \<open>C8: another core, once started, takes its interrupts and ends by powering itself off: whatever interrupt it
  is woken by, its entry function does not panic, deadlock or return, and when the firmware switches the core off
  its handlers for the software generated interrupts are removed and the other entries of the tables are as
  before. Assumed: writes to the console and calls of the interrupt controller's driver succeed; console and handler
  tables can be used by the core and the controller's lock is free; no software generated interrupt has a shared
  handler; every interrupt taken is software generated or has a handler; and the firmware switches the core off.\<close>

theorem secondary_entry_powers_off:
  assumes ok: "console_ok E" "gic_ok E" and off: "\<And>h c. cpu_off_reply E h c = None"
    and s: "os_ready E s" "gic_set s" "GIC_lock \<notin> set (held s)"
    and free: "\<forall>k\<in>set (sgi_ids E). shared_irq_handlers s k = None"
    and ack: "\<And>h. pending h \<Longrightarrow> \<exists>k. ack_reply E h = Some k \<and>
      (k \<in> set (sgi_ids E) \<or> my_private E s k \<noteq> None \<or> shared_irq_handlers s k \<noteq> None)"
  shows "\<exists>t c. secondary_entry E (take_irq E b pending) arg s = (Inl Powered_off, t) \<and>
    my_private E t = (\<lambda>k. if k \<in> set (sgi_ids E) then None else my_private E s k) \<and>
    shared_irq_handlers t = shared_irq_handlers s \<and> last (trace t) = Psci (Psci_cpu_off c)"
proof -
  let ?sh = "shared_irq_handlers s" and ?mine = "my_private E s"
  let ?reg = "\<lambda>k. if k \<in> set (sgi_ids E) then Some Secondary_irq_handler else ?mine k"
  let ?gone = "\<lambda>k. if k \<in> set (sgi_ids E) then None else ?mine k"
  have 0: "core_runs E ?sh ?mine s" using s by (simp add: core_runs_def)
  obtain i where i: "current_cpu_index_in E (FDT s) = Inr i"
    using s(1) by (auto simp: os_ready_def irq_ready_def core_at_def)
  have en: "wpre (enable_sgis E i) (\<lambda>_. core_runs E ?sh ?mine) (\<lambda>_ _. False) t"
    if "core_runs E ?sh ?mine t" for t
  proof -
    have "gic_set t" "GIC_lock \<notin> set (held t)" using that by (simp_all add: core_runs_def)
    from enable_sgis_run [OF ok(2) this] that show ?thesis by (simp add: wpre_def)
  qed
  have wake: "\<exists>k. ack_reply E h = Some k \<and> (?reg k \<noteq> None \<or> ?sh k \<noteq> None)" if "pending h" for h
    using ack [OF that] by auto
  have un: "wpre (for_each (sgi_ids E) (\<lambda>k. bind_io (remove_private_irq_handler E k) (\<lambda>_. return_io ())))
    (\<lambda>_. core_runs E ?sh ?gone) (\<lambda>_ _. False) t" if "core_runs E ?sh ?reg t" for t
    using core_runs_unregister [OF that, of "sgi_ids E"] by (rule wpre_mono) (auto simp: if_distrib cong: if_cong)
  have "wpre (secondary_entry E (take_irq E b pending) arg) (\<lambda>_ _. False)
    (\<lambda>e u. e = Powered_off \<and> core_runs E ?sh ?gone u \<and> (\<exists>c. last (trace u) = Psci (Psci_cpu_off c))) s"
    unfolding secondary_entry_def
    by (subst wpre_bind, unfold wpre_current_cpu_index i sum.case wpre_block_Cons, rule wpre_then [OF core_runs_log [OF ok(1) 0]], rule wpre_then [OF en], assumption,
        rule wpre_then [OF core_runs_register [OF _ free]], assumption,
        rule wpre_then [OF core_runs_enable], assumption,
        rule wpre_then [OF core_runs_log [OF ok(1)]], assumption,
        rule wpre_then [OF core_runs_wait [OF ok(1)]], assumption, erule wake,
        rule wpre_then [OF core_runs_log [OF ok(1)]], assumption,
        rule wpre_then [OF un], assumption,
        rule wpre_mono [OF core_runs_off [OF _ off]], assumption) simp_all
  then show ?thesis by (auto simp: core_runs_def elim!: wpre_cases)
qed


section \<open>Concrete runs\<close>

lemma ex_os_ready: "os_ready ex_pt_env ex_alarm_state" "console_ok ex_pt_env" "gic_ok ex_pt_env"
  using ex_alarm_ready by (simp_all add: os_ready_def console_ok_def gic_ok_def) (simp_all add: ex_alarm_state_def ex_pt_env_def)

lemma ex_sgi: "Sgi 0 \<in> set (sgi_ids ex_pt_env)" "ack_reply ex_pt_env h = Some (Sgi 0)"
  by (auto simp: sgi_ids_def ex_pt_env_def image_iff intro!: bexI [of _ 0])

theorem take_irq_transparent_witness:
  "\<exists>t. take_irq ex_pt_env Qemu (\<lambda>_. True) (ex_alarm_state\<lparr>shared_irq_handlers := [Sgi 0 \<mapsto> Alarm_irq_handle]\<rparr>) = (Inr (), t) \<and>
     handled (ex_alarm_state\<lparr>shared_irq_handlers := [Sgi 0 \<mapsto> Alarm_irq_handle]\<rparr>) t \<and> os_ready ex_pt_env t"
proof (rule take_irq_transparent)
  show "os_ready ex_pt_env (ex_alarm_state\<lparr>shared_irq_handlers := [Sgi 0 \<mapsto> Alarm_irq_handle]\<rparr>)"
    using ex_os_ready(1) by (simp add: os_ready_def irq_ready_def)
qed (auto simp: ex_os_ready ex_sgi)

theorem secondary_entry_powers_off_witness:
  "\<exists>t. secondary_entry ex_pt_env (take_irq ex_pt_env Qemu (\<lambda>_. True)) 7 ex_alarm_state = (Inl Powered_off, t)"
proof -
  have 1: "gic_set ex_alarm_state" "GIC_lock \<notin> set (held ex_alarm_state)"
    "\<forall>k\<in>set (sgi_ids ex_pt_env). shared_irq_handlers ex_alarm_state k = None"
    by (simp_all add: ex_alarm_state_def)
  have 2: "cpu_off_reply ex_pt_env h c = None" for h c by (simp add: ex_pt_env_def)
  have 3: "\<exists>k. ack_reply ex_pt_env h = Some k \<and> (k \<in> set (sgi_ids ex_pt_env) \<or>
      my_private ex_pt_env ex_alarm_state k \<noteq> None \<or> shared_irq_handlers ex_alarm_state k \<noteq> None)" for h
    using ex_sgi by blast
  from secondary_entry_powers_off [OF ex_os_ready(2,3) 2 ex_os_ready(1) 1, where pending = "\<lambda>_. True", OF 3]
  show ?thesis by blast
qed

definition ex_heap :: stack_heap where
  "ex_heap h = find (\<lambda>p. list_all (\<lambda>e. case e of
       Psci (Alloc_stack q) \<Rightarrow> unat p + 0x4000 \<le> unat q \<or> unat q + 0x4000 \<le> unat p | _ \<Rightarrow> True) h) [0x1000, 0x5000]"

definition ex_sec_state :: "irq_handler sec_state" where
  "ex_sec_state = \<lparr>trace = [], held = [], masked = False, console_set = True, logger = Some Debug,
     FDT = Some ex_fdt, shared_irq_handlers = Map.empty, private_irq_handlers = None, private_borrowed = False,
     gic_set = True, PAGETABLE = None, ALARM_FIRED = False, SECONDARY_STACKS = Map.empty\<rparr>"

definition ex_started :: "u64 \<Rightarrow> u64 \<Rightarrow> irq_handler sec_state" where
  "ex_started m m' = snd (start_core_with_stack ex_pt_env ex_heap m'
     (snd (start_core_with_stack ex_pt_env ex_heap m ex_sec_state)))"

lemma ex_starts:
  "core_starts ex_pt_env ex_heap ex_sec_state (ex_started 0 1)"
  "set (trace (ex_started 0 1)) = {Psci (Alloc_stack 0x1000), Psci (Psci_cpu_on Hvc 0 0x1000),
     Psci (Alloc_stack 0x5000), Psci (Psci_cpu_on Hvc 1 0x5000)}"
proof -
  let ?t = "snd (start_core_with_stack ex_pt_env ex_heap 0 ex_sec_state)"
  note defs = start_core_with_stack_def get_secondary_stack_def secondary_stack_default_def start_core_def
    with_lock_def acquire_def release_def smc_for_psci_def smc_for_psci_fdt_def ex_heap_def runs ex_fdt_def ex_sec_state_def
  have 1: "start_core_with_stack ex_pt_env ex_heap 0 ex_sec_state = (Inr (Inr ()), ?t)"
    by (simp add: defs) (simp add: ex_pt_env_def)
  have 2: "start_core_with_stack ex_pt_env ex_heap 1 ?t = (Inr (Inr ()), ex_started 0 1)"
    by (simp add: defs ex_started_def) (simp add: ex_pt_env_def)
  show "core_starts ex_pt_env ex_heap ex_sec_state (ex_started 0 1)"
    using core_starts.cs_start [OF core_starts.cs_start [OF core_starts.cs_none 1] 2] .
  show "set (trace (ex_started 0 1)) = {Psci (Alloc_stack 0x1000), Psci (Psci_cpu_on Hvc 0 0x1000),
     Psci (Alloc_stack 0x5000), Psci (Psci_cpu_on Hvc 1 0x5000)}"
    by (auto simp: defs ex_started_def)
qed

theorem core_stacks_unique_witness:
  "stack_block 4096 0x1000 \<inter> stack_block 4096 0x5000 = {} \<and> heap_apart 4096 ex_heap \<and> core_starts ex_pt_env ex_heap ex_sec_state (ex_started 0 1)"
proof -
  have f: "heap_apart 4096 ex_heap"
    unfolding heap_apart_def
  proof (intro allI impI)
    fix h p q assume "ex_heap h = Some p \<and> Psci (Alloc_stack q) \<in> set h"
    then have "unat p + 0x4000 \<le> unat q \<or> unat q + 0x4000 \<le> unat p"
      by (auto simp: ex_heap_def find_Some_iff list_all_iff split: if_splits)
    then show "stack_block 4096 p \<inter> stack_block 4096 q = {}"
      by (auto simp: stack_block_def SECONDARY_STACK_PAGE_COUNT_def)
  qed
  have "if 0 = (1 :: u64) then 0x1000 = (0x5000 :: u64) else stack_block 4096 0x1000 \<inter> stack_block 4096 0x5000 = {}"
    by (rule core_stacks_unique [OF f ex_starts(1), where c = Hvc and c' = Hvc])
      (simp_all add: ex_starts(2), simp_all add: ex_sec_state_def)
  then have "stack_block 4096 0x1000 \<inter> stack_block 4096 0x5000 = {}" by simp
  with f ex_starts(1) show ?thesis by blast
qed

end
