(* ===== verification/Cpu_Apps.thy ===== *)
theory Cpu_Apps
  imports Secondary
begin

text \<open>
  The commands of apps/cpus.rs that run on the shell's core: \<^verbatim>\<open>start_cpu\<close>, \<^verbatim>\<open>cpus\<close> and \<^verbatim>\<open>sgi\<close>. What a started
  core runs is in the theory of the secondary entry point.
\<close>

section \<open>Definitions\<close>

definition start_cpu_usage :: "'e con_env_scheme \<Rightarrow> ('s io_state_scheme, unit) io" where
  "start_cpu_usage E =
     bind_io (con_fmt E ''Usage:'' []) (\<lambda>_.
     con_fmt E ''  start_cpu <cpu_index> <arg>'' [])"

text \<open>The state of a core, asked for over the conduit that the device tree names.\<close>

definition cpu_state ::
  "'e psci_env_scheme \<Rightarrow> u64 \<Rightarrow> ('s boot_state_scheme, affinity_state) io" where
  "cpu_state E mpidr =
     bind_io smc_for_psci (\<lambda>smc.
     if smc then affinity_info E Smc mpidr Aff_all else affinity_info E Hvc mpidr Aff_all)"

definition result_arg :: "psci_error + unit \<Rightarrow> arg" where
  "result_arg r = (case r of Inl e \<Rightarrow> A_fmt ''Err({:?})'' [] | Inr _ \<Rightarrow> A_str ''Ok(())'')"

definition start_cpu ::
  "'e psci_env_scheme \<Rightarrow> stack_heap \<Rightarrow> fdt \<Rightarrow> u8 list list \<Rightarrow> (('h, 's) sec_state_scheme, unit) io" where
  "start_cpu E heap fdt args =
     (case next_opt args of
        None \<Rightarrow> start_cpu_usage E
      | Some cpu_index \<Rightarrow>
     (case parse_usize cpu_index of
        None \<Rightarrow> con_fmt E ''Invalid cpu_index'' []
      | Some cpu_index \<Rightarrow>
     (case next_opt (drop 1 args) of
        None \<Rightarrow> start_cpu_usage E
      | Some arg \<Rightarrow>
     (case parse_u64 arg of
        None \<Rightarrow> con_fmt E ''Invalid arg'' []
      | Some arg \<Rightarrow>
          bind_io (lift_io (unwrap (fdt_cpus fdt))) (\<lambda>cpus.
          case next_opt (drop cpu_index cpus) of
            None \<Rightarrow> con_fmt E ''cpu_index out of bounds'' []
          | Some cpu \<Rightarrow>
              bind_io (lift_io (cpu_id cpu)) (\<lambda>id.
              bind_io (con_fmt E ''CPU {cpu_index}: ID {id:#012x}'' [A_nat cpu_index, A_u64 id]) (\<lambda>_.
              bind_io (cpu_state E id) (\<lambda>state.
              if state = Aff_off then
                bind_io (start_core_with_stack E heap id) (\<lambda>result.
                con_fmt E '' => {result:?}'' [result_arg result])
              else con_fmt E '' already {state:?}'' [A_affinity state]))))))))"

text \<open>\<^verbatim>\<open>MpidrEl1::contains\<close>.\<close>

definition contains_flag :: "u64 \<Rightarrow> u64 \<Rightarrow> bool" where
  "contains_flag bits flag \<longleftrightarrow> bits AND flag = flag"

definition cpu_levels ::
  "'e psci_env_scheme \<Rightarrow> conduit \<Rightarrow> u64 \<Rightarrow> ('s io_state_scheme, unit) io" where
  "cpu_levels E c mpidr =
     bind_io (affinity_info E c mpidr Aff_all) (\<lambda>a.
     bind_io (affinity_info E c mpidr Aff0_ignored) (\<lambda>b.
     bind_io (affinity_info E c mpidr Aff0_aff1_ignored) (\<lambda>d.
     bind_io (affinity_info E c mpidr Aff0_aff1_aff2_ignored) (\<lambda>e.
     con_fmt E ''  affinity state {:?} {:?} {:?} {:?}'' [A_affinity a, A_affinity b, A_affinity d, A_affinity e]))))"

definition cpus :: "'e psci_env_scheme \<Rightarrow> fdt \<Rightarrow> ('s boot_state_scheme, unit) io" where
  "cpus E fdt =
     bind_io smc_for_psci (\<lambda>smc_for_psci.
     bind_io (if smc_for_psci then psci_version E Smc else psci_version E Hvc) (\<lambda>version.
     bind_io (con_fmt E ''PSCI version {}'' [A_nat version]) (\<lambda>_.
     let mpidr = mpidr_el1 E;
         uniprocessor = contains_flag mpidr (MpidrEl1_U E);
         multithreading = contains_flag mpidr (MpidrEl1_MT E);
         current_cpu = mpidr AND MPIDR_AFFINITY_MASK
     in
     bind_io (con_fmt E ''MPIDR {mpidr:#012x}: uniprocessor {uniprocessor}, multithreading {multithreading}''
       [A_u64 mpidr, A_bool uniprocessor, A_bool multithreading]) (\<lambda>_.
     bind_io (if smc_for_psci then affinity_info E Smc current_cpu Aff_all
              else affinity_info E Hvc current_cpu Aff_all) (\<lambda>state.
     bind_io (con_fmt E ''Current CPU {:#012x} affinity state {:?}''
       [A_u64 current_cpu, A_affinity state]) (\<lambda>_.
     bind_io (lift_io (unwrap (fdt_cpus fdt))) (\<lambda>cpus.
     for_each (List.enumerate 0 cpus) (\<lambda>(i, cpu).
       bind_io (lift_io (cpu_id cpu)) (\<lambda>id.
       bind_io (con_fmt E ''CPU {i}: ID {id:#012x}'' [A_nat i, A_u64 id]) (\<lambda>_.
       if smc_for_psci then cpu_levels E Smc id else cpu_levels E Hvc id))))))))))"

text \<open>\<^verbatim>\<open>IntId::sgi\<close>, which asserts its argument.\<close>

definition int_id_sgi :: "'e irq_env_scheme \<Rightarrow> u32 \<Rightarrow> intid res" where
  "int_id_sgi E i =
     rbind (require (Assert_failed ''sgi < Self::SGI_COUNT'') (i < SGI_COUNT E)) (\<lambda>_.
     Inr (Sgi i))"

definition sgi :: "'e irq_env_scheme \<Rightarrow> u8 list list \<Rightarrow> ('s io_state_scheme, unit) io" where
  "sgi E args =
     (case next_opt args of
        None \<Rightarrow>
          bind_io (con_fmt E ''Usage:'' []) (\<lambda>_.
          con_fmt E ''  sgi <id>'' [])
      | Some word \<Rightarrow>
     (case parse_u32 word of
        None \<Rightarrow> con_fmt E ''Invalid id'' []
      | Some i \<Rightarrow>
          if SGI_COUNT E \<le> i then
            con_fmt E ''Invalid SGI, must be less than {}'' [A_u32 (SGI_COUNT E)]
          else
            bind_io (lift_io (int_id_sgi E i)) (\<lambda>intid.
            bind_io (con_fmt E ''Sending {intid:?} to all CPUs'' [A_intid intid]) (\<lambda>_.
            gic_call E (Gicc_send_sgi intid SgiTarget_All CurrentGroup1)))))"

section \<open>What the commands ask of the firmware and of the interrupt controller\<close>

fun psci_events :: "event list \<Rightarrow> psci_event list" where
  "psci_events [] = []"
| "psci_events (Psci e # es) = e # psci_events es"
| "psci_events (_ # es) = psci_events es"

lemma psci_events_append [simp]: "psci_events (xs @ ys) = psci_events xs @ psci_events ys"
  by (induction xs rule: psci_events.induct) simp_all

lemma con_fmt_psci: "con_fmt E lit args s = (Inr u, t) \<Longrightarrow> psci_events (trace t) = psci_events (trace s)"
  by (drule con_fmt_state) simp

lemma con_fmt_stacks: "con_fmt E lit args s = (Inr u, t) \<Longrightarrow> SECONDARY_STACKS t = SECONDARY_STACKS s"
  by (drule con_fmt_state) simp

lemma smc_for_psci_state: "smc_for_psci s = (Inr b, t) \<longleftrightarrow> t = s \<and> b = (off_conduit s = Smc)"
  by (auto simp: smc_for_psci_def off_conduit_def psci_conduit_def rets)

lemma affinity_info_returned:
  "affinity_info E c m lvl s = (Inr a, t) \<longleftrightarrow>
     affinity_reply E (trace s) c m lvl = Inr a \<and> t = s\<lparr>trace := trace s @ [Psci (Psci_affinity_info c m lvl)]\<rparr>"
  by (auto simp: affinity_info_def rets)


text \<open>The core that the arguments of \<^verbatim>\<open>start_cpu\<close> name.\<close>

definition start_target :: "fdt \<Rightarrow> u8 list list \<Rightarrow> u64 option" where
  "start_target fdt args =
     (case args of
        w # w' # _ \<Rightarrow>
          (case (parse_usize w, parse_u64 w', fdt_cpus fdt) of
             (Some i, Some _, Inr nodes) \<Rightarrow>
               if i < length nodes then (case cpu_id (nodes ! i) of Inl _ \<Rightarrow> None | Inr m \<Rightarrow> Some m) else None
           | _ \<Rightarrow> None)
      | _ \<Rightarrow> None)"

lemma next_opt_drop [simp]: "next_opt (drop n xs) = (if n < length xs then Some (xs ! n) else None)"
  by (cases "n < length xs") (simp_all add: Cons_nth_drop_Suc [symmetric])

lemma usage_psci: "start_cpu_usage E s = (Inr u, t) \<Longrightarrow> psci_events (trace t) = psci_events (trace s)"
  by (auto simp: start_cpu_usage_def rets_bind dest!: con_fmt_state)

lemma cpu_state_returned:
  "cpu_state E m s = (Inr a, t) \<longleftrightarrow>
     affinity_reply E (trace s) (off_conduit s) m Aff_all = Inr a \<and>
     t = s\<lparr>trace := trace s @ [Psci (Psci_affinity_info (off_conduit s) m Aff_all)]\<rparr>"
  by (cases "off_conduit s") (auto simp: cpu_state_def rets_bind smc_for_psci_state affinity_info_returned)

lemma start_core_conduit:
  assumes "start_core_with_stack E heap m s = (Inr r, t)"
  shows "\<exists>p. SECONDARY_STACKS t m = Some p \<and> psci_events (trace t) = psci_events (trace s) @
    (if SECONDARY_STACKS s m = None then [Alloc_stack p] else []) @ [Psci_cpu_on (off_conduit s) m p]"
proof -
  have c: "(if off_conduit u = Smc then start_core E Smc m p else start_core E Hvc m p) = start_core E (off_conduit u) m p" for u p
    by (cases "off_conduit u") simp_all
  from assms obtain p u where get: "get_secondary_stack heap m s = (Inr p, u)"
    and on: "start_core E (off_conduit u) m p u = (Inr r, t)"
    unfolding start_core_with_stack_def rets_bind smc_for_psci_state by (auto simp: c)
  from get_secondary_stack_returned [OF get] on show ?thesis
    by (auto simp: start_core_def rets off_conduit_def)
qed

lemma start_cpu_no_target:
  assumes "start_cpu E heap fdt args s = (Inr u, t)" and "start_target fdt args = None"
  shows "psci_events (trace t) = psci_events (trace s)"
proof -
  have "start_target fdt args = None \<Longrightarrow> ?thesis"
    using assms(1)
    by (auto simp: start_cpu_def start_target_def rets_bind rets_lift next_opt_drop
        dest!: usage_psci con_fmt_psci split: option.splits list.splits if_splits sum.splits)
  with assms(2) show ?thesis by blast
qed


text \<open>The firmware queries of \<^verbatim>\<open>cpus\<close>.\<close>

definition level_queries :: "conduit \<Rightarrow> u64 \<Rightarrow> psci_event list" where
  "level_queries c m = map (Psci_affinity_info c m) [Aff_all, Aff0_ignored, Aff0_aff1_ignored, Aff0_aff1_aff2_ignored]"

definition only_trace :: "'s io_state_scheme \<Rightarrow> psci_event list \<Rightarrow> 's io_state_scheme \<Rightarrow> bool" where
  "only_trace s es t \<longleftrightarrow> t = s\<lparr>trace := trace t\<rparr> \<and> psci_events (trace t) = psci_events (trace s) @ es"

lemma only_trace_con: "con_fmt E lit args s = (Inr u, t) \<Longrightarrow> only_trace s [] t"
  by (drule con_fmt_state) (simp add: only_trace_def)

lemma only_trace_affinity: "affinity_info E c m lvl s = (Inr a, t) \<Longrightarrow> only_trace s [Psci_affinity_info c m lvl] t"
  by (simp add: affinity_info_returned only_trace_def)

lemma only_trace_version: "psci_version E c s = (Inr v, t) \<Longrightarrow> only_trace s [Psci_version c] t"
  by (auto simp: psci_version_def rets only_trace_def)

lemma only_trace_trans:
  assumes "only_trace s es t" and "only_trace t fs u"
  shows "only_trace s (es @ fs) u"
proof -
  have "u = (s\<lparr>trace := trace t\<rparr>)\<lparr>trace := trace u\<rparr>" using assms unfolding only_trace_def by simp
  then show ?thesis using assms by (simp add: only_trace_def)
qed

lemma cpu_levels_queries:
  assumes "cpu_levels E c m s = (Inr u, t)"
  shows "only_trace s (level_queries c m) t"
proof -
  from assms obtain a b d e s1 s2 s3 s4 where
    "affinity_info E c m Aff_all s = (Inr a, s1)" "affinity_info E c m Aff0_ignored s1 = (Inr b, s2)"
    "affinity_info E c m Aff0_aff1_ignored s2 = (Inr d, s3)"
    "affinity_info E c m Aff0_aff1_aff2_ignored s3 = (Inr e, s4)"
    "con_fmt E ''  affinity state {:?} {:?} {:?} {:?}'' [A_affinity a, A_affinity b, A_affinity d, A_affinity e] s4 = (Inr u, t)"
    unfolding cpu_levels_def rets_bind by blast
  then have "only_trace s ([Psci_affinity_info c m Aff_all] @ [Psci_affinity_info c m Aff0_ignored] @
      [Psci_affinity_info c m Aff0_aff1_ignored] @ [Psci_affinity_info c m Aff0_aff1_aff2_ignored] @ []) t"
    by (intro only_trace_trans) (rule only_trace_affinity only_trace_con, assumption)+
  then show ?thesis by (simp add: level_queries_def)
qed

lemma cpus_loop_queries:
  assumes "for_each (List.enumerate k nodes) (\<lambda>(i, cpu).
       bind_io (lift_io (cpu_id cpu)) (\<lambda>id.
       bind_io (con_fmt E ''CPU {i}: ID {id:#012x}'' [A_nat i, A_u64 id]) (\<lambda>_.
       if smc then cpu_levels E Smc id else cpu_levels E Hvc id))) s = (Inr u, t)"
  shows "\<exists>ids. map cpu_id nodes = map Inr ids \<and>
    only_trace s (concat (map (level_queries (psci_conduit smc)) ids)) t"
  using assms
proof (induction nodes arbitrary: k s)
  case Nil
  then show ?case by (auto simp: rets only_trace_def)
next
  case (Cons node nodes)
  from Cons.prems obtain m s1 s2 where m: "cpu_id node = Inr m"
    and 1: "con_fmt E ''CPU {i}: ID {id:#012x}'' [A_nat k, A_u64 m] s = (Inr (), s1)"
    and 2: "cpu_levels E (psci_conduit smc) m s1 = (Inr (), s2)"
    and 3: "for_each (List.enumerate (Suc k) nodes) (\<lambda>(i, cpu).
       bind_io (lift_io (cpu_id cpu)) (\<lambda>id.
       bind_io (con_fmt E ''CPU {i}: ID {id:#012x}'' [A_nat i, A_u64 id]) (\<lambda>_.
       if smc then cpu_levels E Smc id else cpu_levels E Hvc id))) s2 = (Inr u, t)"
    by (cases smc) (auto simp: rets_bind rets_lift psci_conduit_def)
  from Cons.IH [OF 3] obtain ids where ids: "map cpu_id nodes = map Inr ids"
    "only_trace s2 (concat (map (level_queries (psci_conduit smc)) ids)) t" by blast
  have "only_trace s ([] @ level_queries (psci_conduit smc) m @ concat (map (level_queries (psci_conduit smc)) ids)) t"
    using only_trace_trans [OF only_trace_con [OF 1] only_trace_trans [OF cpu_levels_queries [OF 2] ids(2)]] .
  with m ids(1) show ?case by (intro exI [of _ "m # ids"]) simp
qed

text \<open>C18: \<^verbatim>\<open>start_cpu\<close> asks the firmware about the core that its arguments name, and for no other core; it starts
  that core exactly when the firmware says that it is off, on the stack kept for it, and over the conduit that
  the device tree names. With arguments that name no core the firmware is not called at all.\<close>

theorem start_cpu_starts:
  assumes "start_cpu E heap fdt args s = (Inr u, t)"
  shows "\<exists>h p. psci_events (trace t) = psci_events (trace s) @
    (case start_target fdt args of
       None \<Rightarrow> []
     | Some m \<Rightarrow> Psci_affinity_info (off_conduit s) m Aff_all #
         (if affinity_reply E h (off_conduit s) m Aff_all = Inr Aff_off
          then (if SECONDARY_STACKS s m = None then [Alloc_stack p] else []) @ [Psci_cpu_on (off_conduit s) m p]
          else [])) \<and>
    (\<forall>m. start_target fdt args = Some m \<and> affinity_reply E h (off_conduit s) m Aff_all = Inr Aff_off \<longrightarrow>
       SECONDARY_STACKS t m = Some p)"
proof (cases "start_target fdt args")
  case None
  with start_cpu_no_target [OF assms] show ?thesis by simp
next
  case (Some m)
  then obtain w w' rest i a nodes where args: "args = w # w' # rest" "parse_usize w = Some i" "parse_u64 w' = Some a"
    "fdt_cpus fdt = Inr nodes" "i < length nodes" "cpu_id (nodes ! i) = Inr m"
    by (auto simp: start_target_def split: list.splits option.splits sum.splits if_splits)
  let ?s = "s\<lparr>trace := trace s @ [Con (Con_fmt ''CPU {cpu_index}: ID {id:#012x}'' [A_nat i, A_u64 m])]\<rparr>"
  let ?c = "off_conduit s"
  let ?s' = "?s\<lparr>trace := trace ?s @ [Psci (Psci_affinity_info ?c m Aff_all)]\<rparr>"
  from assms args obtain state where state: "affinity_reply E (trace ?s) ?c m Aff_all = Inr state"
    and rest: "(if state = Aff_off then bind_io (start_core_with_stack E heap m) (\<lambda>result.
        con_fmt E '' => {result:?}'' [result_arg result])
      else con_fmt E '' already {state:?}'' [A_affinity state]) ?s' = (Inr u, t)"
    by (auto simp: start_cpu_def rets_bind rets_lift cpu_state_returned dest!: con_fmt_state)
  show ?thesis
  proof (cases "state = Aff_off")
    case True
    with rest obtain r v where v: "start_core_with_stack E heap m ?s' = (Inr r, v)"
      and t: "t = v\<lparr>trace := trace v @ [Con (Con_fmt '' => {result:?}'' [result_arg r])]\<rparr>"
      by (auto simp: rets_bind dest!: con_fmt_state)
    from start_core_conduit [OF v] t True state show ?thesis
      by (auto simp: Some intro!: exI [of _ "trace ?s"])
  next
    case False
    with rest have "psci_events (trace t) = psci_events (trace ?s')" by (auto dest: con_fmt_psci)
    with False state show ?thesis by (auto simp: Some intro!: exI [of _ "trace ?s"])
  qed
qed

text \<open>C19: \<^verbatim>\<open>sgi\<close> sends the interrupt that its argument names, once, with the target \<^verbatim>\<open>SgiTarget::All\<close> and in the group
  \<^verbatim>\<open>CurrentGroup1\<close>, exactly when the number is below the number of software generated interrupts; otherwise nothing is
  sent. Nothing but the record of what happened changes. With a console that works and whose lock is free the
  assertion of \<^verbatim>\<open>IntId::sgi\<close> never fails, and the only panic is a refusal by the interrupt controller.\<close>

theorem sgi_sends:
  assumes "console_ok E" and "CONSOLE_lock \<notin> set (held s)"
  shows "wpre (sgi E args)
    (\<lambda>_ t. t = s\<lparr>trace := trace t\<rparr> \<and>
       filter (\<lambda>e. \<exists>i x g. e = Gic (Gicc_send_sgi i x g)) (drop (length (trace s)) (trace t)) =
       (case args of
          w # _ \<Rightarrow> (case parse_u32 w of
             Some i \<Rightarrow> if i < SGI_COUNT E then [Gic (Gicc_send_sgi (Sgi i) SgiTarget_All CurrentGroup1)] else []
           | None \<Rightarrow> [])
        | [] \<Rightarrow> []))
    (\<lambda>e t. e = Panic Unwrap_err \<and> (\<exists>h i x. gic_reply E h (Gicc_send_sgi (Sgi i) SgiTarget_All CurrentGroup1) = Inl x \<and> i < SGI_COUNT E)) s"
  using assms
  by (auto simp: sgi_def wp console_okD int_id_sgi_def not_le split: option.split list.split sum.split)

text \<open>C34: \<^verbatim>\<open>cpus\<close> only looks: it asks the firmware for its version, for the state of the running core, and for the state
  of every core of the device tree at each of the four affinity levels, in the order of the device tree, and
  changes nothing.\<close>

theorem cpus_queries:
  assumes "cpus E fdt s = (Inr u, t)"
  shows "\<exists>nodes ids. fdt_cpus fdt = Inr nodes \<and> map cpu_id nodes = map Inr ids \<and> t = s\<lparr>trace := trace t\<rparr> \<and>
    psci_events (trace t) = psci_events (trace s) @
      [Psci_version (off_conduit s), Psci_affinity_info (off_conduit s) (mpidr_el1 E AND MPIDR_AFFINITY_MASK) Aff_all] @
      concat (map (level_queries (off_conduit s)) ids)"
proof -
  let ?c = "off_conduit s" and ?me = "mpidr_el1 E AND MPIDR_AFFINITY_MASK"
  have v: "(if ?c = Smc then psci_version E Smc else psci_version E Hvc) = psci_version E ?c" by (cases ?c) simp_all
  have a: "(if ?c = Smc then affinity_info E Smc ?me Aff_all else affinity_info E Hvc ?me Aff_all) =
      affinity_info E ?c ?me Aff_all" by (cases ?c) simp_all
  have p: "psci_conduit (?c = Smc) = ?c" by (cases ?c) (simp_all add: psci_conduit_def)
  from assms obtain r s1 s2 s3 b s4 s5 nodes where steps:
      "psci_version E ?c s = (Inr r, s1)" "con_fmt E ''PSCI version {}'' [A_nat r] s1 = (Inr (), s2)"
      "con_fmt E ''MPIDR {mpidr:#012x}: uniprocessor {uniprocessor}, multithreading {multithreading}''
         [A_u64 (mpidr_el1 E), A_bool (contains_flag (mpidr_el1 E) (MpidrEl1_U E)),
          A_bool (contains_flag (mpidr_el1 E) (MpidrEl1_MT E))] s2 = (Inr (), s3)"
      "affinity_info E ?c ?me Aff_all s3 = (Inr b, s4)"
      "con_fmt E ''Current CPU {:#012x} affinity state {:?}'' [A_u64 ?me, A_affinity b] s4 = (Inr (), s5)"
    and nodes: "fdt_cpus fdt = Inr nodes"
    and loop: "for_each (List.enumerate 0 nodes) (\<lambda>(i, cpu).
       bind_io (lift_io (cpu_id cpu)) (\<lambda>id.
       bind_io (con_fmt E ''CPU {i}: ID {id:#012x}'' [A_nat i, A_u64 id]) (\<lambda>_.
       if ?c = Smc then cpu_levels E Smc id else cpu_levels E Hvc id))) s5 = (Inr u, t)"
    unfolding cpus_def Let_def rets_bind rets_lift smc_for_psci_state
    by (elim exE conjE) (simp add: v a)
  from cpus_loop_queries [OF loop] obtain ids where ids: "map cpu_id nodes = map Inr ids"
    "only_trace s5 (concat (map (level_queries ?c) ids)) t" by (auto simp: p)
  have "only_trace s ([Psci_version ?c] @ [] @ [] @ [Psci_affinity_info ?c ?me Aff_all] @ [] @
      concat (map (level_queries ?c) ids)) t"
    using only_trace_trans [OF only_trace_version [OF steps(1)] only_trace_trans [OF only_trace_con [OF steps(2)]
      only_trace_trans [OF only_trace_con [OF steps(3)] only_trace_trans [OF only_trace_affinity [OF steps(4)]
      only_trace_trans [OF only_trace_con [OF steps(5)] ids(2)]]]]] .
  with nodes ids(1) show ?thesis by (auto simp: only_trace_def)
qed


section \<open>Concrete runs\<close>

definition ex_start :: "irq_handler sec_state" where
  "ex_start = snd (start_cpu ex_pt_env ex_heap ex_fdt [[0x31], [0x37]] ex_sec_state)"

lemma ex_start_run: "start_cpu ex_pt_env ex_heap ex_fdt [[0x31], [0x37]] ex_sec_state = (Inr (), ex_start)"
  and ex_start_target: "start_target ex_fdt [[0x31], [0x37]] = Some 1"
proof -
  have p: "parse_usize [0x31] = Some 1" "parse_u64 [0x37] = Some 7"
    by (simp_all add: parse_usize_def parse_u64_def parse_unsigned_def parse_digits_def is_digit_def)
  have "affinity_reply ex_pt_env h c m l = Inr Aff_off" "cpu_on_reply ex_pt_env h c m q = Inr ()" for h c m l q
    by (simp_all add: ex_pt_env_def)
  then show "start_cpu ex_pt_env ex_heap ex_fdt [[0x31], [0x37]] ex_sec_state = (Inr (), ex_start)"
    by (simp add: ex_start_def start_cpu_def p runs cpu_state_def affinity_info_def cpu_id_def start_core_with_stack_def
      get_secondary_stack_def secondary_stack_default_def start_core_def with_lock_def acquire_def release_def
      smc_for_psci_def smc_for_psci_fdt_def ex_heap_def ex_fdt_def ex_sec_state_def)
  show "start_target ex_fdt [[0x31], [0x37]] = Some 1"
    by (simp add: start_target_def p ex_fdt_def cpu_id_def)
qed

theorem start_cpu_starts_witness:
  "\<exists>p. psci_events (trace ex_start) = [Psci_affinity_info Hvc 1 Aff_all, Alloc_stack p, Psci_cpu_on Hvc 1 p]"
proof -
  have "off_conduit ex_sec_state = Hvc" "trace ex_sec_state = []" "SECONDARY_STACKS ex_sec_state = Map.empty"
    "affinity_reply ex_pt_env h c m l = Inr Aff_off" for h c m l
    by (simp_all add: off_conduit_def ex_sec_state_def smc_for_psci_fdt_def ex_fdt_def psci_conduit_def ex_pt_env_def)
  with start_cpu_starts [OF ex_start_run] show ?thesis by (auto simp: ex_start_target)
qed

theorem sgi_sends_witness:
  "\<exists>t. sgi ex_pt_env [[0x33]] ex_sec_state = (Inr (), t) \<and>
     filter (\<lambda>e. \<exists>i x g. e = Gic (Gicc_send_sgi i x g)) (trace t) = [Gic (Gicc_send_sgi (Sgi 3) SgiTarget_All CurrentGroup1)]"
proof -
  have p: "parse_u32 [0x33] = Some 3" "3 < SGI_COUNT ex_pt_env"
    by (simp_all add: parse_u32_def parse_unsigned_def parse_digits_def is_digit_def ex_pt_env_def)
  have s: "CONSOLE_lock \<notin> set (held ex_sec_state)" "trace ex_sec_state = []" by (simp_all add: ex_sec_state_def)
  have "\<And>h ev x. gic_reply ex_pt_env h ev \<noteq> Inl x" by (simp add: ex_pt_env_def)
  with sgi_sends [OF ex_os_ready(2) s(1), of "[[0x33]]"] show ?thesis
    by (auto simp: p s(2) elim!: wpre_cases)
qed

definition ex_cpus :: "irq_handler sec_state" where
  "ex_cpus = snd (cpus ex_pt_env ex_fdt ex_sec_state)"

theorem cpus_queries_witness:
  "psci_events (trace ex_cpus) =
     [Psci_version Hvc, Psci_affinity_info Hvc 0 Aff_all] @ level_queries Hvc 0 @ level_queries Hvc 1"
proof -
  have "affinity_reply ex_pt_env h c m l = Inr Aff_off" "version_reply ex_pt_env h c = Inr 0" for h c m l
    by (simp_all add: ex_pt_env_def)
  then have run: "cpus ex_pt_env ex_fdt ex_sec_state = (Inr (), ex_cpus)"
    by (simp add: ex_cpus_def cpus_def Let_def runs psci_version_def cpu_levels_def affinity_info_def cpu_id_def
      smc_for_psci_def smc_for_psci_fdt_def ex_fdt_def ex_sec_state_def)
  have "off_conduit ex_sec_state = Hvc" "trace ex_sec_state = []" "mpidr_el1 ex_pt_env = 0"
    by (simp_all add: off_conduit_def ex_sec_state_def smc_for_psci_fdt_def ex_fdt_def psci_conduit_def ex_pt_env_def)
  with cpus_queries [OF run] show ?thesis
    by (auto simp: ex_fdt_def cpu_id_def Cons_eq_map_conv)
qed

end
