(* ===== verification/Frames.thy ===== *)
theory Frames
  imports Cpu_Apps
begin

text \<open>
  What operations leave alone: the calls they make are all of some kind, and a part of the state is as before.
  Both are proved once per operation, for any kind of call and any part of the state that the operation does
  not touch, and used for the shell, whose loop runs most of the program.
\<close>

section \<open>The relation\<close>

definition stays :: "(event \<Rightarrow> bool) \<Rightarrow> ('s io_state_scheme \<Rightarrow> 'x) \<Rightarrow> 's io_state_scheme \<Rightarrow> 's io_state_scheme \<Rightarrow> bool" where
  "stays P F s t \<longleftrightarrow> (\<exists>es. trace t = trace s @ es \<and> list_all P es) \<and> F t = F s"

interpretation sty: frame "stays P F" for P F
  by unfold_locales (auto simp: stays_def)

lemmas stays_basic = sty.keeps_basic [THEN keeps_returns]

lemma staysI: "trace t = trace s @ es \<Longrightarrow> list_all P es \<Longrightarrow> F t = F s \<Longrightarrow> stays P F s t"
  by (auto simp: stays_def)

section \<open>Console, locks, log\<close>

text \<open>A kind of call that includes the lines written to the console, and a part of the state that the trace is not
  part of and that is as before when what a scope takes, a lock or the interrupt mask, has been given back.\<close>

locale scoped_view =
  fixes P :: "event \<Rightarrow> bool"
    and F :: "'s io_state_scheme \<Rightarrow> 'x"
  assumes P_log: "P (Con (Log_line lvl lit args))"
    and P_fmt: "P (Con (Con_fmt lit args))"
    and F_trace: "F (s\<lparr>trace := h\<rparr>) = F s"
    and F_locked: "F t = F (s\<lparr>held := l # held s\<rparr>) \<Longrightarrow> F (t\<lparr>held := remove1 l (held t)\<rparr>) = F s"
    and F_excepted: "F t = F (s\<lparr>masked := True\<rparr>) \<Longrightarrow> F (t\<lparr>masked := masked s\<rparr>) = F s"
begin

lemma stays_emit: "P ev \<Longrightarrow> returns (stays P F) (emit ev)"
  by (rule returnsI) (auto simp: rets F_trace intro!: staysI)

lemma stays_call: "P ev \<Longrightarrow> returns (stays P F) (call f ev)"
  by (rule returnsI) (auto simp: rets F_trace intro!: staysI)

lemma stays_log: "returns (stays P F) (log E lvl lit args)"
  by (rule returnsI) (auto simp: F_trace P_log dest!: log_returned intro!: staysI)

lemma stays_log_lazy: "returns (stays P F) (log_lazy E lvl lit args)"
  unfolding log_lazy_def
  by (intro sty.returns_bind stays_basic)
    (auto split: option.split intro!: sty.returns_bind stays_log stays_basic)

lemma stays_con_fmt: "returns (stays P F) (con_fmt E lit args)"
  by (rule returnsI) (auto simp: F_trace P_fmt dest!: con_fmt_state intro!: staysI)

lemma stays_with_lock:
  assumes "returns (stays P F) m"
  shows "returns (stays P F) (with_lock l m)"
proof (rule returnsI)
  fix s x t
  assume "with_lock l m s = (Inr x, t)"
  then obtain u where "m (s\<lparr>held := l # held s\<rparr>) = (Inr x, u)" "t = u\<lparr>held := remove1 l (held u)\<rparr>"
    by (auto simp: rets)
  with returnsD [OF assms this(1)] show "stays P F s t" by (auto simp: stays_def intro: F_locked)
qed

lemma stays_exception_free:
  assumes "returns (stays P F) m"
  shows "returns (stays P F) (exception_free m)"
proof (rule returnsI)
  fix s x t
  assume "exception_free m s = (Inr x, t)"
  then obtain u where "m (s\<lparr>masked := True\<rparr>) = (Inr x, u)" "t = u\<lparr>masked := masked s\<rparr>"
    by (auto simp: rets)
  with returnsD [OF assms this(1)] show "stays P F s t" by (auto simp: stays_def intro: F_excepted)
qed

end

text \<open>Moreover a part of the state that locks and interrupt mask are not part of.\<close>

locale view = scoped_view P F for P :: "event \<Rightarrow> bool" and F :: "'s io_state_scheme \<Rightarrow> 'x" +
  assumes F_held: "F (s\<lparr>held := l\<rparr>) = F s"
    and F_masked: "F (s\<lparr>masked := b\<rparr>) = F s"
begin

lemma stays_acquire: "returns (stays P F) (acquire l)"
  by (rule returnsI) (auto simp: rets F_held intro!: staysI [where es = "[]"])

lemma stays_release: "returns (stays P F) (release l)"
  by (rule returnsI) (auto simp: rets F_held intro!: staysI [where es = "[]"])

lemmas stays_rules = stays_emit stays_call stays_log stays_log_lazy stays_con_fmt stays_with_lock
  stays_exception_free stays_acquire stays_release sty.returns_bind sty.returns_block sty.returns_for_each
  sty.returns_map_io stays_basic

text \<open>One look at the console, and reading it.\<close>

lemma stays_con_bytes: "P (Con (Con_bytes bs)) \<Longrightarrow> returns (stays P F) (con_bytes E bs)"
  unfolding con_bytes_def console_write_def shared_write_def by (intro stays_rules)

lemma stays_console_read:
  assumes "P (Con Uart_read_ready)" and "P (Con (Uart_read k))" and "P (Cpu Wfi)" and "returns (stays P F) irqs"
  shows "returns (stays P F) (console_read E irqs k n)"
proof (induction n)
  case 0
  show ?case by (simp add: sty.returns_abort)
next
  case (Suc n)
  have "returns (stays P F) (try_read E k)"
    unfolding try_read_def uart_read_ready_def uart_read_def using assms(1,2)
    by (auto intro!: stays_rules split: sum.split)
  moreover have "returns (stays P F) (wait_for_irq irqs)"
    unfolding wait_for_irq_def using assms(3,4) by (intro stays_rules)
  ultimately show ?case using Suc by (auto intro!: sty.returns_bind stays_basic split: sum.split option.split)
qed

end

section \<open>Interrupts taken while waiting\<close>

text \<open>Moreover a part of the state that handling an interrupt does not change. The private tables may be part of it: an
  interrupt at most creates them.\<close>

locale irq_view = view P F
  for P :: "event \<Rightarrow> bool" and F :: "(irq_handler, 's) alarm_state_scheme \<Rightarrow> 'x" +
  assumes P_gic: "P (Gic e)"
    and P_clear: "P (Con Uart_clear_rxi)"
    and F_forced: "private_table s = Inr tables \<Longrightarrow> F (s\<lparr>private_irq_handlers := Some tables\<rparr>) = F s"
    and F_borrowed: "F (s\<lparr>private_borrowed := b\<rparr>) = F s"
    and F_fired: "F (s\<lparr>ALARM_FIRED := b\<rparr>) = F s"
begin

lemma stays_fired: "returns (stays P F) (modify_io (\<lambda>s. s\<lparr>ALARM_FIRED := f s\<rparr>))"
  by (rule returnsI) (auto simp: rets F_fired intro!: staysI [where es = "[]"])

lemma stays_run_handler: "returns (stays P F) (run_handler E b h i)"
proof (cases h)
  case Console_handle_irq
  have "returns (stays P F) (uart_handle_irq b i)"
    by (cases b) (auto simp: pl011_handle_irq_def uart16550_handle_irq_def P_gic P_clear intro!: stays_rules)
  then show ?thesis unfolding Console_handle_irq run_handler.simps console_handle_irq_def
    by (intro stays_rules)
next
  case Alarm_irq_handle
  then show ?thesis unfolding Alarm_irq_handle run_handler.simps irq_handle_def
    by (intro stays_rules stays_fired)
next
  case Secondary_irq_handler
  then show ?thesis unfolding Secondary_irq_handler run_handler.simps secondary_irq_handler_def
    by (intro stays_rules)
qed

lemma stays_private_get: "returns (stays P F) (private_get E)"
proof -
  have "returns (stays P F) private_force"
    by (rule returnsI) (auto simp: private_force_def rets F_forced intro!: staysI [where es = "[]"] split: sum.splits)
  then show ?thesis unfolding private_get_def core_index_def current_cpu_index_def
    by (intro stays_rules)
qed

lemma stays_with_borrow:
  assumes "returns (stays P F) m"
  shows "returns (stays P F) (with_borrow m)"
proof (rule returnsI)
  fix s x t
  assume "with_borrow m s = (Inr x, t)"
  then obtain u where "m (s\<lparr>private_borrowed := True\<rparr>) = (Inr x, u)" "t = u\<lparr>private_borrowed := private_borrowed s\<rparr>"
    by (auto simp: with_borrow_def rets)
  with returnsD [OF assms this(1)] show "stays P F s t" by (simp add: stays_def F_borrowed)
qed

lemma stays_take_irq: "returns (stays P F) (take_irq E b pending)"
  unfolding take_irq_def irq_current_def handle_irq_def
  by (auto intro!: stays_rules stays_run_handler stays_private_get stays_with_borrow sty.returns_abort
      simp: P_gic split: option.split)

end

section \<open>Commands\<close>

text \<open>The calls that acknowledge and end interrupts.\<close>

definition irq_event :: "event \<Rightarrow> bool" where
  "irq_event e = (case e of Gic Gicc_acknowledge \<Rightarrow> True | Gic (Gicc_end_interrupt _) \<Rightarrow> True | _ \<Rightarrow> False)"

text \<open>A kind of call that includes everything but starting cores, allocating their stacks and taking interrupts.\<close>

locale command_view = view P F
  for P :: "event \<Rightarrow> bool" and F :: "(irq_handler, 's) sec_state_scheme \<Rightarrow> 'x" +
  assumes P_other: "\<not> stack_event e \<Longrightarrow> \<not> irq_event e \<Longrightarrow> P e"
begin

lemma P_events:
  "P (Con c)" "P (Cpu u)" "P (Rtc r)" "P (Pt p)" "P (Pci q)" "P (Virtio v)"
  "P (Psci (Psci_affinity_info c1 m lvl))" "P (Psci (Psci_version c2))" "P (Gic (Gicc_send_sgi i x g))"
  by (rule P_other, simp add: stack_event_def, simp add: irq_event_def)+

lemma stays_console:
  "returns (stays P F) (con_bytes E bs)"
  "returns (stays P F) (console_read_ready E)"
  by (rule stays_con_bytes, simp add: P_events,
      unfold console_read_ready_def uart_read_ready_def, intro stays_rules P_events)

lemma stays_affinity: "returns (stays P F) (affinity_info E c m lvl)"
  unfolding affinity_info_def by (intro stays_rules P_events)

lemma stays_smc: "returns (stays P F) smc_for_psci"
  unfolding smc_for_psci_def by (intro stays_rules)

lemma stays_cpus: "returns (stays P F) (cpus E fdt)"
  unfolding cpus_def psci_version_def cpu_levels_def Let_def
  by (auto intro!: stays_rules stays_affinity stays_smc P_events)

lemma stays_sgi: "returns (stays P F) (sgi E args)"
  unfolding sgi_def gic_call_def
  by (auto intro!: stays_rules P_events split: option.split)

end

text \<open>A relation that such code is in, for the loops in which interrupts are taken: they are in the relation if the
  interrupts are.\<close>

locale command_frame = command_view P F + frame R
  for P :: "event \<Rightarrow> bool" and F :: "(irq_handler, 's) sec_state_scheme \<Rightarrow> 'x"
    and R :: "(irq_handler, 's) sec_state_scheme \<Rightarrow> (irq_handler, 's) sec_state_scheme \<Rightarrow> bool" +
  assumes stays_R: "stays P F s t \<Longrightarrow> R s t"
begin

lemma in_frame: "returns (stays P F) m \<Longrightarrow> returns R m"
  by (rule returnsI) (auto dest: returnsD intro: stays_R)

lemmas frame_basic = keeps_basic [THEN keeps_returns]

lemma frame_console_read:
  assumes "returns R irqs"
  shows "returns R (console_read E irqs k n)"
proof (induction n)
  case 0
  show ?case by (simp add: returns_abort)
next
  case (Suc n)
  have "returns R (try_read E k)"
    unfolding try_read_def uart_read_ready_def uart_read_def
    by (rule in_frame) (auto intro!: stays_rules P_events split: sum.split)
  moreover have "returns R (wait_for_irq irqs)"
    unfolding wait_for_irq_def by (rule returns_bind, rule in_frame, intro stays_rules P_events, rule assms)
  ultimately show ?case using Suc by (auto intro!: returns_bind frame_basic split: sum.split option.split)
qed

end

text \<open>Moreover a part of the state that handling an interrupt does not change.\<close>

locale shell_view = irq_view P F + command_view P F
  for P :: "event \<Rightarrow> bool" and F :: "(irq_handler, 's) sec_state_scheme \<Rightarrow> 'x"
begin

lemma stays_alarm: "returns (stays P F) (alarm E R b args)"
  unfolding alarm_def irq_finish_def rtc_get_time_def
  by (auto intro!: stays_rules P_events P_gic stays_fired split: option.split)

end

sublocale shell_view \<subseteq> cmd: command_frame P F "stays P F"
  by unfold_locales

end
