(* ===== verification/Pci.thy ===== *)
theory Pci
  imports Pagetable Rust_Std
begin

text \<open>
  pci.rs: decoding the ranges of a PCI host bridge from the device tree, trimming them to the
  address space of the page table, mapping them, sorting them into pools for 32-bit, 64-bit and
  prefetchable 64-bit memory, and giving every base address register (BAR) of every device function
  a block of a pool.

  The configuration space access and the frame allocators are dependencies: the first is calls on
  the trace, the second a record of operations over an opaque state.
\<close>

section \<open>Flags and range types\<close>

definition PCI_COMPATIBLE :: string where
  "PCI_COMPATIBLE = ''pci-host-cam-generic''"

definition PCIE_COMPATIBLE :: string where
  "PCIE_COMPATIBLE = ''pci-host-ecam-generic''"

datatype pci_range_type = ConfigurationSpace | IoSpace | Memory32 | Memory64

text \<open>\<^verbatim>\<open>From<u32> for PciRangeType\<close>.\<close>

definition range_type_from :: "u32 \<Rightarrow> pci_range_type res" where
  "range_type_from v =
     (if v = 0 then Inr ConfigurationSpace
      else if v = 1 then Inr IoSpace
      else if v = 2 then Inr Memory32
      else if v = 3 then Inr Memory64
      else Inl (Panic (Explicit ''Tried to convert invalid range type {}'')))"

text \<open>\<^verbatim>\<open>PciMemoryFlags(u32)\<close>.\<close>

definition relocatable :: "u32 \<Rightarrow> bool" where
  "relocatable f \<longleftrightarrow> f AND 0x80000000 = 0"

definition prefetchable :: "u32 \<Rightarrow> bool" where
  "prefetchable f \<longleftrightarrow> f AND 0x40000000 \<noteq> 0"

definition range_type :: "u32 \<Rightarrow> pci_range_type res" where
  "range_type f = range_type_from (drop_bit 24 (f AND 0x03000000))"

section \<open>Ranges\<close>

record pci_range =
  cpu_physical :: usize
  bus_address :: usize
  range_size :: usize
  flags :: u32

text \<open>\<^verbatim>\<open>From<Range> for PciRange\<close>: the flags are the third cell of the child address.\<close>

definition pci_range_from :: "fdt_range \<Rightarrow> pci_range res" where
  "pci_range_from r =
     rbind (unwrap (child_bus_address r)) (\<lambda>child.
     rbind (unwrap (parent_bus_address r)) (\<lambda>parent.
     rbind (unwrap (range_length r)) (\<lambda>len.
     Inr \<lparr>cpu_physical = parent, bus_address = ucast child, range_size = len,
          flags = ucast (drop_bit 64 child)\<rparr>)))"

text \<open>\<^verbatim>\<open>PciRange::memory_region\<close>.\<close>

definition memory_region :: "'e pt_env_scheme \<Rightarrow> pci_range \<Rightarrow> memory_region res" where
  "memory_region E r =
     rbind (checked_add (cpu_physical r) (range_size r)) (\<lambda>end.
     MemoryRegion_new E (cpu_physical r) end)"

fun range_type_name :: "pci_range_type \<Rightarrow> string" where
  "range_type_name ConfigurationSpace = ''ConfigurationSpace''"
| "range_type_name IoSpace = ''IoSpace''"
| "range_type_name Memory32 = ''Memory32''"
| "range_type_name Memory64 = ''Memory64''"

text \<open>\<^verbatim>\<open>Display for PciMemoryFlags\<close>, \<^verbatim>\<open>Display for PciRange\<close>.\<close>

definition flags_fmt :: "u32 \<Rightarrow> arg res" where
  "flags_fmt f =
     rbind (range_type f) (\<lambda>t.
     Inr (A_fmt ''{:#x} ({} {:?})''
       [A_u32 f, A_str (if prefetchable f then ''prefetchable'' else ''non-prefetchable''),
        A_str (range_type_name t)]))"

definition pci_range_fmt :: "pci_range \<Rightarrow> arg res" where
  "pci_range_fmt r =
     rbind (flags_fmt (flags r)) (\<lambda>fl.
     Inr (A_fmt ''PCI range CPU physical {:#0x}, bus_address {:#0x}, size {:#0x}, flags {}''
       [A_u64 (cpu_physical r), A_u64 (bus_address r), A_u64 (range_size r), fl]))"

section \<open>Host bridges\<close>

datatype cam = MmioCam | Ecam

datatype pci_error = Pci_error

datatype memory_bar_type = Width32 | Width64 | Below1MiB

text \<open>\<^verbatim>\<open>BarInfo\<close>: address type, prefetchable, address and size of a memory BAR; address and size of
  an I/O BAR.\<close>

datatype bar_info = Bar_memory memory_bar_type bool u64 u64 | Bar_io u32 u32

text \<open>\<open>cam_size\<close> is \<^verbatim>\<open>Cam::size\<close> and the three bits are those of \<^verbatim>\<open>Command\<close>. The replies are
  those of \<^verbatim>\<open>bars\<close> and of \<^verbatim>\<open>enumerate_bus(0)\<close>: the functions the iterator yields, each with an
  opaque description.\<close>

record pci_env = pt_env +
  cam_size :: "cam \<Rightarrow> u32"
  Command_IO_SPACE :: u16
  Command_MEMORY_SPACE :: u16
  Command_BUS_MASTER :: u16
  enumerate_reply :: "event list \<Rightarrow> u64 \<Rightarrow> (device_function \<times> nat) list"
  bars_reply :: "event list \<Rightarrow> u64 \<Rightarrow> device_function \<Rightarrow> pci_error + bar_info option list"

text \<open>The arguments of log lines: the data that is rendered by the crate.\<close>

fun bar_fmt :: "bar_info \<Rightarrow> arg" where
  "bar_fmt (Bar_memory _ pf address sz) = A_fmt ''{info}'' [A_bool pf, A_u64 address, A_u64 sz]"
| "bar_fmt (Bar_io address sz) = A_fmt ''{info}'' [A_u32 address, A_u32 sz]"

fun df_fmt :: "device_function \<Rightarrow> arg" where
  "df_fmt (bus, dev, fn) = A_fmt ''{device_function}'' [A_nat (unat bus), A_nat (unat dev), A_nat (unat fn)]"

record pci_root_info =
  root_cam :: cam
  mmio_base :: u64
  ranges :: "pci_range list"

definition is_memory :: "pci_range_type \<Rightarrow> bool" where
  "is_memory t \<longleftrightarrow> t = Memory32 \<or> t = Memory64"

text \<open>The loop of \<^verbatim>\<open>PciRootInfo::for_fdt_node\<close> over the ranges of a node.\<close>

fun collect_ranges ::
  "'e pci_env_scheme \<Rightarrow> usize \<Rightarrow> fdt_range list \<Rightarrow> ('s io_state_scheme, pci_range list) io" where
  "collect_ranges E limit [] = return_io []"
| "collect_ranges E limit (r # rs) =
     bind_io (lift_io (pci_range_from r)) (\<lambda>range.
     bind_io (log_lazy E Info ''PCI range {range}'' (rbind (pci_range_fmt range) (\<lambda>a. Inr [a]))) (\<lambda>_.
     bind_io (lift_io (range_type (flags range))) (\<lambda>t.
     if is_memory t then
       if limit \<le> cpu_physical range then
         bind_io (log E Warn ''Ignoring range outside page table size ({:#x} >= {:#x}).''
           [A_u64 (cpu_physical range), A_u64 limit]) (\<lambda>_.
         collect_ranges E limit rs)
       else
         bind_io (lift_io (checked_sub limit (cpu_physical range))) (\<lambda>room.
         bind_io (collect_ranges E limit rs) (\<lambda>rest.
         return_io (range\<lparr>range_size := min (range_size range) room\<rparr> # rest)))
     else
       bind_io (collect_ranges E limit rs) (\<lambda>rest.
       return_io (range # rest)))))"

definition for_fdt_node ::
  "'e pci_env_scheme \<Rightarrow> fdt_node \<Rightarrow> cam \<Rightarrow> usize \<Rightarrow> ('s io_state_scheme, pci_root_info) io" where
  "for_fdt_node E pci_node cam limit =
     bind_io (lift_io (rbind (unwrap (node_reg pci_node)) unwrap_opt)) (\<lambda>reg.
     bind_io (lift_io (unwrap_opt (next_opt reg))) (\<lambda>region.
     bind_io (lift_io (unwrap (reg_address region))) (\<lambda>address.
     bind_io (lift_io (unwrap (reg_size region))) (\<lambda>size.
     bind_io (log_lazy E Info ''Reg: {:#x}-{:#x}''
       (rbind (checked_add address size) (\<lambda>end. Inr [A_u64 address, A_u64 end]))) (\<lambda>_.
     bind_io (lift_io (require (Assert_failed ''size == cam.size()'')
       (size = ucast (cam_size E cam)))) (\<lambda>_.
     bind_io (lift_io (rbind (unwrap (node_ranges pci_node)) unwrap_opt)) (\<lambda>rs.
     bind_io (collect_ranges E limit rs) (\<lambda>ranges.
     return_io \<lparr>root_cam = cam, mmio_base = address, ranges = ranges\<rparr>))))))))"

definition find_pci_roots ::
  "'e pci_env_scheme \<Rightarrow> fdt \<Rightarrow> usize \<Rightarrow> ('s io_state_scheme, pci_root_info list) io" where
  "find_pci_roots E fdt limit =
     bind_io (map_io (\<lambda>pci_node.
       bind_io (log E Info ''PCI node: {}'' [A_str (node_name pci_node)]) (\<lambda>_.
       for_fdt_node E pci_node MmioCam limit)) (fdt_find_compatible fdt PCI_COMPATIBLE)) (\<lambda>pci.
     bind_io (map_io (\<lambda>pcie_node.
       bind_io (log E Info ''PCIE node: {}'' [A_str (node_name pcie_node)]) (\<lambda>_.
       for_fdt_node E pcie_node Ecam limit)) (fdt_find_compatible fdt PCIE_COMPATIBLE)) (\<lambda>pcie.
     return_io (pci @ pcie)))"

text \<open>\<^verbatim>\<open>PciRootInfo::map_ranges\<close>.\<close>

definition map_one_range ::
  "'e pci_env_scheme \<Rightarrow> idmap \<Rightarrow> pci_range \<Rightarrow> ('s io_state_scheme, unit) io" where
  "map_one_range E m r =
     bind_io (lift_io (range_type (flags r))) (\<lambda>t.
     if is_memory t then
       bind_io (lift_io (memory_region E r)) (\<lambda>region.
       bind_io (log E Info ''Mappping {memory_region}'' [A_region region]) (\<lambda>_.
       map_device_unwrap E m region))
     else return_io ())"

definition map_ranges ::
  "'e pci_env_scheme \<Rightarrow> idmap \<Rightarrow> pci_root_info \<Rightarrow> ('s io_state_scheme, unit) io" where
  "map_ranges E m info = for_each (ranges info) (map_one_range E m)"

section \<open>The BAR allocator\<close>

text \<open>\<^verbatim>\<open>FrameAllocator\<close>: an empty allocator, adding a range of frames, allocating a block of a
  layout.\<close>

record 'fa frame_ops =
  fa_new :: 'fa
  fa_add_frame :: "usize \<Rightarrow> usize \<Rightarrow> 'fa \<Rightarrow> 'fa"
  fa_alloc_aligned :: "layout \<Rightarrow> 'fa \<Rightarrow> usize option \<times> 'fa"

record ('a, 'b) pci_bar_allocator =
  memory32 :: 'a
  memory64 :: 'b
  prefetchable_memory64 :: 'b

definition u32_MAX :: usize where
  "u32_MAX = 0xffffffff"

text \<open>One turn of the loop of \<^verbatim>\<open>PciBarAllocator::new\<close>.\<close>

definition add_range ::
  "'e pci_env_scheme \<Rightarrow> 'a frame_ops \<Rightarrow> 'b frame_ops \<Rightarrow> pci_range \<Rightarrow> ('a, 'b) pci_bar_allocator \<Rightarrow>
   ('s io_state_scheme, ('a, 'b) pci_bar_allocator) io" where
  "add_range E A32 A64 r al =
     bind_io (lift_io (range_type (flags r))) (\<lambda>t.
     case t of
       Memory32 \<Rightarrow>
         bind_io (lift_io (require (Assert_failed ''range.cpu_physical == range.bus_address'')
           (cpu_physical r = bus_address r))) (\<lambda>_.
         bind_io (if prefetchable (flags r)
                  then log E Warn ''32-bit PCI range was marked as prefetchable'' []
                  else return_io ()) (\<lambda>_.
         bind_io (lift_io (checked_add (cpu_physical r) (range_size r))) (\<lambda>end.
         return_io (al\<lparr>memory32 := fa_add_frame A32 (cpu_physical r) end (memory32 al)\<rparr>))))
     | Memory64 \<Rightarrow>
         bind_io (lift_io (require (Assert_failed ''range.cpu_physical == range.bus_address'')
           (cpu_physical r = bus_address r))) (\<lambda>_.
         bind_io (lift_io (checked_add (bus_address r) (range_size r))) (\<lambda>bus_end.
         bind_io (lift_io (checked_add (cpu_physical r) (range_size r))) (\<lambda>end.
         return_io
           (if bus_end < u32_MAX
            then al\<lparr>memory32 := fa_add_frame A32 (cpu_physical r) end (memory32 al)\<rparr>
            else if prefetchable (flags r)
            then al\<lparr>prefetchable_memory64 :=
                   fa_add_frame A64 (cpu_physical r) end (prefetchable_memory64 al)\<rparr>
            else al\<lparr>memory64 := fa_add_frame A64 (cpu_physical r) end (memory64 al)\<rparr>))))
     | _ \<Rightarrow> return_io al)"

fun add_ranges ::
  "'e pci_env_scheme \<Rightarrow> 'a frame_ops \<Rightarrow> 'b frame_ops \<Rightarrow> pci_range list \<Rightarrow> ('a, 'b) pci_bar_allocator \<Rightarrow>
   ('s io_state_scheme, ('a, 'b) pci_bar_allocator) io" where
  "add_ranges E A32 A64 [] al = return_io al"
| "add_ranges E A32 A64 (r # rs) al =
     bind_io (add_range E A32 A64 r al) (\<lambda>al'. add_ranges E A32 A64 rs al')"

definition bar_allocator_new ::
  "'e pci_env_scheme \<Rightarrow> 'a frame_ops \<Rightarrow> 'b frame_ops \<Rightarrow> pci_range list \<Rightarrow>
   ('s io_state_scheme, ('a, 'b) pci_bar_allocator) io" where
  "bar_allocator_new E A32 A64 rs =
     add_ranges E A32 A64 rs
       \<lparr>memory32 = fa_new A32, memory64 = fa_new A64, prefetchable_memory64 = fa_new A64\<rparr>"

text \<open>\<^verbatim>\<open>try_into::<u32>().unwrap()\<close> of a \<^verbatim>\<open>usize\<close>.\<close>

definition try_into_u32 :: "usize \<Rightarrow> u32 res" where
  "try_into_u32 x = (if x \<le> u32_MAX then Inr (ucast x) else Inl (Panic Unwrap_err))"

definition allocate32 ::
  "'a frame_ops \<Rightarrow> layout \<Rightarrow> ('a, 'b) pci_bar_allocator \<Rightarrow> (u32 \<times> ('a, 'b) pci_bar_allocator) res" where
  "allocate32 A32 l al =
     (case fa_alloc_aligned A32 l (memory32 al) of (r, fa) \<Rightarrow>
      rbind (expect_opt ''Failed to allocate PCI BAR'' r) (\<lambda>a.
      rbind (try_into_u32 a) (\<lambda>x.
      Inr (x, al\<lparr>memory32 := fa\<rparr>))))"

text \<open>The part of \<^verbatim>\<open>allocate64\<close> after the prefetchable pool.\<close>

definition allocate64_fallback ::
  "'a frame_ops \<Rightarrow> 'b frame_ops \<Rightarrow> layout \<Rightarrow> ('a, 'b) pci_bar_allocator \<Rightarrow>
   (u64 \<times> ('a, 'b) pci_bar_allocator) res" where
  "allocate64_fallback A32 A64 l al =
     (case fa_alloc_aligned A64 l (memory64 al) of
        (Some a, fa) \<Rightarrow> Inr (a, al\<lparr>memory64 := fa\<rparr>)
      | (None, fa) \<Rightarrow>
          rbind (allocate32 A32 l (al\<lparr>memory64 := fa\<rparr>)) (\<lambda>(x, al'). Inr (ucast x, al')))"

definition allocate64 ::
  "'a frame_ops \<Rightarrow> 'b frame_ops \<Rightarrow> layout \<Rightarrow> bool \<Rightarrow> ('a, 'b) pci_bar_allocator \<Rightarrow>
   (u64 \<times> ('a, 'b) pci_bar_allocator) res" where
  "allocate64 A32 A64 l pf al =
     (if pf then
        (case fa_alloc_aligned A64 l (prefetchable_memory64 al) of
           (Some a, fa) \<Rightarrow> Inr (a, al\<lparr>prefetchable_memory64 := fa\<rparr>)
         | (None, fa) \<Rightarrow> allocate64_fallback A32 A64 l (al\<lparr>prefetchable_memory64 := fa\<rparr>))
      else allocate64_fallback A32 A64 l al)"

section \<open>Programming the BARs\<close>

text \<open>The body of the loop of \<^verbatim>\<open>allocate_bars\<close> for the BAR with index \<open>i\<close>.\<close>

definition allocate_bar ::
  "'e pci_env_scheme \<Rightarrow> 'a frame_ops \<Rightarrow> 'b frame_ops \<Rightarrow> u64 \<Rightarrow> device_function \<Rightarrow> nat \<Rightarrow> bar_info option \<Rightarrow>
   ('a, 'b) pci_bar_allocator \<Rightarrow> ('s io_state_scheme, ('a, 'b) pci_bar_allocator) io" where
  "allocate_bar E A32 A64 root df i info al =
     (case info of
        None \<Rightarrow> return_io al
      | Some b \<Rightarrow>
          bind_io (log E Info ''BAR {bar_index}: {info}'' [A_nat i, bar_fmt b]) (\<lambda>_.
          case b of
            Bar_memory address_type pf _ sz \<Rightarrow>
              if sz = 0 then return_io al
              else
                bind_io (lift_io (unwrap (layout_from_size_align sz sz))) (\<lambda>layout.
                case address_type of
                  Width32 \<Rightarrow>
                    bind_io (if pf then log E Warn ''  32-bit BAR should not be marked prefetchable.'' []
                             else return_io ()) (\<lambda>_.
                    bind_io (lift_io (allocate32 A32 layout al)) (\<lambda>(allocation, al').
                    bind_io (log E Info ''  allocated {allocation:#0x}'' [A_u32 allocation]) (\<lambda>_.
                    bind_io (emit (Pci (Set_bar_32 root df (of_nat i) allocation))) (\<lambda>_.
                    return_io al'))))
                | Width64 \<Rightarrow>
                    bind_io (lift_io (allocate64 A32 A64 layout pf al)) (\<lambda>(allocation, al').
                    bind_io (log E Info ''  allocated {allocation:#0x}'' [A_u64 allocation]) (\<lambda>_.
                    bind_io (emit (Pci (Set_bar_64 root df (of_nat i) allocation))) (\<lambda>_.
                    return_io al')))
                | Below1MiB \<Rightarrow>
                    abort_io (Panic (Unimplemented ''Below 1MiB BARs not supported.'')))
          | Bar_io _ _ \<Rightarrow>
              bind_io (log E Warn ''Ignoring IO BAR'' []) (\<lambda>_.
              return_io al)))"

fun allocate_bar_list ::
  "'e pci_env_scheme \<Rightarrow> 'a frame_ops \<Rightarrow> 'b frame_ops \<Rightarrow> u64 \<Rightarrow> device_function \<Rightarrow> nat \<Rightarrow>
   bar_info option list \<Rightarrow> ('a, 'b) pci_bar_allocator \<Rightarrow>
   ('s io_state_scheme, ('a, 'b) pci_bar_allocator) io" where
  "allocate_bar_list E A32 A64 root df i [] al = return_io al"
| "allocate_bar_list E A32 A64 root df i (b # bs) al =
     bind_io (allocate_bar E A32 A64 root df i b al) (\<lambda>al'.
     allocate_bar_list E A32 A64 root df (Suc i) bs al')"

definition allocate_bars ::
  "'e pci_env_scheme \<Rightarrow> 'a frame_ops \<Rightarrow> 'b frame_ops \<Rightarrow> u64 \<Rightarrow> device_function \<Rightarrow>
   ('a, 'b) pci_bar_allocator \<Rightarrow>
   ('s io_state_scheme, (pci_error + unit) \<times> ('a, 'b) pci_bar_allocator) io" where
  "allocate_bars E A32 A64 root df al =
     bind_io (call (\<lambda>h. bars_reply E h root df) (Pci (Pci_bars root df))) (\<lambda>r.
     bind_io (lift_io (unwrap r)) (\<lambda>bars.
     bind_io (allocate_bar_list E A32 A64 root df 0 bars al) (\<lambda>al'.
     bind_io (emit (Pci (Set_command root df
       (Command_IO_SPACE E OR Command_MEMORY_SPACE E OR Command_BUS_MASTER E)))) (\<lambda>_.
     return_io (Inr (), al')))))"

fun init_functions ::
  "'e pci_env_scheme \<Rightarrow> 'a frame_ops \<Rightarrow> 'b frame_ops \<Rightarrow> u64 \<Rightarrow> (device_function \<times> nat) list \<Rightarrow>
   ('a, 'b) pci_bar_allocator \<Rightarrow> ('s io_state_scheme, unit) io" where
  "init_functions E A32 A64 root [] al = return_io ()"
| "init_functions E A32 A64 root ((df, info) # fs) al =
     bind_io (log E Info ''Initialising bars for {device_function} {info}'' [df_fmt df, A_token info]) (\<lambda>_.
     bind_io (allocate_bars E A32 A64 root df al) (\<lambda>(r, al').
     bind_io (lift_io (unwrap r)) (\<lambda>_.
     init_functions E A32 A64 root fs al')))"

text \<open>\<^verbatim>\<open>PciRootInfo::init_pci\<close>: the root it returns is known by its MMIO base.\<close>

definition init_pci ::
  "'e pci_env_scheme \<Rightarrow> 'a frame_ops \<Rightarrow> 'b frame_ops \<Rightarrow> pci_root_info \<Rightarrow> ('s io_state_scheme, u64) io" where
  "init_pci E A32 A64 info =
     (let root = mmio_base info in
      bind_io (bar_allocator_new E A32 A64 (ranges info)) (\<lambda>allocator.
      bind_io (call (\<lambda>h. enumerate_reply E h root) (Pci (Pci_enumerate root))) (\<lambda>functions.
      bind_io (init_functions E A32 A64 root functions allocator) (\<lambda>_.
      return_io root))))"

section \<open>Decoding\<close>

lemma two_bits: "(x :: 'a::len word) AND 3 = of_bool (bit x 0) + 2 * of_bool (bit x 1)"
proof -
  have "x AND 3 = take_bit 2 x" by (simp add: take_bit_eq_mask mask_eq_exp_minus_1)
  then show ?thesis
    by (simp add: numeral_2_eq_2 take_bit_Suc mod_2_eq_odd bit_Suc bit_0)
qed

lemma range_type_bits:
  "range_type f = Inr (if bit f 25 then if bit f 24 then Memory64 else Memory32
                       else if bit f 24 then IoSpace else ConfigurationSpace)"
proof -
  have "drop_bit 24 (f AND 0x03000000) = drop_bit 24 f AND 3"
    by (simp add: drop_bit_and)
  also have "\<dots> = of_bool (bit f 24) + 2 * of_bool (bit f 25)"
    by (simp add: two_bits bit_drop_bit_eq)
  finally show ?thesis by (auto simp: range_type_def range_type_from_def)
qed

lemma flag_bits:
  "relocatable f \<longleftrightarrow> \<not> bit f 31" "prefetchable f \<longleftrightarrow> bit f 30"
proof -
  have 1: "f AND 0x80000000 = 0 \<longleftrightarrow> \<not> bit f 31"
    using and_exp_eq_0_iff_not_bit [of f 31] by simp
  have 2: "f AND 0x40000000 = 0 \<longleftrightarrow> \<not> bit f 30"
    using and_exp_eq_0_iff_not_bit [of f 30] by simp
  show "relocatable f \<longleftrightarrow> \<not> bit f 31" "prefetchable f \<longleftrightarrow> bit f 30"
    by (simp_all add: relocatable_def prefetchable_def 1 2)
qed

text \<open>The child address of a PCI range: the flags in the high cell, the bus address below.\<close>

definition child_address :: "u32 \<Rightarrow> usize \<Rightarrow> u128" where
  "child_address fl bus = push_bit 64 (ucast fl) OR ucast bus"

lemma child_address_bus: "ucast (child_address fl bus) = (bus :: usize)"
  by (rule bit_word_eqI) (simp add: child_address_def bit_simps)

lemma child_address_flags: "ucast (drop_bit 64 (child_address fl bus)) = (fl :: u32)"
  by (rule bit_word_eqI) (auto simp: child_address_def bit_simps dest: bit_imp_le_length)
section \<open>Trimming\<close>

text \<open>The type of a range as a function of its flags, and the addresses of a range.\<close>

definition kind :: "pci_range \<Rightarrow> pci_range_type" where
  "kind r = (if bit (flags r) 25 then if bit (flags r) 24 then Memory64 else Memory32
             else if bit (flags r) 24 then IoSpace else ConfigurationSpace)"

definition block :: "'a::len word \<Rightarrow> 'b::len word \<Rightarrow> nat set" where
  "block a n = {unat a ..< unat a + unat n}"

definition range_block :: "pci_range \<Rightarrow> nat set" where
  "range_block r = block (cpu_physical r) (range_size r)"

definition memory_ranges :: "pci_range list \<Rightarrow> pci_range list" where
  "memory_ranges rs = filter (\<lambda>r. is_memory (kind r)) rs"

lemma range_type_kind: "range_type (flags r) = Inr (kind r)"
  by (simp add: range_type_bits kind_def)

lemma kind_update [simp]: "kind (r\<lparr>range_size := n\<rparr>) = kind r"
  by (simp add: kind_def)

lemma memory_ranges_simps [simp]:
  "memory_ranges [] = []"
  "memory_ranges (r # rs) = (if is_memory (kind r) then r # memory_ranges rs else memory_ranges rs)"
  by (simp_all add: memory_ranges_def)

lemma set_memory_ranges [simp]: "set (memory_ranges rs) = {r \<in> set rs. is_memory (kind r)}"
  by (auto simp: memory_ranges_def)

text \<open>What the loop is meant to compute, without effects.\<close>

definition trim :: "usize \<Rightarrow> pci_range \<Rightarrow> pci_range" where
  "trim limit r = r\<lparr>range_size := min (range_size r) (limit - cpu_physical r)\<rparr>"

fun trimmed :: "usize \<Rightarrow> pci_range list \<Rightarrow> pci_range list" where
  "trimmed limit [] = []"
| "trimmed limit (r # rs) =
     (if is_memory (kind r) then
        if limit \<le> cpu_physical r then trimmed limit rs else trim limit r # trimmed limit rs
      else r # trimmed limit rs)"

lemma range_block_trim:
  assumes "cpu_physical r < limit"
  shows "range_block (trim limit r) = range_block r \<inter> {..<unat limit}"
proof -
  have "unat (min (range_size r) (limit - cpu_physical r)) =
      min (unat (range_size r)) (unat limit - unat (cpu_physical r))"
    using unat_sub [OF less_imp_le [OF assms]] by (simp add: min_def word_le_nat_alt)
  then show ?thesis
    using assms by (auto simp: range_block_def block_def trim_def word_less_nat_alt)
qed

lemma range_block_outside:
  "limit \<le> cpu_physical r \<Longrightarrow> range_block r \<inter> {..<unat limit} = {}"
  by (auto simp: range_block_def block_def word_le_nat_alt)

lemma kind_trim [simp]: "kind (trim limit r) = kind r"
  by (simp add: trim_def)

lemma trimmed_blocks:
  "(\<Union>r \<in> set (memory_ranges (trimmed limit rs)). range_block r) =
   (\<Union>r \<in> set (memory_ranges rs). range_block r) \<inter> {..<unat limit}"
proof (induction rs)
  case Nil
  then show ?case by simp
next
  case (Cons r rs)
  have u: "(\<Union>r \<in> set (memory_ranges (r # rs)). range_block r) =
      (if is_memory (kind r) then range_block r else {}) \<union> (\<Union>r \<in> set (memory_ranges rs). range_block r)"
    for r rs by (simp del: set_memory_ranges)
  show ?case
    using Cons.IH range_block_trim [of r limit] range_block_outside [of limit r]
    by (cases "limit \<le> cpu_physical r") (simp_all add: u Int_Un_distrib2 del: set_memory_ranges memory_ranges_simps)
qed

lemma trimmed_limit:
  assumes "r \<in> set (trimmed limit rs)" and "is_memory (kind r)"
  shows "unat (cpu_physical r) + unat (range_size r) \<le> unat limit"
  using assms
proof (induction rs)
  case (Cons q rs)
  have "unat (cpu_physical q) + unat (min (range_size q) (limit - cpu_physical q)) \<le> unat limit"
    if "cpu_physical q < limit"
    using that by (auto simp: min_def word_le_nat_alt word_less_nat_alt unat_sub)
  then show ?case
    using Cons by (auto simp: trim_def not_le split: if_splits)
qed simp

lemma trimmed_other: "filter (\<lambda>r. \<not> is_memory (kind r)) (trimmed limit rs) =
    filter (\<lambda>r. \<not> is_memory (kind r)) rs"
  by (induction rs) auto

lemma collect_ranges_returned:
  assumes "collect_ranges E limit rs s = (Inr xs, t)"
  shows "\<exists>prs. map pci_range_from rs = map Inr prs \<and> xs = trimmed limit prs"
  using assms
proof (induction rs arbitrary: s xs t)
  case Nil
  then show ?case by (simp add: rets)
next
  case (Cons r rs)
  from Cons.prems obtain q where q: "pci_range_from r = Inr q"
    by (auto simp: rets)
  have "\<exists>ys u. collect_ranges E limit rs u = (Inr ys, t) \<and>
      xs = (if is_memory (kind q) then if limit \<le> cpu_physical q then ys else trim limit q # ys else q # ys)"
    using Cons.prems
    by (cases "is_memory (kind q)"; cases "limit \<le> cpu_physical q")
      (auto simp: rets q range_type_kind checked_sub_def trim_def simp del: rets_log rets_log_lazy
        split: if_splits)
  then obtain ys u where "collect_ranges E limit rs u = (Inr ys, t)"
    and xs: "xs = (if is_memory (kind q) then if limit \<le> cpu_physical q then ys else trim limit q # ys else q # ys)"
    by blast
  with Cons.IH obtain prs where "map pci_range_from rs = map Inr prs" "ys = trimmed limit prs"
    by blast
  with q xs show ?case by (intro exI [of _ "q # prs"]) simp
qed

section \<open>A concrete environment\<close>

definition ex_pci_env :: pci_env where
  "ex_pci_env = \<lparr>write_reply = (\<lambda>_ _. Inr ()),
     read_ready_reply = (\<lambda>_. Inr True), read_reply = (\<lambda>_ _. Inr [10]), mpidr_el1 = 0, currentel = 1, esr_el1 = 0,
     esr_el2 = 0, far_el1 = 0, far_el2 = 0, hcr_el2 = (\<lambda>_. 0), HcrEl2_IMO = 16, MpidrEl1_U = 0x40000000, MpidrEl1_MT = 0x1000000, version_reply = (\<lambda>_ _. Inr 0),
     affinity_reply = (\<lambda>_ _ _ _. Inr Aff_off), cpu_on_reply = (\<lambda>_ _ _ _. Inr ()),
     cpu_off_reply = (\<lambda>_ _. None), system_off_reply = (\<lambda>_ _. None),
     ack_reply = (\<lambda>_. Some (Sgi 0)), gic_reply = (\<lambda>_ _. Inr ()), SGI_COUNT = 16,
     sizeof_Gicd = 65536, sizeof_GicrSgi = 131072,
     MemoryRegion_new = (\<lambda>a b. Inr \<lparr>mr_start = a, mr_end = b\<rparr>), map_range_reply = (\<lambda>_ _. Inr ()),
     mapping_size = (\<lambda>_. 0x8000000000), mapping_active = (\<lambda>_ _. True),
     El1_VALID = 1, El1_ATTRIBUTE_INDEX_0 = 0, El1_ATTRIBUTE_INDEX_1 = 4, El1_INNER_SHAREABLE = 0x300,
     El1_ACCESSED = 0x400, El1_NON_GLOBAL = 0x800, El1_UXN = 0x40000000000000,
     El23_VALID = 1, El23_ATTRIBUTE_INDEX_0 = 0, El23_ATTRIBUTE_INDEX_1 = 4, El23_INNER_SHAREABLE = 0x300,
     El23_ACCESSED = 0x400, El23_NON_GLOBAL = 0x800, El23_XN = 0x40000000000000,
     cam_size = (\<lambda>c. case c of MmioCam \<Rightarrow> 0x1000000 | Ecam \<Rightarrow> 0x10000000),
     Command_IO_SPACE = 1, Command_MEMORY_SPACE = 2, Command_BUS_MASTER = 4,
     enumerate_reply = (\<lambda>_ _. [((0, 1, 0), 7)]),
     bars_reply = (\<lambda>_ _ _. Inr [Some (Bar_memory Width32 False 0 0x1000), None,
       Some (Bar_memory Width64 True 0 0x4000), None, Some (Bar_io 0 32), None])\<rparr>"

end
