(* ===== verification/Virtio.thy ===== *)
theory Virtio
  imports Pci Rust_Std
begin

text \<open>
  virtio.rs and devices.rs: finding VirtIO devices in the device tree and on the PCI bus, creating their
  drivers, and the memory callbacks the drivers use.

  The drivers are a dependency. A transport is known by a token; what the crate answers is a record of
  replies, functions of the trace so far where they may change over time.
\<close>

section \<open>Devices\<close>

text \<open>\<^verbatim>\<open>DeviceType\<close>: the three types the program has drivers for, and the others by number.\<close>

datatype device_type = Block_device | Console_device | Socket_device | Other_device nat

text \<open>\<^verbatim>\<open>MmioError\<close>: an invalid device type, or anything else.\<close>

datatype mmio_error = Invalid_device_type u32 | Mmio_error

datatype virtio_error = Virtio_error

text \<open>The event of a socket: where it is from, the local port it is for, and what happened.\<close>

datatype vsock_event_type = Connected | Disconnected_shutdown | Disconnected_reset | Received | Credit_update | Other_vsock_event

record vsock_event =
  source_cid :: u64
  source_port :: u32
  destination_port :: u32
  event_type :: vsock_event_type

record virtio_ops =
  sizeof_VirtIOHeader :: usize
  VIRTIO_PAGE_SIZE :: usize
  mmio_new_reply :: "event list \<Rightarrow> u64 \<Rightarrow> usize \<Rightarrow> mmio_error + nat"
  pci_new_reply :: "event list \<Rightarrow> u64 \<Rightarrow> device_function \<Rightarrow> virtio_error + nat"
  transport_device_type :: "nat \<Rightarrow> device_type"
  transport_vendor_id :: "event list \<Rightarrow> nat \<Rightarrow> u32"
  transport_version :: "nat \<Rightarrow> nat"
  features_reply :: "event list \<Rightarrow> nat \<Rightarrow> u64"
  status_reply :: "event list \<Rightarrow> nat \<Rightarrow> u32"
  driver_reply :: "event list \<Rightarrow> virtio_event \<Rightarrow> virtio_error + unit"
  virtio_device_type :: "nat \<Rightarrow> device_type option"
  dma_alloc_reply :: "event list \<Rightarrow> usize \<Rightarrow> usize \<Rightarrow> u64"

text \<open>\<^verbatim>\<open>Devices\<close>: the clock by its address, each driver by the token of its transport.\<close>

record devices =
  dev_rtc :: u64
  dev_block :: "nat list"
  dev_console :: "nat list"
  dev_vsock :: "nat list"

definition devices_new :: "u64 \<Rightarrow> devices" where
  "devices_new rtc = \<lparr>dev_rtc = rtc, dev_block = [], dev_console = [], dev_vsock = []\<rparr>"

section \<open>Finding devices\<close>

definition VIRTIO_MMIO_COMPATIBLE :: string where
  "VIRTIO_MMIO_COMPATIBLE = ''virtio,mmio''"

text \<open>A log macro whose arguments make calls: they are made when the line is enabled.\<close>

definition log_effects ::
  "'e con_env_scheme \<Rightarrow> level \<Rightarrow> string \<Rightarrow> ('s io_state_scheme, arg list) io \<Rightarrow> ('s io_state_scheme, unit) io" where
  "log_effects E lvl lit args =
     bind_io (gets_io logger) (\<lambda>l.
     case l of
       None \<Rightarrow> return_io ()
     | Some max_level \<Rightarrow> if lvl \<le> max_level then bind_io args (log E lvl lit) else return_io ())"

definition type_fmt :: "device_type \<Rightarrow> arg" where
  "type_fmt t =
     (case t of
        Block_device \<Rightarrow> A_str ''Block''
      | Console_device \<Rightarrow> A_str ''Console''
      | Socket_device \<Rightarrow> A_str ''Socket''
      | Other_device n \<Rightarrow> A_token n)"

text \<open>\<^verbatim>\<open>X::new(transport).unwrap()\<close> for a driver.\<close>

definition driver_new :: "virtio_ops \<Rightarrow> virtio_event \<Rightarrow> ('s io_state_scheme, unit) io" where
  "driver_new V ev =
     bind_io (call (\<lambda>h. driver_reply V h ev) (Virtio ev)) (\<lambda>r.
     lift_io (unwrap r))"

definition init_virtio_device ::
  "'e con_env_scheme \<Rightarrow> virtio_ops \<Rightarrow> nat \<Rightarrow> devices \<Rightarrow> ('s io_state_scheme, devices) io" where
  "init_virtio_device E V transport d =
     (case transport_device_type V transport of
        Block_device \<Rightarrow>
          bind_io (driver_new V (Blk_new transport)) (\<lambda>_.
          return_io (d\<lparr>dev_block := dev_block d @ [transport]\<rparr>))
      | Console_device \<Rightarrow>
          bind_io (driver_new V (Vcon_new transport)) (\<lambda>_.
          return_io (d\<lparr>dev_console := dev_console d @ [transport]\<rparr>))
      | Socket_device \<Rightarrow>
          bind_io (driver_new V (Vsock_new transport)) (\<lambda>_.
          return_io (d\<lparr>dev_vsock := dev_vsock d @ [transport]\<rparr>))
      | t \<Rightarrow>
          bind_io (log E Warn ''Ignoring unsupported VirtIO device type {t:?}'' [type_fmt t]) (\<lambda>_.
          return_io d))"

text \<open>The match on \<^verbatim>\<open>MmioTransport::new(header, region_size)\<close>.\<close>

definition init_mmio_transport ::
  "'e con_env_scheme \<Rightarrow> virtio_ops \<Rightarrow> u64 \<Rightarrow> usize \<Rightarrow> devices \<Rightarrow> ('s io_state_scheme, devices) io" where
  "init_mmio_transport E V header region_size d =
     bind_io (call (\<lambda>h. mmio_new_reply V h header region_size) (Virtio (Mmio_transport_new header region_size))) (\<lambda>r.
     case r of
       Inl e \<Rightarrow>
         bind_io (if e = Invalid_device_type 0
           then log E Debug ''Ignoring VirtIO device with zero device ID.'' []
           else log E Error ''Error creating VirtIO transport: {e}'' []) (\<lambda>_.
         return_io d)
     | Inr transport \<Rightarrow>
         bind_io (log_effects E Info
           ''Detected virtio MMIO device with device type {:?}, vendor ID {:#x}, version {:?}, features {:#018x}''
           (bind_io (gets_io (\<lambda>s. transport_vendor_id V (trace s) transport)) (\<lambda>vendor.
            bind_io (call (\<lambda>h. features_reply V h transport) (Virtio (Read_features transport))) (\<lambda>features.
            return_io [type_fmt (transport_device_type V transport), A_u32 vendor,
              A_token (transport_version V transport), A_u64 features])))) (\<lambda>_.
         init_virtio_device E V transport d))"

text \<open>The \<^verbatim>\<open>if let\<close> on the first region of a node.\<close>

definition find_virtio_mmio_region ::
  "'e con_env_scheme \<Rightarrow> virtio_ops \<Rightarrow> string \<Rightarrow> fdt_reg list \<Rightarrow> devices \<Rightarrow> ('s io_state_scheme, devices) io" where
  "find_virtio_mmio_region E V name reg d =
     (case next_opt reg of
        None \<Rightarrow>
          bind_io (log E Error ''VirtIO MMIO device {} missing region'' [A_str name]) (\<lambda>_.
          return_io d)
      | Some region \<Rightarrow>
          bind_io (lift_io (unwrap (reg_size region))) (\<lambda>region_size.
          if region_size < sizeof_VirtIOHeader V then
            bind_io (log E Error ''VirtIO MMIO device {} region smaller than VirtIO header size ({} < {})''
              [A_str name, A_u64 region_size, A_u64 (sizeof_VirtIOHeader V)]) (\<lambda>_.
            return_io d)
          else
            bind_io (lift_io (rbind (unwrap (reg_address region)) non_null)) (\<lambda>header.
            init_mmio_transport E V header region_size d)))"

text \<open>The body of the loop over the children of the root.\<close>

definition find_virtio_mmio_device ::
  "'e con_env_scheme \<Rightarrow> virtio_ops \<Rightarrow> fdt_node \<Rightarrow> devices \<Rightarrow> ('s io_state_scheme, devices) io" where
  "find_virtio_mmio_device E V node d =
     (if is_compatible node [VIRTIO_MMIO_COMPATIBLE] then
        bind_io (log E Debug ''Found VirtIO MMIO device {}'' [A_str (node_name node)]) (\<lambda>_.
        bind_io (lift_io (rbind (unwrap (node_reg node)) unwrap_opt)) (\<lambda>reg.
        find_virtio_mmio_region E V (node_name node) reg d))
      else return_io d)"

fun find_virtio_mmio_nodes ::
  "'e con_env_scheme \<Rightarrow> virtio_ops \<Rightarrow> fdt_node list \<Rightarrow> devices \<Rightarrow> ('s io_state_scheme, devices) io" where
  "find_virtio_mmio_nodes E V [] d = return_io d"
| "find_virtio_mmio_nodes E V (node # nodes) d =
     bind_io (find_virtio_mmio_device E V node d) (\<lambda>d'.
     find_virtio_mmio_nodes E V nodes d')"

definition find_virtio_mmio_devices ::
  "'e con_env_scheme \<Rightarrow> virtio_ops \<Rightarrow> fdt \<Rightarrow> devices \<Rightarrow> ('s io_state_scheme, devices) io" where
  "find_virtio_mmio_devices E V fdt d = find_virtio_mmio_nodes E V (node_children (fdt_root fdt)) d"

fun find_virtio_functions ::
  "'e con_env_scheme \<Rightarrow> virtio_ops \<Rightarrow> u64 \<Rightarrow> (device_function \<times> nat) list \<Rightarrow> devices \<Rightarrow>
   ('s io_state_scheme, devices) io" where
  "find_virtio_functions E V root [] d = return_io d"
| "find_virtio_functions E V root ((df, info) # fs) d =
     bind_io (case virtio_device_type V info of
       None \<Rightarrow> return_io d
     | Some virtio_type \<Rightarrow>
         bind_io (log E Info ''  VirtIO {virtio_type:?} {info} at {device_function}''
           [type_fmt virtio_type, A_token info, df_fmt df]) (\<lambda>_.
         bind_io (call (\<lambda>h. pci_new_reply V h root df) (Virtio (Pci_transport_new root df))) (\<lambda>r.
         bind_io (lift_io (unwrap r)) (\<lambda>transport.
         bind_io (log_effects E Info
           ''Detected virtio PCI device with device type {:?}, features {:#018x}, status {:?}''
           (bind_io (call (\<lambda>h. features_reply V h transport) (Virtio (Read_features transport))) (\<lambda>features.
            bind_io (call (\<lambda>h. status_reply V h transport) (Virtio (Get_status transport))) (\<lambda>status.
            return_io [type_fmt (transport_device_type V transport), A_u64 features, A_u32 status])))) (\<lambda>_.
         init_virtio_device E V transport d))))) (\<lambda>d'.
     find_virtio_functions E V root fs d')"

definition find_virtio_pci_devices ::
  "'e pci_env_scheme \<Rightarrow> virtio_ops \<Rightarrow> u64 \<Rightarrow> devices \<Rightarrow> ('s io_state_scheme, devices) io" where
  "find_virtio_pci_devices E V root d =
     bind_io (log E Info ''Looking for VirtIO devices on PCI bus'' []) (\<lambda>_.
     bind_io (call (\<lambda>h. enumerate_reply E h root) (Pci (Pci_enumerate root))) (\<lambda>functions.
     find_virtio_functions E V root functions d))"

section \<open>Memory callbacks\<close>

definition virt_to_phys :: "u64 \<Rightarrow> u64" where
  "virt_to_phys vaddr = vaddr"

text \<open>The layout of so many pages.\<close>

definition dma_layout :: "virtio_ops \<Rightarrow> usize \<Rightarrow> layout res" where
  "dma_layout V pages =
     rbind (checked_mul pages (VIRTIO_PAGE_SIZE V)) (\<lambda>bytes.
     unwrap (layout_from_size_align bytes (VIRTIO_PAGE_SIZE V)))"

text \<open>\<^verbatim>\<open>dma_alloc\<close>: the physical and the virtual address. The allocator answers null when memory is out.\<close>

definition dma_alloc :: "virtio_ops \<Rightarrow> usize \<Rightarrow> ('s io_state_scheme, u64 \<times> u64) io" where
  "dma_alloc V pages =
     bind_io (lift_io (require (Assert_failed ''pages != 0'') (pages \<noteq> 0))) (\<lambda>_.
     bind_io (lift_io (dma_layout V pages)) (\<lambda>layout.
     bind_io (call (\<lambda>h. dma_alloc_reply V h (layout_size layout) (layout_align layout))
       (Virtio (Dma_alloc (layout_size layout) (layout_align layout)))) (\<lambda>vaddr.
     if vaddr = 0 then abort_io (Panic (Explicit ''memory allocation failed''))
     else return_io (virt_to_phys vaddr, vaddr))))"

definition dma_dealloc :: "virtio_ops \<Rightarrow> u64 \<Rightarrow> u64 \<Rightarrow> usize \<Rightarrow> ('s io_state_scheme, int) io" where
  "dma_dealloc V paddr vaddr pages =
     bind_io (lift_io (dma_layout V pages)) (\<lambda>layout.
     bind_io (emit (Virtio (Dma_dealloc vaddr (layout_size layout) (layout_align layout)))) (\<lambda>_.
     return_io 0))"

definition mmio_phys_to_virt :: "u64 \<Rightarrow> usize \<Rightarrow> u64 res" where
  "mmio_phys_to_virt paddr sz = non_null paddr"

definition share :: "u64 \<Rightarrow> u64" where
  "share buffer = virt_to_phys buffer"

definition unshare :: "u64 \<Rightarrow> u64 \<Rightarrow> ('s, unit) io" where
  "unshare paddr buffer = return_io ()"

section \<open>Devices are listed as their drivers are created\<close>

text \<open>The call that creates the driver of a transport, for the three supported types.\<close>

definition driver_event :: "virtio_ops \<Rightarrow> nat \<Rightarrow> virtio_event option" where
  "driver_event V n =
     (case transport_device_type V n of
        Block_device \<Rightarrow> Some (Blk_new n)
      | Console_device \<Rightarrow> Some (Vcon_new n)
      | Socket_device \<Rightarrow> Some (Vsock_new n)
      | Other_device _ \<Rightarrow> None)"

fun driver_events :: "event list \<Rightarrow> virtio_event list" where
  "driver_events [] = []"
| "driver_events (Virtio (Blk_new n) # es) = Blk_new n # driver_events es"
| "driver_events (Virtio (Vcon_new n) # es) = Vcon_new n # driver_events es"
| "driver_events (Virtio (Vsock_new n) # es) = Vsock_new n # driver_events es"
| "driver_events (_ # es) = driver_events es"

lemma driver_events_append [simp]: "driver_events (xs @ ys) = driver_events xs @ driver_events ys"
  by (induction xs rule: driver_events.induct) simp_all

lemma driver_events_Con [simp]: "driver_events (map Con es) = []"
  by (induction es) simp_all

text \<open>The transports that were found: those that the calls which create a transport gave.\<close>

definition transport_found :: "virtio_ops \<Rightarrow> event list \<Rightarrow> event \<Rightarrow> nat list" where
  "transport_found V h e =
     (case e of
        Virtio (Mmio_transport_new a n) \<Rightarrow> (case mmio_new_reply V h a n of Inl _ \<Rightarrow> [] | Inr transport \<Rightarrow> [transport])
      | Virtio (Pci_transport_new root df) \<Rightarrow> (case pci_new_reply V h root df of Inl _ \<Rightarrow> [] | Inr transport \<Rightarrow> [transport])
      | _ \<Rightarrow> [])"

text \<open>The calls that create a transport, and those that a node of the device tree or the functions of a bus give
  rise to.\<close>

definition is_try :: "event \<Rightarrow> bool" where
  "is_try e = (case e of Virtio (Mmio_transport_new _ _) \<Rightarrow> True | Virtio (Pci_transport_new _ _) \<Rightarrow> True | _ \<Rightarrow> False)"

definition mmio_tries :: "virtio_ops \<Rightarrow> fdt_node \<Rightarrow> event list" where
  "mmio_tries V node =
     (if is_compatible node [VIRTIO_MMIO_COMPATIBLE] then
        (case node_reg node of
           Inr (Some (region # _)) \<Rightarrow>
             (case (reg_address region, reg_size region) of
                (Inr a, Inr n) \<Rightarrow> if n < sizeof_VirtIOHeader V then [] else [Virtio (Mmio_transport_new a n)]
              | _ \<Rightarrow> [])
         | _ \<Rightarrow> [])
      else [])"

definition pci_tries :: "virtio_ops \<Rightarrow> u64 \<Rightarrow> (device_function \<times> nat) list \<Rightarrow> event list" where
  "pci_tries V root fs = [Virtio (Pci_transport_new root df). (df, info) \<leftarrow> fs, virtio_device_type V info \<noteq> None]"

lemma found_Con [simp]: "transport_found V h (Con c) = []" "transport_found V h (Pci p) = []"
  by (simp_all add: transport_found_def)

lemma is_try_simps [simp]:
  "\<not> is_try (Con c)" "\<not> is_try (Pci p)" "is_try (Virtio (Mmio_transport_new a n))" "is_try (Virtio (Pci_transport_new r df))"
  by (simp_all add: is_try_def)

lemma found_tried: "\<not> is_try e \<Longrightarrow> transport_found V h e = []"
  by (auto simp: transport_found_def is_try_def split: event.splits virtio_event.splits)

lemma map_filter_append: "List.map_filter f (xs @ ys) = List.map_filter f xs @ List.map_filter f ys"
  by (simp add: List.map_filter_def)

text \<open>\<open>listed V qs s d t d'\<close>: between \<open>s\<close> and \<open>t\<close> the calls that create a transport were \<open>qs\<close>, and for the transports that
  they gave drivers were created, in this order and each with the driver of its type, and \<open>d'\<close> is \<open>d\<close> with them added
  to the lists of their types; transports of other types got none.\<close>

definition listed ::
  "virtio_ops \<Rightarrow> event list \<Rightarrow> 's io_state_scheme \<Rightarrow> devices \<Rightarrow> 's io_state_scheme \<Rightarrow> devices \<Rightarrow> bool" where
  "listed V qs s d t d' \<longleftrightarrow>
     (\<exists>es ns. t = s\<lparr>trace := trace s @ es\<rparr> \<and> filter is_try es = qs \<and>
        gather (transport_found V) (trace t) = gather (transport_found V) (trace s) @ ns \<and>
        driver_events es = List.map_filter (driver_event V) ns \<and>
        d' = \<lparr>dev_rtc = dev_rtc d,
          dev_block = dev_block d @ filter (\<lambda>n. transport_device_type V n = Block_device) ns,
          dev_console = dev_console d @ filter (\<lambda>n. transport_device_type V n = Console_device) ns,
          dev_vsock = dev_vsock d @ filter (\<lambda>n. transport_device_type V n = Socket_device) ns\<rparr>)"

lemma listed_trans:
  assumes "listed V ps s d t d'" and "listed V qs t d' u d''"
  shows "listed V (ps @ qs) s d u d''"
proof -
  from assms(1) obtain es ns where 1: "t = s\<lparr>trace := trace s @ es\<rparr>" "filter is_try es = ps"
    "gather (transport_found V) (trace t) = gather (transport_found V) (trace s) @ ns"
    "driver_events es = List.map_filter (driver_event V) ns"
    "d' = \<lparr>dev_rtc = dev_rtc d,
          dev_block = dev_block d @ filter (\<lambda>n. transport_device_type V n = Block_device) ns,
          dev_console = dev_console d @ filter (\<lambda>n. transport_device_type V n = Console_device) ns,
          dev_vsock = dev_vsock d @ filter (\<lambda>n. transport_device_type V n = Socket_device) ns\<rparr>"
    unfolding listed_def by blast
  from assms(2) obtain fs ms where 2: "u = t\<lparr>trace := trace t @ fs\<rparr>" "filter is_try fs = qs"
    "gather (transport_found V) (trace u) = gather (transport_found V) (trace t) @ ms"
    "driver_events fs = List.map_filter (driver_event V) ms"
    "d'' = \<lparr>dev_rtc = dev_rtc d',
          dev_block = dev_block d' @ filter (\<lambda>n. transport_device_type V n = Block_device) ms,
          dev_console = dev_console d' @ filter (\<lambda>n. transport_device_type V n = Console_device) ms,
          dev_vsock = dev_vsock d' @ filter (\<lambda>n. transport_device_type V n = Socket_device) ms\<rparr>"
    unfolding listed_def by blast
  have "u = s\<lparr>trace := trace s @ es @ fs\<rparr>" using 1(1) 2(1) by simp
  moreover have "gather (transport_found V) (trace u) = gather (transport_found V) (trace s) @ ns @ ms"
    using 1(3) 2(3) by simp
  ultimately show ?thesis unfolding listed_def
    using 1(2,4) 2(2,4) by (intro exI [of _ "es @ fs"] exI [of _ "ns @ ms"]) (simp add: 1(5) 2(5) map_filter_append)
qed

lemma listed_quiet:
  assumes "driver_events es = []" and "filter is_try es = []"
  shows "listed V [] s d (s\<lparr>trace := trace s @ es\<rparr>) d"
proof -
  have "transport_found V h e = []" if "e \<in> set es" for h e
    using assms(2) that by (auto simp: filter_empty_conv intro: found_tried)
  then have "gather (transport_found V) (trace s @ es) = gather (transport_found V) (trace s)"
    by (rule gather_silent)
  with assms show ?thesis unfolding listed_def
    by (intro exI [of _ es] exI [of _ "[]"]) (simp add: filter_empty_conv List.map_filter_simps)
qed

lemma listed_nothing: "listed V [] s d s d"
  using listed_quiet [of "[]" V s d] by simp

lemma log_listed: "log E lvl lit args s = (Inr u, t) \<Longrightarrow> listed V [] s d t d"
  by (erule log_state) (auto simp: filter_empty_conv intro!: listed_quiet)

lemma log_effects_returned:
  assumes "log_effects E lvl lit args s = (Inr u, t)"
    and "\<And>xs v. args s = (Inr xs, v) \<Longrightarrow> listed V [] s d v d"
  shows "listed V [] s d t d"
proof (cases "logs lvl s")
  case True
  with assms(1) obtain xs v where "args s = (Inr xs, v)" "log E lvl lit xs v = (Inr u, t)"
    by (auto simp: log_effects_def logs_def rets split: option.splits)
  with listed_trans [OF assms(2) log_listed] show ?thesis by fastforce
next
  case False
  with assms(1) have "t = s" by (auto simp: log_effects_def logs_def rets split: option.splits if_splits)
  then show ?thesis by (simp add: listed_nothing)
qed

text \<open>A call that gives a transport, with what follows it.\<close>

lemma init_virtio_device_listed:
  assumes "init_virtio_device E V n d u = (Inr d', t)" and "is_try e" and "transport_found V (trace s) e = [n]"
    and "listed V [] (s\<lparr>trace := trace s @ [e]\<rparr>) d u d"
  shows "listed V [e] s d t d'"
proof -
  let ?s = "s\<lparr>trace := trace s @ [e]\<rparr>"
  from assms(4) obtain es ns where es: "u = ?s\<lparr>trace := trace ?s @ es\<rparr>" "filter is_try es = []"
    "gather (transport_found V) (trace u) = gather (transport_found V) (trace ?s) @ ns"
    "driver_events es = List.map_filter (driver_event V) ns" and d: "d = \<lparr>dev_rtc = dev_rtc d,
          dev_block = dev_block d @ filter (\<lambda>n. transport_device_type V n = Block_device) ns,
          dev_console = dev_console d @ filter (\<lambda>n. transport_device_type V n = Console_device) ns,
          dev_vsock = dev_vsock d @ filter (\<lambda>n. transport_device_type V n = Socket_device) ns\<rparr>"
    unfolding listed_def by blast
  have "transport_found V h x = []" if "x \<in> set es" for h x
    using es(2) that by (auto simp: filter_empty_conv intro: found_tried)
  then have "gather (transport_found V) ((trace s @ [e]) @ es) = gather (transport_found V) (trace s @ [e])"
    by (rule gather_silent)
  then have found: "gather (transport_found V) (trace u) = gather (transport_found V) (trace s) @ [n]"
    using es(1) assms(3) by (simp add: gather_snoc)
  with es(3) assms(3) have ns: "ns = []" by (simp add: gather_snoc)
  then have quiet: "driver_events es = []" using es(4) by (simp add: List.map_filter_simps)
  have first: "driver_events [e] = []" using assms(2) by (auto simp: is_try_def split: event.splits virtio_event.splits)
  have final: "listed V [e] s d t d'"
    if t: "t = u\<lparr>trace := trace u @ fs\<rparr>" and fs: "filter is_try fs = []"
      and drv: "driver_events fs = List.map_filter (driver_event V) [n]" and d': "d' = \<lparr>dev_rtc = dev_rtc d,
          dev_block = dev_block d @ filter (\<lambda>n. transport_device_type V n = Block_device) [n],
          dev_console = dev_console d @ filter (\<lambda>n. transport_device_type V n = Console_device) [n],
          dev_vsock = dev_vsock d @ filter (\<lambda>n. transport_device_type V n = Socket_device) [n]\<rparr>" for fs
  proof -
    have "transport_found V h x = []" if "x \<in> set fs" for h x
      using fs that by (auto simp: filter_empty_conv intro: found_tried)
    then have "gather (transport_found V) (trace t) = gather (transport_found V) (trace s) @ [n]"
      using t found by (simp add: gather_silent)
    moreover have "driver_events (e # es @ fs) = List.map_filter (driver_event V) [n]"
      using first quiet drv driver_events_append [of "[e]" "es @ fs"] by simp
    ultimately show ?thesis unfolding listed_def
      using t es(1,2) fs d' assms(2) by (intro exI [of _ "e # es @ fs"] exI [of _ "[n]"]) simp
  qed
  show ?thesis
  proof (cases "transport_device_type V n")
    case (Other_device k)
    with assms(1) obtain ls where "t = u\<lparr>trace := trace u @ map Con ls\<rparr>" "d' = d"
      by (auto simp: init_virtio_device_def rets_bind rets_return elim!: log_state)
    with Other_device show ?thesis
      by (intro final [of "map Con ls"]) (simp_all add: driver_event_def List.map_filter_simps filter_empty_conv)
  next
    case Block_device
    with assms(1) show ?thesis
      by (intro final [of "[Virtio (Blk_new n)]"])
        (auto simp: init_virtio_device_def driver_new_def rets driver_event_def List.map_filter_simps is_try_def)
  next
    case Console_device
    with assms(1) show ?thesis
      by (intro final [of "[Virtio (Vcon_new n)]"])
        (auto simp: init_virtio_device_def driver_new_def rets driver_event_def List.map_filter_simps is_try_def)
  next
    case Socket_device
    with assms(1) show ?thesis
      by (intro final [of "[Virtio (Vsock_new n)]"])
        (auto simp: init_virtio_device_def driver_new_def rets driver_event_def List.map_filter_simps is_try_def)
  qed
qed

lemma init_mmio_transport_listed:
  assumes "init_mmio_transport E V header sz d s = (Inr d', t)"
  shows "listed V [Virtio (Mmio_transport_new header sz)] s d t d'"
proof -
  let ?e = "Virtio (Mmio_transport_new header sz)"
  let ?s = "s\<lparr>trace := trace s @ [?e]\<rparr>"
  show ?thesis
  proof (cases "mmio_new_reply V (trace s) header sz")
    case (Inl err)
    then have "listed V [?e] s d ?s d"
      unfolding listed_def
      by (intro exI [of _ "[?e]"] exI [of _ "[]"]) (simp add: gather_snoc transport_found_def List.map_filter_simps)
    moreover from assms Inl have "listed V [] ?s d t d'"
      by (auto simp: init_mmio_transport_def rets_bind rets_return rets_call dest!: log_listed split: if_splits)
    ultimately show ?thesis using listed_trans by fastforce
  next
    case (Inr n)
    from assms Inr obtain v u where log: "log_effects E Info
           ''Detected virtio MMIO device with device type {:?}, vendor ID {:#x}, version {:?}, features {:#018x}''
           (bind_io (gets_io (\<lambda>s. transport_vendor_id V (trace s) n)) (\<lambda>vendor.
            bind_io (call (\<lambda>h. features_reply V h n) (Virtio (Read_features n))) (\<lambda>features.
            return_io [type_fmt (transport_device_type V n), A_u32 vendor,
              A_token (transport_version V n), A_u64 features]))) ?s = (Inr v, u)"
      and init: "init_virtio_device E V n d u = (Inr d', t)"
      by (auto simp: init_mmio_transport_def rets_bind rets_call)
    have "listed V [] ?s d u d"
      by (rule log_effects_returned [OF log])
        (use listed_quiet [of "[Virtio (Read_features n)]" V ?s d] in \<open>auto simp: rets is_try_def\<close>)
    with init Inr show ?thesis by (intro init_virtio_device_listed) (simp_all add: transport_found_def)
  qed
qed

lemma find_virtio_mmio_region_listed:
  assumes "find_virtio_mmio_region E V name reg d s = (Inr d', t)"
    and "is_compatible node [VIRTIO_MMIO_COMPATIBLE]" and "node_reg node = Inr (Some reg)"
  shows "listed V (mmio_tries V node) s d t d'"
proof (cases reg)
  case Nil
  with assms show ?thesis by (auto simp: find_virtio_mmio_region_def mmio_tries_def rets_bind rets_return dest!: log_listed)
next
  case (Cons region rest)
  with assms show ?thesis
    by (auto simp: find_virtio_mmio_region_def mmio_tries_def rets_bind rets_lift rets_return non_null_def
        dest!: log_listed init_mmio_transport_listed split: if_splits sum.split)
qed

lemma find_virtio_mmio_device_listed:
  assumes "find_virtio_mmio_device E V node d s = (Inr d', t)"
  shows "listed V (mmio_tries V node) s d t d'"
proof (cases "is_compatible node [VIRTIO_MMIO_COMPATIBLE]")
  case False
  with assms show ?thesis by (auto simp: find_virtio_mmio_device_def mmio_tries_def rets listed_nothing)
next
  case True
  with assms obtain s1 reg where log: "log E Debug ''Found VirtIO MMIO device {}'' [A_str (node_name node)] s = (Inr (), s1)"
    and reg: "node_reg node = Inr (Some reg)"
    and rest: "find_virtio_mmio_region E V (node_name node) reg d s1 = (Inr d', t)"
    by (auto simp: find_virtio_mmio_device_def rets_bind rets_lift)
  from listed_trans [OF log_listed [OF log] find_virtio_mmio_region_listed [OF rest True reg]] show ?thesis by simp
qed

lemma find_virtio_mmio_nodes_listed:
  "find_virtio_mmio_nodes E V nodes d s = (Inr d', t) \<Longrightarrow> listed V (concat (map (mmio_tries V) nodes)) s d t d'"
proof (induction nodes arbitrary: d s)
  case Nil
  then show ?case by (auto simp: rets listed_nothing)
next
  case (Cons node nodes)
  then show ?case
    by (auto simp: rets_bind dest!: find_virtio_mmio_device_listed intro: listed_trans)
qed


lemma find_virtio_functions_listed:
  "find_virtio_functions E V root fs d s = (Inr d', t) \<Longrightarrow> listed V (pci_tries V root fs) s d t d'"
proof (induction fs arbitrary: d s)
  case Nil
  then show ?case by (auto simp: rets pci_tries_def listed_nothing)
next
  case (Cons f fs)
  obtain df info where f: "f = (df, info)" by (cases f)
  show ?case
  proof (cases "virtio_device_type V info")
    case None
    with Cons f show ?thesis by (simp add: bind_run return_io_def pci_tries_def)
  next
    case (Some ty)
    let ?e = "Virtio (Pci_transport_new root df)"
    from Cons.prems Some f obtain s1 n u v d1 s3 where
      1: "log E Info ''  VirtIO {virtio_type:?} {info} at {device_function}'' [type_fmt ty, A_token info, df_fmt df] s = (Inr (), s1)"
      and n: "pci_new_reply V (trace s1) root df = Inr n"
      and 2: "log_effects E Info ''Detected virtio PCI device with device type {:?}, features {:#018x}, status {:?}''
           (bind_io (call (\<lambda>h. features_reply V h n) (Virtio (Read_features n))) (\<lambda>features.
            bind_io (call (\<lambda>h. status_reply V h n) (Virtio (Get_status n))) (\<lambda>status.
            return_io [type_fmt (transport_device_type V n), A_u64 features, A_u32 status])))
            (s1\<lparr>trace := trace s1 @ [?e]\<rparr>) = (Inr u, v)"
      and 3: "init_virtio_device E V n d v = (Inr d1, s3)"
      and 4: "find_virtio_functions E V root fs d1 s3 = (Inr d', t)"
      by (auto simp: rets_bind rets_lift rets_call)
    have "listed V [] (s1\<lparr>trace := trace s1 @ [?e]\<rparr>) d v d"
      by (rule log_effects_returned [OF 2])
        (use listed_quiet [of "[Virtio (Read_features n), Virtio (Get_status n)]" V "s1\<lparr>trace := trace s1 @ [?e]\<rparr>" d]
          in \<open>auto simp: rets is_try_def\<close>)
    with 3 n have "listed V [?e] s1 d s3 d1"
      by (intro init_virtio_device_listed) (simp_all add: transport_found_def)
    from listed_trans [OF listed_trans [OF log_listed [OF 1] this] Cons.IH [OF 4]] Some f show ?thesis
      by (simp add: pci_tries_def)
  qed
qed


section \<open>Register blocks are used only where the device tree has them\<close>

definition mmio_region :: "virtio_ops \<Rightarrow> fdt_node \<Rightarrow> u64 \<Rightarrow> usize \<Rightarrow> bool" where
  "mmio_region V node a n \<longleftrightarrow> is_compatible node [VIRTIO_MMIO_COMPATIBLE] \<and>
     (\<exists>region rest. node_reg node = Inr (Some (region # rest)) \<and> reg_address region = Inr a \<and>
       reg_size region = Inr n \<and> a \<noteq> 0 \<and> sizeof_VirtIOHeader V \<le> n)"

fun mmio_blocks :: "event list \<Rightarrow> (u64 \<times> usize) list" where
  "mmio_blocks [] = []"
| "mmio_blocks (Virtio (Mmio_transport_new a n) # es) = (a, n) # mmio_blocks es"
| "mmio_blocks (_ # es) = mmio_blocks es"

lemma mmio_blocks_append [simp]: "mmio_blocks (xs @ ys) = mmio_blocks xs @ mmio_blocks ys"
  by (induction xs rule: mmio_blocks.induct) simp_all

lemma mmio_blocks_Con [simp]: "mmio_blocks (map Con es) = []"
  by (induction es) simp_all

definition no_blocks :: "'s io_state_scheme \<Rightarrow> 's io_state_scheme \<Rightarrow> bool" where
  "no_blocks s t \<longleftrightarrow> mmio_blocks (trace t) = mmio_blocks (trace s)"

interpretation nob: frame no_blocks
  by unfold_locales (simp_all add: no_blocks_def)

lemma no_blocks_log: "returns no_blocks (log E lvl lit args)"
  by (rule returnsI) (auto simp: no_blocks_def elim!: log_state)

lemma no_blocks_call: "mmio_blocks [ev] = [] \<Longrightarrow> returns no_blocks (call f ev)"
  by (rule returnsI) (simp add: no_blocks_def rets)

lemmas no_blocks_basic = nob.keeps_basic [THEN keeps_returns]

lemma no_blocks_effects: "returns no_blocks args \<Longrightarrow> returns no_blocks (log_effects E lvl lit args)"
  unfolding log_effects_def
  by (intro nob.returns_bind no_blocks_basic)
    (auto split: option.split intro!: nob.returns_bind no_blocks_log no_blocks_basic)

lemma no_blocks_device: "returns no_blocks (init_virtio_device E V n d)"
  unfolding init_virtio_device_def driver_new_def
  by (auto split: device_type.split intro!: nob.returns_bind no_blocks_log no_blocks_call no_blocks_basic)

lemma init_mmio_transport_blocks:
  assumes "init_mmio_transport E V a n d s = (Inr d', t)"
  shows "mmio_blocks (trace t) = mmio_blocks (trace s) @ [(a, n)]"
proof -
  have q: "returns no_blocks (case r of
       Inl e \<Rightarrow>
         bind_io (if e = Invalid_device_type 0
           then log E Debug ''Ignoring VirtIO device with zero device ID.'' []
           else log E Error ''Error creating VirtIO transport: {e}'' []) (\<lambda>_.
         return_io d)
     | Inr transport \<Rightarrow>
         bind_io (log_effects E Info
           ''Detected virtio MMIO device with device type {:?}, vendor ID {:#x}, version {:?}, features {:#018x}''
           (bind_io (gets_io (\<lambda>s. transport_vendor_id V (trace s) transport)) (\<lambda>vendor.
            bind_io (call (\<lambda>h. features_reply V h transport) (Virtio (Read_features transport))) (\<lambda>features.
            return_io [type_fmt (transport_device_type V transport), A_u32 vendor,
              A_token (transport_version V transport), A_u64 features])))) (\<lambda>_.
         init_virtio_device E V transport d))" for r
    by (auto split: sum.split
        intro!: nob.returns_bind no_blocks_log no_blocks_effects no_blocks_call no_blocks_device no_blocks_basic)
  show ?thesis
    using assms unfolding init_mmio_transport_def rets_bind rets_call
    by (elim exE conjE) (drule returnsD [OF q], simp add: no_blocks_def)
qed

lemma find_virtio_mmio_region_blocks:
  assumes "find_virtio_mmio_region E V name reg d s = (Inr d', t)"
  shows "mmio_blocks (trace t) = mmio_blocks (trace s) \<or>
    (\<exists>region rest a n. reg = region # rest \<and> reg_address region = Inr a \<and> reg_size region = Inr n \<and>
       a \<noteq> 0 \<and> sizeof_VirtIOHeader V \<le> n \<and> mmio_blocks (trace t) = mmio_blocks (trace s) @ [(a, n)])"
proof (cases reg)
  case Nil
  with assms show ?thesis
    by (auto simp: find_virtio_mmio_region_def rets_bind rets_return no_blocks_def dest!: returnsD [OF no_blocks_log])
next
  case (Cons region rest)
  with assms show ?thesis
    by (auto simp: find_virtio_mmio_region_def rets_bind rets_lift rets_return non_null_def no_blocks_def
        dest!: returnsD [OF no_blocks_log] init_mmio_transport_blocks split: if_splits)
qed

lemma find_virtio_mmio_device_blocks:
  assumes "find_virtio_mmio_device E V node d s = (Inr d', t)"
  shows "mmio_blocks (trace t) = mmio_blocks (trace s) \<or>
    (\<exists>a n. mmio_region V node a n \<and> mmio_blocks (trace t) = mmio_blocks (trace s) @ [(a, n)])"
proof (cases "is_compatible node [VIRTIO_MMIO_COMPATIBLE]")
  case False
  with assms show ?thesis by (auto simp: find_virtio_mmio_device_def rets)
next
  case True
  with assms obtain s1 reg where log: "log E Debug ''Found VirtIO MMIO device {}'' [A_str (node_name node)] s = (Inr (), s1)"
    and reg: "node_reg node = Inr (Some reg)"
    and rest: "find_virtio_mmio_region E V (node_name node) reg d s1 = (Inr d', t)"
    by (auto simp: find_virtio_mmio_device_def rets_bind rets_lift)
  have "mmio_blocks (trace s1) = mmio_blocks (trace s)"
    using returnsD [OF no_blocks_log log] by (simp add: no_blocks_def)
  with find_virtio_mmio_region_blocks [OF rest] True reg show ?thesis by (auto simp: mmio_region_def)
qed

lemma find_virtio_mmio_nodes_blocks:
  "find_virtio_mmio_nodes E V nodes d s = (Inr d', t) \<Longrightarrow>
    \<exists>bs. mmio_blocks (trace t) = mmio_blocks (trace s) @ bs \<and>
      (\<forall>(a, n)\<in>set bs. \<exists>node\<in>set nodes. mmio_region V node a n)"
proof (induction nodes arbitrary: d s)
  case Nil
  then show ?case by (auto simp: rets)
next
  case (Cons node nodes)
  then obtain d1 s1 where 1: "find_virtio_mmio_device E V node d s = (Inr d1, s1)"
    and 2: "find_virtio_mmio_nodes E V nodes d1 s1 = (Inr d', t)" by (auto simp: rets_bind)
  from Cons.IH [OF 2] obtain bs where bs: "mmio_blocks (trace t) = mmio_blocks (trace s1) @ bs"
    "\<forall>(a, n)\<in>set bs. \<exists>node\<in>set nodes. mmio_region V node a n" by blast
  from find_virtio_mmio_device_blocks [OF 1] show ?case
  proof
    assume "mmio_blocks (trace s1) = mmio_blocks (trace s)"
    with bs show ?thesis by auto
  next
    assume "\<exists>a n. mmio_region V node a n \<and> mmio_blocks (trace s1) = mmio_blocks (trace s) @ [(a, n)]"
    then obtain a n where "mmio_region V node a n" "mmio_blocks (trace s1) = mmio_blocks (trace s) @ [(a, n)]" by blast
    with bs show ?thesis by (intro exI [of _ "(a, n) # bs"]) auto
  qed
qed


section \<open>Properties\<close>

text \<open>C31: the two searches for VirtIO devices list what they find. The search of the device tree tries, in order, the
  first region of each compatible child of the root that is large enough, and the search of a PCI bus each function
  that is a VirtIO device, in the order in which the bus lists them; nothing else is tried. For the transports that
  this gives, in this order, a driver is created if the type is block, console or socket, and the lists of devices
  grow by exactly these, each in the list of its type. Transports of other types are left alone, and nothing but the
  record of what happened changes.\<close>

theorem virtio_devices_listed:
  shows "(find_virtio_mmio_devices E V fdt d s = (Inr d', t) \<longrightarrow>
      listed V (concat (map (mmio_tries V) (node_children (fdt_root fdt)))) s d t d') \<and>
    (find_virtio_pci_devices F V root d s = (Inr d', t) \<longrightarrow>
      (\<exists>es. listed V (pci_tries V root (enumerate_reply F (trace s @ map Con es) root)) s d t d'))"
proof (intro conjI impI)
  assume "find_virtio_mmio_devices E V fdt d s = (Inr d', t)"
  then show "listed V (concat (map (mmio_tries V) (node_children (fdt_root fdt)))) s d t d'"
    unfolding find_virtio_mmio_devices_def by (rule find_virtio_mmio_nodes_listed)
next
  assume "find_virtio_pci_devices F V root d s = (Inr d', t)"
  then obtain s1 where 1: "log F Info ''Looking for VirtIO devices on PCI bus'' [] s = (Inr (), s1)"
    and 2: "find_virtio_functions F V root (enumerate_reply F (trace s1) root) d
      (s1\<lparr>trace := trace s1 @ [Pci (Pci_enumerate root)]\<rparr>) = (Inr d', t)"
    by (auto simp: find_virtio_pci_devices_def rets_bind rets_call)
  from 1 obtain es where es: "trace s1 = trace s @ map Con es" by (auto elim: log_state)
  have "listed V [] s1 d (s1\<lparr>trace := trace s1 @ [Pci (Pci_enumerate root)]\<rparr>) d" by (rule listed_quiet) auto
  from listed_trans [OF listed_trans [OF log_listed [OF 1] this] find_virtio_functions_listed [OF 2]] es
  show "\<exists>es. listed V (pci_tries V root (enumerate_reply F (trace s @ map Con es) root)) s d t d'" by auto
qed

text \<open>C32: a register block is used as a VirtIO device only if the device tree has it: it is the first region of a child
  of the root that is compatible with \<^verbatim>\<open>virtio,mmio\<close>, its address is not null and it is at least as long as the
  header.\<close>

theorem virtio_mmio_regions:
  assumes "find_virtio_mmio_devices E V fdt d s = (Inr d', t)"
  shows "\<exists>bs. mmio_blocks (trace t) = mmio_blocks (trace s) @ bs \<and>
    (\<forall>(a, n)\<in>set bs. \<exists>node\<in>set (node_children (fdt_root fdt)). mmio_region V node a n)"
  using assms unfolding find_virtio_mmio_devices_def by (rule find_virtio_mmio_nodes_blocks)

lemma dma_layout_Inr:
  "dma_layout V pages = Inr l \<Longrightarrow>
     unat (pages * VIRTIO_PAGE_SIZE V) = unat pages * unat (VIRTIO_PAGE_SIZE V) \<and>
     l = \<lparr>layout_size = pages * VIRTIO_PAGE_SIZE V, layout_align = VIRTIO_PAGE_SIZE V\<rparr>"
  by (auto simp: dma_layout_def layout_from_size_align_Inr)
    (simp_all add: checked_mul_def unat_word_ariths split: if_splits)

text \<open>C33: memory for DMA is allocated in whole pages, without overflow, at an address that is its own physical
  address, is not null and is aligned to a page; releasing it never panics and passes the size and
  alignment it was allocated with. Assumed: the allocator honours the alignment asked for.\<close>

theorem dma_alloc_dealloc:
  fixes s :: "'s io_state_scheme"
  assumes align: "\<And>h n al. unat al dvd unat (dma_alloc_reply V h n al)"
    and run: "dma_alloc V pages s = (Inr (paddr, vaddr), t)"
  shows "paddr = vaddr \<and> vaddr \<noteq> 0 \<and> pages \<noteq> 0 \<and> unat (VIRTIO_PAGE_SIZE V) dvd unat vaddr \<and>
    unat (pages * VIRTIO_PAGE_SIZE V) = unat pages * unat (VIRTIO_PAGE_SIZE V) \<and>
    t = s\<lparr>trace := trace s @ [Virtio (Dma_alloc (pages * VIRTIO_PAGE_SIZE V) (VIRTIO_PAGE_SIZE V))]\<rparr> \<and>
    (\<forall>u :: 's io_state_scheme. dma_dealloc V paddr vaddr pages u =
       (Inr 0, u\<lparr>trace := trace u @ [Virtio (Dma_dealloc vaddr (pages * VIRTIO_PAGE_SIZE V) (VIRTIO_PAGE_SIZE V))]\<rparr>))"
proof -
  from run obtain l where l: "dma_layout V pages = Inr l" and p: "pages \<noteq> 0"
    and v: "vaddr = dma_alloc_reply V (trace s) (layout_size l) (layout_align l)" "vaddr \<noteq> 0" "paddr = vaddr"
    and t: "t = s\<lparr>trace := trace s @ [Virtio (Dma_alloc (layout_size l) (layout_align l))]\<rparr>"
    by (auto simp: dma_alloc_def virt_to_phys_def rets split: if_splits)
  have "dma_dealloc V paddr vaddr pages u =
       (Inr 0, u\<lparr>trace := trace u @ [Virtio (Dma_dealloc vaddr (pages * VIRTIO_PAGE_SIZE V) (VIRTIO_PAGE_SIZE V))]\<rparr>)"
    for u :: "'s io_state_scheme"
    using l dma_layout_Inr [OF l] by (simp add: dma_dealloc_def runs)
  moreover have "unat (VIRTIO_PAGE_SIZE V) dvd unat vaddr" using v(1) align dma_layout_Inr [OF l] by simp
  ultimately show ?thesis using p v t dma_layout_Inr [OF l] by simp
qed


section \<open>Concrete runs\<close>

definition ex_virtio :: virtio_ops where
  "ex_virtio = \<lparr>sizeof_VirtIOHeader = 256, VIRTIO_PAGE_SIZE = 4096, mmio_new_reply = (\<lambda>_ a _. Inr (if a = 0xA000000 then 0 else 1)),
     pci_new_reply = (\<lambda>_ _ _. Inr 2), transport_device_type = (\<lambda>n. if n = 0 then Block_device else Socket_device),
     transport_vendor_id = (\<lambda>_ _. 0), transport_version = (\<lambda>_. 2), features_reply = (\<lambda>_ _. 0), status_reply = (\<lambda>_ _. 0),
     driver_reply = (\<lambda>_ _. Inr ()), virtio_device_type = (\<lambda>_. None), dma_alloc_reply = (\<lambda>_ _ al. if al = 4096 then 0x10000 else 0)\<rparr>"

definition ex_virtio_node :: "u64 \<Rightarrow> fdt_node" where
  "ex_virtio_node a = Fdt_node ''virtio'' (Some [''virtio,mmio''])
     (Inr (Some [\<lparr>reg_address = Inr a, reg_size = Inr 512\<rparr>])) (Inr None) (\<lambda>_. None) []"

definition ex_virtio_fdt :: fdt where
  "ex_virtio_fdt = \<lparr>fdt_root = Fdt_node ''/'' None (Inr None) (Inr None) (\<lambda>_. None)
       [ex_virtio_node 0xA000000, ex_virtio_node 0xA000200],
     fdt_memory_reg = Inr (Inr None), fdt_cpus = Inr [], fdt_find_node = (\<lambda>_. None), fdt_find_compatible = (\<lambda>_. [])\<rparr>"

definition ex_quiet :: io_state where
  "ex_quiet = \<lparr>trace = [], held = [], masked = False, console_set = True, logger = None\<rparr>"

definition ex_found where
  "ex_found = find_virtio_mmio_devices ex_pt_env ex_virtio ex_virtio_fdt (devices_new 0x9010000) ex_quiet"

lemma ex_found_run:
  "find_virtio_mmio_devices ex_pt_env ex_virtio ex_virtio_fdt (devices_new 0x9010000) ex_quiet =
     (Inr \<lparr>dev_rtc = 0x9010000, dev_block = [0], dev_console = [], dev_vsock = [1]\<rparr>, snd ex_found)"
  "driver_events (trace (snd ex_found)) = [Blk_new 0, Vsock_new 1]"
  "mmio_blocks (trace (snd ex_found)) = [(0xA000000, 512), (0xA000200, 512)]"
  by (simp_all add: ex_found_def find_virtio_mmio_devices_def find_virtio_mmio_device_def find_virtio_mmio_region_def
      init_mmio_transport_def log_effects_def init_virtio_device_def driver_new_def ex_virtio_fdt_def ex_virtio_node_def
      is_compatible_def VIRTIO_MMIO_COMPATIBLE_def ex_quiet_def ex_virtio_def runs logs_def non_null_def devices_new_def)

theorem virtio_devices_listed_witness:
  "listed ex_virtio [Virtio (Mmio_transport_new 0xA000000 512), Virtio (Mmio_transport_new 0xA000200 512)] ex_quiet
     (devices_new 0x9010000) (snd ex_found) \<lparr>dev_rtc = 0x9010000, dev_block = [0], dev_console = [], dev_vsock = [1]\<rparr>"
proof -
  have "concat (map (mmio_tries ex_virtio) (node_children (fdt_root ex_virtio_fdt))) =
      [Virtio (Mmio_transport_new 0xA000000 512), Virtio (Mmio_transport_new 0xA000200 512)]"
    by (simp add: mmio_tries_def ex_virtio_fdt_def ex_virtio_node_def is_compatible_def VIRTIO_MMIO_COMPATIBLE_def ex_virtio_def)
  with virtio_devices_listed ex_found_run(1) show ?thesis by metis
qed

theorem virtio_mmio_regions_witness:
  "\<exists>node\<in>set (node_children (fdt_root ex_virtio_fdt)). mmio_region ex_virtio node 0xA000200 512"
  using virtio_mmio_regions [OF ex_found_run(1)] ex_found_run(3) by (auto simp: ex_quiet_def)

theorem dma_alloc_dealloc_witness:
  "\<exists>t. dma_alloc ex_virtio 3 ex_quiet = (Inr (0x10000, 0x10000), t) \<and>
     dma_dealloc ex_virtio 0x10000 0x10000 3 ex_quiet = (Inr 0, ex_quiet\<lparr>trace := [Virtio (Dma_dealloc 0x10000 12288 4096)]\<rparr>)"
proof -
  have p: "is_power_of_two (4096 :: u64)" by (simp add: is_power_of_two_def)
  have run: "dma_alloc ex_virtio 3 ex_quiet =
      (Inr (0x10000, 0x10000), ex_quiet\<lparr>trace := [Virtio (Dma_alloc 12288 4096)]\<rparr>)"
    by (simp add: dma_alloc_def dma_layout_def layout_from_size_align_def p checked_mul_def ex_virtio_def ex_quiet_def
        runs virt_to_phys_def)
  have "unat al dvd unat (dma_alloc_reply ex_virtio h n al)" for h n al
    by (simp add: ex_virtio_def)
  from dma_alloc_dealloc [OF this run]
  have "dma_dealloc ex_virtio 0x10000 0x10000 3 ex_quiet = (Inr 0, ex_quiet\<lparr>trace := trace ex_quiet @
      [Virtio (Dma_dealloc 0x10000 (3 * VIRTIO_PAGE_SIZE ex_virtio) (VIRTIO_PAGE_SIZE ex_virtio))]\<rparr>)" by blast
  moreover have "VIRTIO_PAGE_SIZE ex_virtio = 4096" "trace ex_quiet = []" by (simp_all add: ex_virtio_def ex_quiet_def)
  ultimately show ?thesis using run by simp
qed

end
