(* ===== verification/Shell.thy ===== *)
theory Shell
  imports Frames Virtio
begin

text \<open>
  apps/shell.rs: reading a line, the commands, and the loop of the shell.

  Loops that wait for the outside carry a bound: \<open>waits\<close> bounds the looks at the console of one read, and each
  loop has a bound of its own. A run that exceeds a bound ends with \<open>Still_running\<close>, so a run that returns is
  one of the program; how large a bound has to be is part of the properties.
\<close>

section \<open>Reading a line\<close>

definition EOF :: u8 where
  "EOF = 0x04"

definition is_ascii_control :: "u8 \<Rightarrow> bool" where
  "is_ascii_control c \<longleftrightarrow> c < 0x20 \<or> c = 0x7F"

definition LINE_CAPACITY :: nat where
  "LINE_CAPACITY = 128"

text \<open>\<^verbatim>\<open>ArrayVec::push\<close>: panics when the vector is full.\<close>

definition array_push :: "nat \<Rightarrow> 'a list \<Rightarrow> 'a \<Rightarrow> 'a list res" where
  "array_push capacity xs x =
     (if length xs < capacity then Inr (xs @ [x]) else Inl (Panic Capacity_exceeded))"

text \<open>\<^verbatim>\<open>console.read_exact(&mut c).unwrap()\<close> for one byte: a read that gives nothing is an error.\<close>

definition read_char ::
  "'e con_env_scheme \<Rightarrow> ('s io_state_scheme, unit) io \<Rightarrow> nat \<Rightarrow> ('s io_state_scheme, u8) io" where
  "read_char E irqs waits =
     bind_io (console_read E irqs 1 waits) (\<lambda>r.
     bind_io (lift_io (unwrap r)) (\<lambda>bytes.
     case bytes of
       [] \<Rightarrow> abort_io (Panic Unwrap_err)
     | c # _ \<Rightarrow> return_io c))"

fun read_line ::
  "'e con_env_scheme \<Rightarrow> ('s io_state_scheme, unit) io \<Rightarrow> nat \<Rightarrow> nat \<Rightarrow> u8 list \<Rightarrow>
   ('s io_state_scheme, u8 list) io" where
  "read_line E irqs waits 0 line = abort_io Still_running"
| "read_line E irqs waits (Suc n) line =
     bind_io (read_char E irqs waits) (\<lambda>c.
     if c = 0x0D \<or> c = 0x0A then
       bind_io (con_bytes E [0x0D, 0x0A]) (\<lambda>_.
       return_io line)
     else if c = EOF \<and> line = [] then
       bind_io (con_bytes E [0x0D, 0x0A]) (\<lambda>_.
       lift_io (array_push LINE_CAPACITY line EOF))
     else if \<not> is_ascii_control c then
       bind_io (con_bytes E [c]) (\<lambda>_.
       bind_io (lift_io (array_push LINE_CAPACITY line c)) (\<lambda>line'.
       read_line E irqs waits n line'))
     else read_line E irqs waits n line)"

section \<open>Commands that print\<close>

text \<open>What the shell asks of the drivers: the identifier of a block device, its capacity and whether it is
  read-only; the size of a console device; the context identifier of a socket device; status and command of a
  PCI function; and the calls on a socket device.\<close>

record shell_ops =
  blk_id_reply :: "event list \<Rightarrow> nat \<Rightarrow> virtio_error + u8 list"
  blk_capacity :: "nat \<Rightarrow> u64"
  blk_readonly :: "nat \<Rightarrow> bool"
  vcon_size_reply :: "event list \<Rightarrow> nat \<Rightarrow> virtio_error + nat"
  guest_cid :: "nat \<Rightarrow> u64"
  status_command_reply :: "event list \<Rightarrow> u64 \<Rightarrow> device_function \<Rightarrow> nat \<times> nat"
  vsock_reply :: "event list \<Rightarrow> virtio_event \<Rightarrow> virtio_error + unit"
  poll_reply :: "event list \<Rightarrow> nat \<Rightarrow> virtio_error + vsock_event option"
  available_reply :: "event list \<Rightarrow> nat \<Rightarrow> virtio_error + nat"
  recv_reply :: "event list \<Rightarrow> nat \<Rightarrow> nat \<Rightarrow> virtio_error + u8 list"

definition date :: "'e con_env_scheme \<Rightarrow> rtc_ops \<Rightarrow> ('s io_state_scheme, unit) io" where
  "date E R =
     bind_io (rtc_get_time R) (\<lambda>time.
     con_fmt E ''{time}'' [A_int time])"

definition dtdump :: "'e con_env_scheme \<Rightarrow> fdt \<Rightarrow> ('s io_state_scheme, unit) io" where
  "dtdump E fdt = con_fmt E ''{fdt}'' []"

definition help_lines :: "string list" where
  "help_lines = [
     ''Commands:'',
     ''  alarm - Sets an alarm in the future'',
     ''  cpus - Lists the state of all CPUs'',
     ''  date - Prints the current date and time'',
     ''  dtdump - Dumps the device tree to the console'',
     ''  exit - Exits the shell and powers off the system'',
     ''  help - Prints this help'',
     ''  sgi - Sends a software-generated interrupt'',
     ''  lsdev - Lists devices'',
     ''  lspci - Lists devices on the PCI bus'',
     ''  start_cpu - Starts a secondary CPU'',
     ''  vcat - Communicates with a vsock port'']"

definition shell_help :: "'e con_env_scheme \<Rightarrow> ('s io_state_scheme, unit) io" where
  "shell_help E = for_each help_lines (\<lambda>l. con_fmt E l [])"

definition lsdev_block ::
  "'e con_env_scheme \<Rightarrow> shell_ops \<Rightarrow> nat \<times> nat \<Rightarrow> ('s io_state_scheme, unit) io" where
  "lsdev_block E S = (\<lambda>(i, device).
     bind_io (call (\<lambda>h. blk_id_reply S h device) (Virtio (Blk_id device))) (\<lambda>r.
     bind_io (case r of
        Inr bytes \<Rightarrow>
          bind_io (lift_io (require Out_of_bounds (length bytes \<le> 20))) (\<lambda>_.
          return_io bytes)
      | Inl e \<Rightarrow>
          bind_io (con_fmt E ''Error getting ID: {e}'' []) (\<lambda>_.
          return_io [])) (\<lambda>id_bytes.
     bind_io (lift_io (require Unwrap_err (utf8_valid id_bytes))) (\<lambda>_.
     con_fmt E ''  {}: {}, capacity {} sectors, {}''
       [A_nat i, A_bytes id_bytes, A_u64 (blk_capacity S device),
        A_str (if blk_readonly S device then ''read-only'' else ''read-write'')]))))"

definition lsdev :: "'e con_env_scheme \<Rightarrow> shell_ops \<Rightarrow> devices \<Rightarrow> ('s io_state_scheme, unit) io" where
  "lsdev E S d =
     block_io [
       con_fmt E ''Block devices:'' [],
       for_each (List.enumerate 0 (dev_block d)) (lsdev_block E S),
       con_fmt E ''Console devices:'' [],
       for_each (List.enumerate 0 (dev_console d)) (\<lambda>(i, device).
         bind_io (call (\<lambda>h. vcon_size_reply S h device) (Virtio (Vcon_size device))) (\<lambda>r.
         bind_io (lift_io (unwrap r)) (\<lambda>sz.
         con_fmt E ''  {}: {:?}'' [A_nat i, A_token sz]))),
       con_fmt E ''Vsock devices:'' [],
       for_each (List.enumerate 0 (dev_vsock d)) (\<lambda>(i, device).
         con_fmt E ''  {}: guest CID {}'' [A_nat i, A_u64 (guest_cid S device)])]"

definition lspci_function ::
  "'e pci_env_scheme \<Rightarrow> virtio_ops \<Rightarrow> shell_ops \<Rightarrow> u64 \<Rightarrow> device_function \<times> nat \<Rightarrow>
   ('s io_state_scheme, unit) io" where
  "lspci_function E V S root = (\<lambda>(df, info).
     bind_io (call (\<lambda>h. status_command_reply S h root df) (Pci (Pci_status root df))) (\<lambda>(status, command).
     bind_io (con_fmt E ''{info} at {device_function}, status {status:?} command {command:?}''
       [A_token info, df_fmt df, A_token status, A_token command]) (\<lambda>_.
     bind_io (case virtio_device_type V info of
        Some virtio_type \<Rightarrow> con_fmt E ''  VirtIO {virtio_type:?}'' [type_fmt virtio_type]
      | None \<Rightarrow> return_io ()) (\<lambda>_.
     bind_io (call (\<lambda>h. bars_reply E h root df) (Pci (Pci_bars root df))) (\<lambda>r.
     bind_io (lift_io (unwrap r)) (\<lambda>bars.
     for_each (List.enumerate 0 bars) (\<lambda>(bar_index, info).
       case info of
         Some info \<Rightarrow> con_fmt E ''  BAR {bar_index}: {info}'' [A_nat bar_index, bar_fmt info]
       | None \<Rightarrow> return_io ())))))))"

definition lspci ::
  "'e pci_env_scheme \<Rightarrow> virtio_ops \<Rightarrow> shell_ops \<Rightarrow> u64 list \<Rightarrow> ('s io_state_scheme, unit) io" where
  "lspci E V S pci_roots =
     bind_io (con_fmt E ''{} PCI roots'' [A_nat (length pci_roots)]) (\<lambda>_.
     for_each pci_roots (\<lambda>root.
       bind_io (call (\<lambda>h. enumerate_reply E h root) (Pci (Pci_enumerate root))) (\<lambda>functions.
       for_each functions (lspci_function E V S root))))"

section \<open>Talking to a socket\<close>

definition LOCAL_PORT :: u32 where
  "LOCAL_PORT = 42"

text \<open>\<^verbatim>\<open>while vsock.recv_buffer_available_bytes(...).unwrap() > 0\<close>.\<close>

fun vcat_receive ::
  "'e con_env_scheme \<Rightarrow> shell_ops \<Rightarrow> nat \<Rightarrow> u64 \<Rightarrow> u32 \<Rightarrow> nat \<Rightarrow> ('s io_state_scheme, unit) io" where
  "vcat_receive E S vsock cid port 0 = abort_io Still_running"
| "vcat_receive E S vsock cid port (Suc n) =
     bind_io (call (\<lambda>h. available_reply S h vsock) (Virtio (Vsock_available vsock cid port LOCAL_PORT))) (\<lambda>r.
     bind_io (lift_io (unwrap r)) (\<lambda>available.
     if available > 0 then
       bind_io (call (\<lambda>h. recv_reply S h vsock 10) (Virtio (Vsock_recv vsock cid port LOCAL_PORT 10))) (\<lambda>r.
       bind_io (lift_io (unwrap r)) (\<lambda>bytes.
       bind_io (con_bytes E bytes) (\<lambda>_.
       vcat_receive E S vsock cid port n)))
     else return_io ()))"

text \<open>What an event of the peer does: whether the connection goes on.\<close>

definition vcat_event ::
  "'e con_env_scheme \<Rightarrow> shell_ops \<Rightarrow> nat \<Rightarrow> u64 \<Rightarrow> u32 \<Rightarrow> nat \<Rightarrow> vsock_event \<Rightarrow> ('s io_state_scheme, bool) io" where
  "vcat_event E S vsock cid port n event =
     (if destination_port event = LOCAL_PORT \<and> source_cid event = cid \<and> source_port event = port then
        (case event_type event of
           Connected \<Rightarrow> bind_io (con_fmt E ''Connected.'' []) (\<lambda>_. return_io True)
         | Disconnected_shutdown \<Rightarrow> bind_io (con_fmt E ''Connection shut down.'' []) (\<lambda>_. return_io False)
         | Disconnected_reset \<Rightarrow> bind_io (con_fmt E ''Connection reset.'' []) (\<lambda>_. return_io False)
         | Received \<Rightarrow> bind_io (vcat_receive E S vsock cid port n) (\<lambda>_. return_io True)
         | Credit_update \<Rightarrow> return_io True
         | Other_vsock_event \<Rightarrow> bind_io (con_fmt E ''Event: {event:?}'' []) (\<lambda>_. return_io True))
      else
        bind_io (con_fmt E ''Event for unexpected source or destination: {event:?}'' []) (\<lambda>_. return_io True))"

text \<open>The part of the loop that passes on what is typed.\<close>

definition vcat_send ::
  "'e con_env_scheme \<Rightarrow> shell_ops \<Rightarrow> ('s io_state_scheme, unit) io \<Rightarrow> nat \<Rightarrow> nat \<Rightarrow> u64 \<Rightarrow> u32 \<Rightarrow>
   ('s io_state_scheme, unit) io" where
  "vcat_send E S irqs waits vsock cid port =
     bind_io (console_read_ready E) (\<lambda>r.
     bind_io (lift_io (unwrap r)) (\<lambda>ready.
     if ready then
       bind_io (console_read E irqs 8 waits) (\<lambda>r.
       bind_io (lift_io (unwrap r)) (\<lambda>bytes.
       bind_io (call (\<lambda>h. vsock_reply S h (Vsock_send vsock cid port LOCAL_PORT bytes))
         (Virtio (Vsock_send vsock cid port LOCAL_PORT bytes))) (\<lambda>r.
       lift_io (unwrap r))))
     else return_io ()))"

fun vcat_loop ::
  "'e con_env_scheme \<Rightarrow> shell_ops \<Rightarrow> ('s io_state_scheme, unit) io \<Rightarrow> nat \<Rightarrow> nat \<Rightarrow> u64 \<Rightarrow> u32 \<Rightarrow> nat \<Rightarrow>
   ('s io_state_scheme, unit) io" where
  "vcat_loop E S irqs waits vsock cid port 0 = abort_io Still_running"
| "vcat_loop E S irqs waits vsock cid port (Suc n) =
     bind_io (vcat_send E S irqs waits vsock cid port) (\<lambda>_.
     bind_io (call (\<lambda>h. poll_reply S h vsock) (Virtio (Vsock_poll vsock))) (\<lambda>r.
     bind_io (lift_io (unwrap r)) (\<lambda>polled.
     case polled of
       None \<Rightarrow> vcat_loop E S irqs waits vsock cid port n
     | Some event \<Rightarrow>
         bind_io (vcat_event E S vsock cid port n event) (\<lambda>more.
         if more then vcat_loop E S irqs waits vsock cid port n else return_io ()))))"

definition vcat ::
  "'e con_env_scheme \<Rightarrow> shell_ops \<Rightarrow> ('s io_state_scheme, unit) io \<Rightarrow> nat \<Rightarrow> u8 list list \<Rightarrow> nat list \<Rightarrow>
   ('s io_state_scheme, unit) io" where
  "vcat E S irqs n args vsocks =
     bind_io (lift_io (require Capacity_exceeded (length args \<le> 4))) (\<lambda>_.
     if length args \<noteq> 2 then
       bind_io (con_fmt E ''Usage:'' []) (\<lambda>_.
       con_fmt E ''  vcat <CID> <port>'' [])
     else
       case parse_u64 (args ! 0) of
         None \<Rightarrow> con_fmt E ''Invalid CID {}'' [A_bytes (args ! 0)]
       | Some cid \<Rightarrow>
      (case parse_u32 (args ! 1) of
         None \<Rightarrow> con_fmt E ''Invalid port {}'' [A_bytes (args ! 1)]
       | Some port \<Rightarrow>
      (case next_opt vsocks of
         None \<Rightarrow> con_fmt E ''No vsock device found.'' []
       | Some vsock \<Rightarrow>
           bind_io (con_fmt E ''Connecting to {}:{}...'' [A_u64 cid, A_u32 port]) (\<lambda>_.
           bind_io (call (\<lambda>h. vsock_reply S h (Vsock_connect vsock cid port LOCAL_PORT))
             (Virtio (Vsock_connect vsock cid port LOCAL_PORT))) (\<lambda>r.
           bind_io (lift_io (unwrap r)) (\<lambda>_.
           vcat_loop E S irqs n vsock cid port n))))))"

section \<open>The shell\<close>

definition ascii :: "string \<Rightarrow> u8 list" where
  "ascii s = map of_char s"

text \<open>What the shell is given: the PCI roots, the devices and the device tree, and what it reaches through
  statics: the clock, the drivers, the heap of stacks.\<close>

record shell_args =
  arg_board :: board
  arg_rtc :: rtc_ops
  arg_virtio :: virtio_ops
  arg_ops :: shell_ops
  arg_heap :: stack_heap
  arg_roots :: "u64 list"
  arg_devices :: devices
  arg_fdt :: fdt

text \<open>The match on the command. The value is whether the shell goes on.\<close>

definition run_command ::
  "'e pci_env_scheme \<Rightarrow> shell_args \<Rightarrow> ((irq_handler, 's) sec_state_scheme, unit) io \<Rightarrow> nat \<Rightarrow> u8 list \<Rightarrow>
   u8 list list \<Rightarrow> ((irq_handler, 's) sec_state_scheme, bool) io" where
  "run_command E A irqs n command args =
     (let continue = (\<lambda>m. bind_io m (\<lambda>_. return_io True)) in
      if command = ascii ''alarm'' then continue (alarm E (arg_rtc A) (arg_board A) args)
      else if command = ascii ''date'' then continue (date E (arg_rtc A))
      else if command = ascii ''dtdump'' then continue (dtdump E (arg_fdt A))
      else if command = ascii ''exit'' then return_io False
      else if command = ascii ''help'' then continue (shell_help E)
      else if command = ascii ''sgi'' then continue (sgi E args)
      else if command = ascii ''lsdev'' then continue (lsdev E (arg_ops A) (arg_devices A))
      else if command = ascii ''lspci'' then continue (lspci E (arg_virtio A) (arg_ops A) (arg_roots A))
      else if command = ascii ''vcat'' then continue (vcat E (arg_ops A) irqs n args (dev_vsock (arg_devices A)))
      else if command = ascii ''cpus'' then continue (cpus E (arg_fdt A))
      else if command = ascii ''start_cpu'' then continue (start_cpu E (arg_heap A) (arg_fdt A) args)
      else if command = [] then return_io True
      else continue (con_fmt E ''Unrecognised command.'' []))"

text \<open>One turn of the loop after the line has been read.\<close>

definition run_line ::
  "'e pci_env_scheme \<Rightarrow> shell_args \<Rightarrow> ((irq_handler, 's) sec_state_scheme, unit) io \<Rightarrow> nat \<Rightarrow> u8 list \<Rightarrow>
   ((irq_handler, 's) sec_state_scheme, bool) io" where
  "run_line E A irqs n line =
     (if line = [EOF] then return_io False
      else if \<not> utf8_valid line then
        bind_io (con_fmt E ''Invalid UTF-8'' []) (\<lambda>_. return_io True)
      else
        case split_on 0x20 line of
          [] \<Rightarrow> return_io True
        | command # args \<Rightarrow> run_command E A irqs n command args)"

fun shell_loop ::
  "'e pci_env_scheme \<Rightarrow> shell_args \<Rightarrow> ((irq_handler, 's) sec_state_scheme, unit) io \<Rightarrow> nat \<Rightarrow> nat \<Rightarrow>
   ((irq_handler, 's) sec_state_scheme, unit) io" where
  "shell_loop E A irqs n 0 = abort_io Still_running"
| "shell_loop E A irqs n (Suc k) =
     bind_io (con_fmt E ''$ '' []) (\<lambda>_.
     bind_io (read_line E irqs n n []) (\<lambda>line.
     bind_io (run_line E A irqs n line) (\<lambda>more.
     if more then shell_loop E A irqs n k else return_io ())))"

definition shell_main ::
  "'e pci_env_scheme \<Rightarrow> shell_args \<Rightarrow> ((irq_handler, 's) sec_state_scheme, unit) io \<Rightarrow> nat \<Rightarrow>
   ((irq_handler, 's) sec_state_scheme, unit) io" where
  "shell_main E A irqs n =
     block_io [
       log E Info ''Configuring IRQs...'' [],
       emit (Gic (Gicc_set_priority_mask 0xff)),
       irq_setup E (arg_board A),
       irq_enable,
       shell_loop E A irqs n n,
       irq_remove E (arg_board A)]"

section \<open>What the commands leave alone\<close>

context command_view
begin

lemma stays_printing:
  "returns (stays P F) (date E R)" "returns (stays P F) (dtdump E fdt)" "returns (stays P F) (shell_help E)"
  unfolding date_def dtdump_def shell_help_def rtc_get_time_def by (intro stays_rules P_events)+

lemma stays_lsdev: "returns (stays P F) (lsdev E S d)"
  unfolding lsdev_def lsdev_block_def
  by (auto intro!: stays_rules P_events split: sum.split)

lemma stays_lspci: "returns (stays P F) (lspci E V S roots)"
  unfolding lspci_def lspci_function_def
  by (auto intro!: stays_rules P_events split: option.split prod.split)

lemma stays_vcat_receive: "returns (stays P F) (vcat_receive E S v cid port n)"
  by (induction n) (auto intro!: stays_rules P_events sty.returns_abort stays_console(1))

lemma stays_vcat_event: "returns (stays P F) (vcat_event E S v cid port n ev)"
  unfolding vcat_event_def
  by (auto intro!: stays_rules stays_vcat_receive split: vsock_event_type.split)

end

context command_frame
begin

lemma frame_read_line:
  assumes "returns R irqs"
  shows "returns R (read_line E irqs waits n line)"
proof (induction n arbitrary: line)
  case 0
  show ?case by (simp add: returns_abort)
next
  case (Suc n)
  have "returns R (read_char E irqs waits)"
    unfolding read_char_def using frame_console_read [OF assms]
    by (auto intro!: returns_bind frame_basic returns_abort split: list.split)
  with Suc show ?case
    by (auto intro!: returns_bind frame_basic in_frame [OF stays_console(1)])
qed

lemma frame_vcat:
  assumes "returns R irqs"
  shows "returns R (vcat E S irqs n args vs)"
proof -
  have call: "returns R (call f (Virtio e))" for f :: "event list \<Rightarrow> 'r" and e
    by (rule in_frame, intro stays_rules P_events)
  note rules = returns_bind frame_basic call in_frame [OF stays_con_fmt]
  have send: "returns R (vcat_send E S irqs w v cid port)" for w v cid port
    unfolding vcat_send_def using frame_console_read [OF assms]
    by (auto intro!: rules in_frame [OF stays_console(2)])
  have "returns R (vcat_loop E S irqs w v cid port k)" for w v cid port k
    by (induction k)
      (auto intro!: rules send in_frame [OF stays_vcat_event] returns_abort split: option.split)
  then show ?thesis unfolding vcat_def
    by (auto intro!: rules split: option.split)
qed

end


section \<open>A session of the shell\<close>

lemma private_table_later [simp]:
  "private_table (s\<lparr>ALARM_FIRED := b\<rparr>) = private_table s" "private_table (u\<lparr>SECONDARY_STACKS := m\<rparr>) = private_table u"
  by (simp_all add: private_table_def split: option.split)

text \<open>The part of the state that only set-up and removal of handlers and the start of cores change.\<close>

definition settings ::
  "(irq_handler, 's) sec_state_scheme \<Rightarrow>
   (intid \<rightharpoonup> irq_handler) \<times> (intid \<rightharpoonup> irq_handler) list res \<times> fdt option \<times> idmap option \<times> bool \<times> bool" where
  "settings s = (shared_irq_handlers s, private_table s, FDT s, PAGETABLE s, gic_set s, console_set s)"

definition session ::
  "'e psci_env_scheme \<Rightarrow> stack_heap \<Rightarrow> (irq_handler, 's) sec_state_scheme \<Rightarrow> (irq_handler, 's) sec_state_scheme \<Rightarrow> bool" where
  "session E heap s t \<longleftrightarrow> settings t = settings s \<and> core_starts E heap s t"

lemma core_starts_trans:
  assumes "core_starts E heap s t" and "core_starts E heap t u"
  shows "core_starts E heap s u"
  using assms(2,1) by induction (auto intro: core_starts.intros)

interpretation ssn: frame "session E heap" for E heap
  by unfold_locales (auto simp: session_def intro: core_starts.intros core_starts_trans)

interpretation ses: shell_view "\<lambda>e. \<not> stack_event e" "\<lambda>s. (settings s, SECONDARY_STACKS s)"
  by unfold_locales (simp_all add: settings_def stack_event_def)

lemma stays_session:
  assumes "returns (stays (\<lambda>e. \<not> stack_event e) (\<lambda>s. (settings s, SECONDARY_STACKS s))) m"
  shows "returns (session E heap) m"
proof (rule returnsI)
  fix s x t
  assume "m s = (Inr x, t)"
  from returnsD [OF assms this] show "session E heap s t"
    by (auto simp: stays_def session_def list_ex_iff list_all_iff intro!: core_starts.cs_other [OF core_starts.cs_none])
qed

lemma session_start_core: "returns (session E heap) (start_core_with_stack E heap m)"
proof (rule returnsI)
  fix s t :: "(irq_handler, 's) sec_state_scheme" and r
  assume run: "start_core_with_stack E heap m s = (Inr r, t)"
  from start_core_with_stack_returned [OF run] obtain p c u where
    "get_secondary_stack heap m s = (Inr p, u)" "t = u\<lparr>trace := trace u @ [Psci (Psci_cpu_on c m p)]\<rparr>" .
  then have "settings t = settings s" by (auto dest!: get_secondary_stack_returned simp: settings_def)
  with run show "session E heap s t"
    unfolding session_def by (blast intro: core_starts.intros)
qed

lemma session_start_cpu: "returns (session E heap) (start_cpu E heap fdt args)"
  unfolding start_cpu_def start_cpu_usage_def cpu_state_def
  by (auto intro!: ssn.returns_bind session_start_core ssn.keeps_basic [THEN keeps_returns]
      stays_session [OF ses.stays_con_fmt] stays_session [OF ses.stays_smc] stays_session [OF ses.stays_affinity]
      split: option.split)

lemma session_take_irq: "returns (session E heap) (take_irq E b pending)"
  by (rule stays_session [OF ses.stays_take_irq])

lemmas session_commands =
  ses.stays_alarm [THEN stays_session] ses.stays_printing [THEN stays_session] ses.stays_sgi [THEN stays_session]
  ses.stays_lsdev [THEN stays_session] ses.stays_lspci [THEN stays_session] ses.stays_cpus [THEN stays_session]
  ses.stays_con_fmt [THEN stays_session] session_start_cpu
  ses.cmd.frame_vcat [OF ses.stays_take_irq, THEN stays_session]

lemma returns_if: "returns R m \<Longrightarrow> returns R k \<Longrightarrow> returns R (if b then m else k)"
  by simp

lemma session_run_command: "returns (session E (arg_heap A)) (run_command E A (take_irq E b pending) n command args)"
  unfolding run_command_def Let_def
  by (intro returns_if ssn.returns_bind session_commands ssn.keeps_basic [THEN keeps_returns])

lemma session_run_line: "returns (session E (arg_heap A)) (run_line E A (take_irq E b pending) n line)"
  unfolding run_line_def
  by (cases "split_on 0x20 line")
    (simp_all add: ssn.returns_bind session_commands session_run_command ssn.keeps_basic [THEN keeps_returns])

lemma session_loop: "returns (session E (arg_heap A)) (shell_loop E A (take_irq E b pending) n k)"
proof (induction k)
  case 0
  show ?case by (simp add: ssn.returns_abort)
next
  case (Suc k)
  show ?case
    unfolding shell_loop.simps
    by (intro ssn.returns_bind returns_if session_run_line Suc ssn.keeps_basic [THEN keeps_returns]
        ses.cmd.frame_read_line [OF ses.stays_take_irq, THEN stays_session] ses.stays_con_fmt [THEN stays_session])
qed


text \<open>Setting up and removing a handler, for a part of the state without the table of shared handlers.\<close>

locale registry_view = shell_view P F
  for P :: "event \<Rightarrow> bool" and F :: "(irq_handler, 's) sec_state_scheme \<Rightarrow> 'x" +
  assumes F_shared: "F (s\<lparr>shared_irq_handlers := m\<rparr>) = F s"
begin

lemma stays_shared: "returns (stays P F) (modify_io (\<lambda>s. s\<lparr>shared_irq_handlers := f s\<rparr>))"
  by (rule returnsI) (auto simp: rets F_shared intro!: staysI [where es = "[]"])

lemma stays_set_shared: "returns (stays P F) (set_shared_irq_handler E k h)"
  unfolding set_shared_irq_handler_def
  by (auto intro!: stays_rules stays_private_get stays_shared)

lemma stays_irq_setup: "returns (stays P F) (irq_setup E b)"
  unfolding irq_setup_def with_gic_def gic_call_def
  by (intro stays_rules stays_set_shared P_gic)

lemma stays_irq_remove: "returns (stays P F) (irq_remove E b)"
  unfolding irq_remove_def remove_shared_irq_handler_def
  by (intro stays_rules stays_shared)

lemma stays_irq_enable: "returns (stays P F) irq_enable"
proof -
  have "returns (stays P F) (modify_io (\<lambda>s. s\<lparr>masked := False\<rparr>))"
    by (rule returnsI) (auto simp: rets F_masked intro!: staysI [where es = "[]"])
  then show ?thesis unfolding irq_enable_def by (intro stays_rules P_events)
qed

end

definition fixed_settings ::
  "(irq_handler, 's) sec_state_scheme \<Rightarrow>
   (intid \<rightharpoonup> irq_handler) list res \<times> fdt option \<times> idmap option \<times> bool \<times> bool" where
  "fixed_settings s = (private_table s, FDT s, PAGETABLE s, gic_set s, console_set s)"

interpretation reg: registry_view "\<lambda>e. \<not> stack_event e" "\<lambda>s. (fixed_settings s, SECONDARY_STACKS s)"
  by unfold_locales (simp_all add: fixed_settings_def stack_event_def)

lemma irq_setup_shared:
  assumes "irq_setup E b s = (Inr u, t)"
  shows "shared_irq_handlers t = (shared_irq_handlers s)(RTC_IRQ b \<mapsto> Alarm_irq_handle)"
  using assms
  by (auto simp: irq_setup_def with_gic_def gic_call_def rets dest!: set_shared_returned)

lemma irq_remove_shared:
  assumes "irq_remove E b s = (Inr u, t)"
  shows "shared_irq_handlers t = (shared_irq_handlers s)(RTC_IRQ b := None)"
  using assms by (auto simp: irq_remove_def rets_bind rets_return dest!: remove_shared_returned)

lemma stays_fixed:
  assumes "stays (\<lambda>e. \<not> stack_event e) (\<lambda>s. (fixed_settings s, SECONDARY_STACKS s)) s t"
  shows "core_starts E heap s t \<and> FDT t = FDT s \<and> PAGETABLE t = PAGETABLE s \<and> private_table t = private_table s"
  using assms
  by (auto simp: stays_def fixed_settings_def list_ex_iff list_all_iff intro!: core_starts.cs_other [OF core_starts.cs_none])

lemma session_parts:
  assumes "session E heap s t"
  shows "core_starts E heap s t" "FDT t = FDT s" "PAGETABLE t = PAGETABLE s"
    "shared_irq_handlers t = shared_irq_handlers s" "private_table t = private_table s"
  using assms by (simp_all add: session_def settings_def)

lemma shell_main_effect:
  assumes "shell_main E A (take_irq E b pending) n s = (Inr u, t)"
  shows "shared_irq_handlers t = (shared_irq_handlers s)(RTC_IRQ (arg_board A) := None) \<and>
    private_table t = private_table s \<and> FDT t = FDT s \<and> PAGETABLE t = PAGETABLE s \<and> core_starts E (arg_heap A) s t"
proof -
  from assms obtain s1 s2 s3 s4 s5 where
    1: "log E Info ''Configuring IRQs...'' [] s = (Inr (), s1)"
    and 2: "emit (Gic (Gicc_set_priority_mask 0xff)) s1 = (Inr (), s2)"
    and 3: "irq_setup E (arg_board A) s2 = (Inr (), s3)" and 4: "irq_enable s3 = (Inr (), s4)"
    and 5: "shell_loop E A (take_irq E b pending) n n s4 = (Inr (), s5)"
    and 6: "irq_remove E (arg_board A) s5 = (Inr (), t)"
    by (auto simp: shell_main_def rets_bind rets_return)
  note a = session_parts [OF returnsD [OF ses.stays_log [THEN stays_session] 1]]
    and b = session_parts [OF returnsD [OF ses.stays_emit [THEN stays_session] 2]]
  have g: "\<not> stack_event (Gic x)" for x by (simp add: stack_event_def)
  note c = stays_fixed [where E = E and heap = "arg_heap A", OF returnsD [OF reg.stays_irq_setup 3]]
    and d = stays_fixed [where E = E and heap = "arg_heap A", OF returnsD [OF reg.stays_irq_enable 4]]
    and e = session_parts [OF returnsD [OF session_loop 5]]
    and f = stays_fixed [where E = E and heap = "arg_heap A", OF returnsD [OF reg.stays_irq_remove 6]]
  have "shared_irq_handlers s4 = shared_irq_handlers s3" using 4 by (auto simp: irq_enable_def rets)
  with a(4) b(4) [OF g] e(4) irq_setup_shared [OF 3] irq_remove_shared [OF 6]
  have "shared_irq_handlers t = (shared_irq_handlers s)(RTC_IRQ (arg_board A) := None)" by simp
  moreover have "core_starts E (arg_heap A) s t"
    using a(1) b(1) [OF g] c d e(1) f by (meson core_starts_trans)
  ultimately show ?thesis using a(2,3,5) b(2,3,5) [OF g] c d e(2,3,5) f by simp
qed

text \<open>C22: when the shell ends it has removed the alarm's handler and left every other shared handler, the private
  handlers of every core, the device tree and the page table as they were, whatever was typed and whatever
  interrupts came in; stacks and the starting of cores went through \<^verbatim>\<open>start_core_with_stack\<close> only.\<close>

theorem shell_main_session:
  assumes "shell_main E A (take_irq E b pending) n s = (Inr u, t)"
  shows "shared_irq_handlers t = (shared_irq_handlers s)(RTC_IRQ (arg_board A) := None) \<and>
    private_table t = private_table s \<and> FDT t = FDT s \<and> PAGETABLE t = PAGETABLE s \<and> core_starts E (arg_heap A) s t"
  using shell_main_effect [OF assms] .

section \<open>What was typed and what was echoed\<close>

text \<open>Reads of the console.\<close>

definition is_read :: "event \<Rightarrow> bool" where
  [simp]: "is_read e = (case e of Con (Uart_read _) \<Rightarrow> True | _ \<Rightarrow> False)"

definition typed :: "'e con_env_scheme \<Rightarrow> event list \<Rightarrow> event \<Rightarrow> u8 list" where
  "typed E h e =
     (case e of
        Con (Uart_read n) \<Rightarrow> (case read_reply E h n of Inl _ \<Rightarrow> [] | Inr bs \<Rightarrow> bs)
      | _ \<Rightarrow> [])"

definition written :: "event list \<Rightarrow> event \<Rightarrow> u8 list" where
  "written h e = (case e of Con (Con_bytes bs) \<Rightarrow> bs | _ \<Rightarrow> [])"

lemma carried_simps [simp]:
  "typed E h (Con (Uart_read n)) = (case read_reply E h n of Inl _ \<Rightarrow> [] | Inr bs \<Rightarrow> bs)"
  "typed E h (Con (Con_bytes bs)) = []" "typed E h (Con Uart_read_ready) = []" "typed E h (Con (Con_fmt l as)) = []"
  "typed E h (Cpu c) = []" "typed E h (Virtio v) = []"
  "written h (Con (Uart_read n)) = []" "written h (Con (Con_bytes bs)) = bs" "written h (Con Uart_read_ready) = []"
  "written h (Con (Con_fmt l as)) = []" "written h (Cpu c) = []" "written h (Virtio v) = []"
  by (simp_all add: typed_def written_def)

text \<open>The calls that neither read the console nor write bytes to it, nor use a VirtIO device.\<close>

definition quiet :: "event \<Rightarrow> bool" where
  "quiet e =
     (case e of
        Con (Uart_read _) \<Rightarrow> False
      | Con (Con_bytes _) \<Rightarrow> False
      | Virtio _ \<Rightarrow> False
      | _ \<Rightarrow> True)"

interpretation quv: view quiet "\<lambda>_. ()"
  by unfold_locales (simp_all add: quiet_def)

interpretation qui: irq_view quiet "\<lambda>_. ()"
  by unfold_locales (simp_all add: quiet_def)

lemma quiet_gather:
  assumes "stays quiet F s t"
  shows "gather (typed E) (trace t) = gather (typed E) (trace s)" "gather written (trace t) = gather written (trace s)"
proof -
  from assms obtain es where es: "trace t = trace s @ es" "list_all quiet es" by (auto simp: stays_def)
  have "typed E h e = []" "written h e = []" if "e \<in> set es" for h e
    using that es(2) by (auto simp: list_all_iff quiet_def typed_def written_def split: event.splits con_event.splits)
  then show "gather (typed E) (trace t) = gather (typed E) (trace s)" "gather written (trace t) = gather written (trace s)"
    using es(1) by (simp_all add: gather_silent)
qed

lemma try_read_gather:
  assumes "try_read E k s = (Inr r, t)"
  shows "gather (typed E) (trace t) = gather (typed E) (trace s) @ (case r of Inr (Some bs) \<Rightarrow> bs | _ \<Rightarrow> [])"
    "gather written (trace t) = gather written (trace s)"
proof -
  show "gather (typed E) (trace t) = gather (typed E) (trace s) @ (case r of Inr (Some bs) \<Rightarrow> bs | _ \<Rightarrow> [])"
    using try_read_returned [OF assms]
    by (auto simp: gather_snoc gather_snoc2 split: sum.splits bool.splits)
  show "gather written (trace t) = gather written (trace s)"
    using try_read_returned [OF assms]
    by (auto simp: gather_snoc gather_snoc2 split: sum.splits bool.splits)
qed

lemma console_read_gather:
  assumes "returns (stays quiet F) irqs" and "console_read E irqs k n s = (Inr r, t)"
  shows "gather (typed E) (trace t) = gather (typed E) (trace s) @ (case r of Inr bs \<Rightarrow> bs | Inl _ \<Rightarrow> []) \<and>
    gather written (trace t) = gather written (trace s)"
  using assms(2)
proof (induction n arbitrary: s)
  case 0
  then show ?case by (simp add: abort_io_def)
next
  case (Suc n)
  then obtain q u where q: "try_read E k s = (Inr q, u)"
    and rest: "(case q of
       Inl e \<Rightarrow> return_io (Inl e)
     | Inr r \<Rightarrow>
         (case r of
            Some bytes \<Rightarrow> return_io (Inr bytes)
          | None \<Rightarrow> bind_io (wait_for_irq irqs) (\<lambda>_. console_read E irqs k n))) u = (Inr r, t)"
    by (auto simp: rets_bind)
  show ?case
  proof (cases "q = Inr None")
    case True
    with rest obtain v where "irqs (u\<lparr>trace := trace u @ [Cpu Wfi]\<rparr>) = (Inr (), v)"
      "console_read E irqs k n v = (Inr r, t)" by (auto simp: wait_for_irq_def rets_bind rets_emit)
    with Suc.IH [OF this(2)] quiet_gather(1) [where E = E, OF returnsD [OF assms(1) this(1)]]
      quiet_gather(2) [OF returnsD [OF assms(1) this(1)]] try_read_gather [OF q] True
    show ?thesis by (simp add: gather_snoc)
  next
    case False
    with rest try_read_gather [OF q] show ?thesis
      by (auto simp: rets split: sum.splits option.splits)
  qed
qed


section \<open>The line that is read\<close>

text \<open>A driver gives at most as many bytes as it is asked for.\<close>

definition reads_bounded :: "'e con_env_scheme \<Rightarrow> bool" where
  "reads_bounded E \<longleftrightarrow> (\<forall>h n bs. read_reply E h n = Inr bs \<longrightarrow> length bs \<le> n)"

lemma console_read_bounded:
  assumes "reads_bounded E" and "console_read E irqs k n s = (Inr (Inr bs), t)"
  shows "length bs \<le> k"
  using assms(2)
proof (induction n arbitrary: s)
  case 0
  then show ?case by (simp add: abort_io_def)
next
  case (Suc n)
  then obtain q u where q: "try_read E k s = (Inr q, u)"
    and rest: "(case q of
       Inl e \<Rightarrow> return_io (Inl e)
     | Inr r \<Rightarrow>
         (case r of
            Some bytes \<Rightarrow> return_io (Inr bytes)
          | None \<Rightarrow> bind_io (wait_for_irq irqs) (\<lambda>_. console_read E irqs k n))) u = (Inr (Inr bs), t)"
    by (auto simp: rets_bind)
  show ?case
  proof (cases "q = Inr None")
    case True
    with rest Suc.IH show ?thesis by (auto simp: rets_bind)
  next
    case False
    have m: "map_sum id Some x = Inr (Some bs) \<longleftrightarrow> x = Inr bs" for x :: "uart_error + u8 list"
      by (cases x) auto
    from False rest q assms(1) show ?thesis
      by (auto simp: rets reads_bounded_def m eq_commute [of "Inr (Some bs)"] dest!: try_read_returned split: sum.splits option.splits bool.splits)
  qed
qed

lemma read_char_gather:
  assumes irqs: "returns (stays quiet F) irqs" and "reads_bounded E" and "read_char E irqs w s = (Inr c, t)"
  shows "gather (typed E) (trace t) = gather (typed E) (trace s) @ [c] \<and> gather written (trace t) = gather written (trace s)"
proof -
  from assms(3) obtain bytes u where 1: "console_read E irqs 1 w s = (Inr (Inr bytes), u)"
    and 2: "(case bytes of [] \<Rightarrow> abort_io (Panic Unwrap_err) | c # _ \<Rightarrow> return_io c) u = (Inr c, t)"
    by (auto simp: read_char_def rets_bind rets_lift)
  then obtain cs where run: "console_read E irqs 1 w s = (Inr (Inr (c # cs)), t)"
    by (cases bytes) (auto simp: abort_io_def rets_return)
  from console_read_bounded [OF assms(2) run] console_read_gather [OF irqs run] show ?thesis by simp
qed

lemma con_bytes_state:
  assumes "con_bytes E bs s = (Inr u, t)"
  shows "t = s\<lparr>trace := trace s @ [Con (Con_bytes bs)]\<rparr>"
  using wpre_runs [of "con_bytes E bs" "\<lambda>_ t. t = s\<lparr>trace := trace s @ [Con (Con_bytes bs)]\<rparr>" "\<lambda>_ _. True" s u t] assms
  by (auto simp: wpre_con_bytes split: sum.splits)

text \<open>\<open>typed_line line cs r\<close>: with \<open>line\<close> typed before, the bytes \<open>cs\<close> complete the line \<open>r\<close>. Either they end in a line break,
  their first, and \<open>r\<close> is what was typed without control characters; or nothing but control characters came
  before an end of file character. In a line that has a character already, the latter is a control
  character like others.\<close>

definition printable :: "u8 list \<Rightarrow> u8 list" where
  "printable cs = filter (\<lambda>c. \<not> is_ascii_control c) cs"

definition typed_line :: "u8 list \<Rightarrow> u8 list \<Rightarrow> u8 list \<Rightarrow> bool" where
  "typed_line line cs r \<longleftrightarrow>
     (\<exists>body nl. cs = body @ [nl] \<and> (nl = 0x0D \<or> nl = 0x0A) \<and> 0x0D \<notin> set body \<and> 0x0A \<notin> set body \<and>
        (line = [] \<longrightarrow> EOF \<notin> set (takeWhile is_ascii_control body)) \<and> r = line @ printable body) \<or>
     (\<exists>body. line = [] \<and> cs = body @ [EOF] \<and> list_all is_ascii_control body \<and>
        0x0D \<notin> set body \<and> 0x0A \<notin> set body \<and> EOF \<notin> set body \<and> r = [EOF])"

definition echo_of :: "u8 list \<Rightarrow> u8 list" where
  "echo_of cs = printable cs @ [0x0D, 0x0A]"

lemma control_chars [simp]: "is_ascii_control 0x0D" "is_ascii_control 0x0A" "is_ascii_control EOF"
  by (simp_all add: is_ascii_control_def EOF_def)

lemma typed_line_skip:
  assumes "typed_line line cs r" and "is_ascii_control c" and "c \<noteq> 0x0D" "c \<noteq> 0x0A" and "line = [] \<Longrightarrow> c \<noteq> EOF"
  shows "typed_line line (c # cs) r"
proof -
  from assms(1) consider (a) body nl where "cs = body @ [nl]" "nl = 0x0D \<or> nl = 0x0A" "0x0D \<notin> set body" "0x0A \<notin> set body"
      "line = [] \<longrightarrow> EOF \<notin> set (takeWhile is_ascii_control body)" "r = line @ printable body"
    | (b) body where "line = []" "cs = body @ [EOF]" "list_all is_ascii_control body" "0x0D \<notin> set body" "0x0A \<notin> set body"
      "EOF \<notin> set body" "r = [EOF]"
    unfolding typed_line_def by blast
  then show ?thesis
  proof cases
    case a
    with assms show ?thesis unfolding typed_line_def
      by (intro disjI1 exI [of _ "c # body"] exI [of _ nl]) (auto simp: printable_def)
  next
    case b
    with assms show ?thesis unfolding typed_line_def
      by (intro disjI2 exI [of _ "c # body"]) auto
  qed
qed

lemma typed_line_push:
  assumes "typed_line (line @ [c]) cs r" and "\<not> is_ascii_control c"
  shows "typed_line line (c # cs) r"
proof -
  have c: "c \<noteq> 0x0D" "c \<noteq> 0x0A" "c \<noteq> EOF" using assms(2) by auto
  from assms(1) obtain body nl where "cs = body @ [nl]" "nl = 0x0D \<or> nl = 0x0A" "0x0D \<notin> set body" "0x0A \<notin> set body"
    "r = (line @ [c]) @ printable body" by (auto simp: typed_line_def)
  with c assms(2) show ?thesis
    unfolding typed_line_def
    by (intro disjI1 exI [of _ "c # body"] exI [of _ nl]) (auto simp: printable_def)
qed

lemma read_line_typed:
  assumes irqs: "returns (stays quiet F) irqs" and bounded: "reads_bounded E"
    and "read_line E irqs w n line s = (Inr r, t)" and "length line \<le> LINE_CAPACITY"
  shows "\<exists>cs. gather (typed E) (trace t) = gather (typed E) (trace s) @ cs \<and> typed_line line cs r \<and>
    gather written (trace t) = gather written (trace s) @ echo_of cs \<and> length r \<le> LINE_CAPACITY"
  using assms(3,4)
proof (induction n arbitrary: line s)
  case 0
  then show ?case by (simp add: abort_io_def)
next
  case (Suc n)
  from Suc.prems obtain c u where c: "read_char E irqs w s = (Inr c, u)"
    and rest: "(if c = 0x0D \<or> c = 0x0A then
       bind_io (con_bytes E [0x0D, 0x0A]) (\<lambda>_.
       return_io line)
     else if c = EOF \<and> line = [] then
       bind_io (con_bytes E [0x0D, 0x0A]) (\<lambda>_.
       lift_io (array_push LINE_CAPACITY line EOF))
     else if \<not> is_ascii_control c then
       bind_io (con_bytes E [c]) (\<lambda>_.
       bind_io (lift_io (array_push LINE_CAPACITY line c)) (\<lambda>line'.
       read_line E irqs w n line'))
     else read_line E irqs w n line) u = (Inr r, t)"
    by (auto simp: rets_bind)
  note rc = read_char_gather [OF irqs bounded c]
  consider (nl) "c = 0x0D \<or> c = 0x0A" | (eof) "c \<noteq> 0x0D" "c \<noteq> 0x0A" "c = EOF" "line = []"
    | (print) "\<not> is_ascii_control c"
    | (ctl) "c \<noteq> 0x0D" "c \<noteq> 0x0A" "is_ascii_control c" "line = [] \<Longrightarrow> c \<noteq> EOF" by blast
  then show ?case
  proof cases
    case nl
    with rest Suc.prems(2) rc show ?thesis
      by (intro exI [of _ "[c]"])
        (auto simp: rets_bind rets_return gather_snoc typed_line_def printable_def echo_of_def dest!: con_bytes_state)
  next
    case eof
    with rest Suc.prems(2) rc show ?thesis
      by (intro exI [of _ "[c]"])
        (auto simp: rets_bind rets_lift gather_snoc typed_line_def printable_def echo_of_def array_push_def LINE_CAPACITY_def
          dest!: con_bytes_state split: if_splits)
  next
    case print
    then have "c \<noteq> 0x0D" "c \<noteq> 0x0A" "c \<noteq> EOF" by auto
    with print rest have run: "read_line E irqs w n (line @ [c]) (u\<lparr>trace := trace u @ [Con (Con_bytes [c])]\<rparr>) = (Inr r, t)"
      and len: "length (line @ [c]) \<le> LINE_CAPACITY"
      by (auto simp: rets_bind rets_lift array_push_def dest!: con_bytes_state split: if_splits)
    from Suc.IH [OF run len] rc print show ?thesis
      by (auto simp: gather_snoc echo_of_def printable_def intro: typed_line_push)
  next
    case ctl
    with rest have run: "read_line E irqs w n line u = (Inr r, t)" by (auto split: if_splits)
    from Suc.IH [OF run Suc.prems(2)] rc ctl show ?thesis
      by (auto simp: echo_of_def printable_def intro!: typed_line_skip [OF _ ctl(3,1,2,4)])
  qed
qed


text \<open>C13: a line that the shell reads is what was typed: the bytes up to the first line break without the control
  characters, or the single end of file character if that came first. What was typed is echoed, character by
  character, and the line ends with a line break on the screen. A line has at most 128 bytes. Interrupts that
  come in while the shell waits do not change this. Assumed: the driver never reads more bytes than the buffer
  it is given has.\<close>

theorem read_line_spec:
  assumes "reads_bounded E" and "read_line E (take_irq E b pending) waits n [] s = (Inr r, t)"
  shows "\<exists>cs. gather (typed E) (trace t) = gather (typed E) (trace s) @ cs \<and> typed_line [] cs r \<and>
    gather written (trace t) = gather written (trace s) @ echo_of cs \<and> length r \<le> 128"
  using read_line_typed [OF qui.stays_take_irq assms] by (auto simp: LINE_CAPACITY_def)

section \<open>Single runs\<close>

lemma read_char_run:
  assumes "CONSOLE_lock \<notin> set (held s)" and "read_ready_reply E (trace s) = Inr True"
    and "read_reply E (trace s @ [Con Uart_read_ready]) 1 = Inr [c]"
  shows "read_char E irqs (Suc w) s = (Inr c, s\<lparr>trace := trace s @ [Con Uart_read_ready, Con (Uart_read 1)]\<rparr>)"
  using assms by (simp add: read_char_def runs)

lemma con_bytes_run:
  assumes "console_ok E" and "CONSOLE_lock \<notin> set (held s)"
  shows "con_bytes E bs s = (Inr (), s\<lparr>trace := trace s @ [Con (Con_bytes bs)]\<rparr>)"
  using assms by (intro wpre_eqI) (simp add: wpre_con_bytes console_okD)

section \<open>Commands\<close>

lemma goes_on: "bind_io m (\<lambda>_. return_io True) u = (Inr x, v) \<Longrightarrow> x"
  by (auto simp: rets)

text \<open>C36: the shell ends on an end of file character alone in a line, and on a line that is valid UTF-8 and whose first
  word is \<^verbatim>\<open>exit\<close>; after any other line it goes on. Of a line that is not valid UTF-8, whatever its first word, it only
  says that it is not.\<close>

theorem run_line_exits:
  assumes "run_line E A irqs n line s = (Inr goes, t)"
  shows "(\<not> goes \<longleftrightarrow> line = [EOF] \<or> utf8_valid line \<and> hd (split_on 0x20 line) = ascii ''exit'') \<and>
    (\<not> utf8_valid line \<longrightarrow> t = s\<lparr>trace := trace s @ [Con (Con_fmt ''Invalid UTF-8'' [])]\<rparr>)"
proof -
  have E: "utf8_valid [EOF]" "split_on 0x20 [EOF] = [[EOF]]" by (simp_all add: EOF_def)
  obtain c cs where sp: "split_on 0x20 line = c # cs"
    using split_on_nonempty by (cases "split_on 0x20 line") auto
  have words: "ascii ''alarm'' \<noteq> ascii ''exit''" "ascii ''date'' \<noteq> ascii ''exit''" "ascii ''dtdump'' \<noteq> ascii ''exit''"
    by (simp_all add: ascii_def)
  show ?thesis
  proof (cases "line = [EOF] \<or> \<not> utf8_valid line")
    case True
    then show ?thesis
    proof
      assume "line = [EOF]"
      with assms E show ?thesis by (simp add: run_line_def rets_return del: utf8_valid.simps split_on.simps)
    next
      assume "\<not> utf8_valid line"
      with assms E(1) show ?thesis
        by (cases "line = [EOF]") (auto simp: run_line_def rets_bind rets_return simp del: utf8_valid.simps dest!: con_fmt_state)
    qed
  next
    case False
    with assms sp have run: "run_command E A irqs n c cs s = (Inr goes, t)" by (simp add: run_line_def)
    show ?thesis
    proof (cases "c = ascii ''exit''")
      case True
      with run words False sp show ?thesis by (simp add: run_command_def rets_return)
    next
      case c: False
      from run have goes unfolding run_command_def Let_def if_not_P [OF c]
        by (simp only: split: if_split_asm) (auto dest: goes_on simp: rets_return)
      with c False sp show ?thesis by simp
    qed
  qed
qed


section \<open>Relaying a socket\<close>

text \<open>A peer: the socket that it is reached through, its context identifier and its port.\<close>

type_synonym peer = "nat \<times> u64 \<times> u32"

text \<open>The peer that the arguments of \<^verbatim>\<open>vcat\<close> name, reached through the first socket.\<close>

fun vcat_peer :: "u8 list list \<Rightarrow> nat list \<Rightarrow> peer option" where
  "vcat_peer [cid, port] (vsock # _) =
     (case (parse_u64 cid, parse_u32 port) of
        (Some cid, Some port) \<Rightarrow> Some (vsock, cid, port)
      | _ \<Rightarrow> None)"
| "vcat_peer _ _ = None"

text \<open>The calls of VirtIO devices that are for the connection between a peer and the local port; the poll is for the
  whole socket.\<close>

definition addressed :: "peer \<Rightarrow> event \<Rightarrow> bool" where
  "addressed p e =
     (case e of
        Virtio (Vsock_connect v cid port l) \<Rightarrow> (v, cid, port) = p \<and> l = LOCAL_PORT
      | Virtio (Vsock_send v cid port l _) \<Rightarrow> (v, cid, port) = p \<and> l = LOCAL_PORT
      | Virtio (Vsock_available v cid port l) \<Rightarrow> (v, cid, port) = p \<and> l = LOCAL_PORT
      | Virtio (Vsock_recv v cid port l _) \<Rightarrow> (v, cid, port) = p \<and> l = LOCAL_PORT
      | Virtio (Vsock_poll v) \<Rightarrow> v = fst p
      | Virtio _ \<Rightarrow> False
      | _ \<Rightarrow> True)"

text \<open>The bytes sent to a peer and received from it, over the local port.\<close>

definition sent :: "peer \<Rightarrow> event list \<Rightarrow> event \<Rightarrow> u8 list" where
  "sent p h e =
     (case e of
        Virtio (Vsock_send v cid port l bs) \<Rightarrow> if (v, cid, port) = p \<and> l = LOCAL_PORT then bs else []
      | _ \<Rightarrow> [])"

definition received :: "shell_ops \<Rightarrow> peer \<Rightarrow> event list \<Rightarrow> event \<Rightarrow> u8 list" where
  "received S p h e =
     (case e of
        Virtio (Vsock_recv v cid port l n) \<Rightarrow>
          if (v, cid, port) = p \<and> l = LOCAL_PORT
          then (case recv_reply S h v n of Inl _ \<Rightarrow> [] | Inr bs \<Rightarrow> bs) else []
      | _ \<Rightarrow> [])"

lemma relayed_simps [simp]:
  "addressed p (Con c)" "addressed p (Cpu u)"
  "addressed (v, a, q) (Virtio (Vsock_connect v a q LOCAL_PORT))" "addressed (v, a, q) (Virtio (Vsock_send v a q LOCAL_PORT bs))"
  "addressed (v, a, q) (Virtio (Vsock_available v a q LOCAL_PORT))" "addressed (v, a, q) (Virtio (Vsock_recv v a q LOCAL_PORT k))"
  "addressed (v, a, q) (Virtio (Vsock_poll v))"
  "sent p h (Con c) = []" "sent (v, a, q) h (Virtio (Vsock_send v a q LOCAL_PORT bs)) = bs" "sent p h (Virtio (Vsock_poll w)) = []"
  "sent p h (Virtio (Vsock_available w b r l)) = []" "sent p h (Virtio (Vsock_recv w b r l k)) = []"
  "sent p h (Virtio (Vsock_connect w b r l)) = []" "sent p h (Cpu u) = []"
  "received S p h (Con c) = []" "received S p h (Virtio (Vsock_send w b r l bs)) = []" "received S p h (Virtio (Vsock_poll w)) = []"
  "received S p h (Virtio (Vsock_available w b r l)) = []" "received S p h (Virtio (Vsock_connect w b r l)) = []"
  "received S (v, a, q) h (Virtio (Vsock_recv v a q LOCAL_PORT k)) = (case recv_reply S h v k of Inl _ \<Rightarrow> [] | Inr bs \<Rightarrow> bs)"
  "received S p h (Cpu u) = []"
  by (simp_all add: addressed_def sent_def received_def)

definition relays ::
  "'e con_env_scheme \<Rightarrow> shell_ops \<Rightarrow> peer \<Rightarrow> 's io_state_scheme \<Rightarrow> 's io_state_scheme \<Rightarrow> bool" where
  "relays E S p s t \<longleftrightarrow>
     (\<exists>es out inp. trace t = trace s @ es \<and> list_all (addressed p) es \<and>
       gather (typed E) (trace t) = gather (typed E) (trace s) @ out \<and>
       gather (sent p) (trace t) = gather (sent p) (trace s) @ out \<and>
       gather (received S p) (trace t) = gather (received S p) (trace s) @ inp \<and>
       gather written (trace t) = gather written (trace s) @ inp)"

lemma relaysI:
  assumes "trace t = trace s @ es" and "list_all (addressed p) es"
    and "gather (typed E) (trace t) = gather (typed E) (trace s) @ out"
    and "gather (sent p) (trace t) = gather (sent p) (trace s) @ out"
    and "gather (received S p) (trace t) = gather (received S p) (trace s) @ inp"
    and "gather written (trace t) = gather written (trace s) @ inp"
  shows "relays E S p s t"
  using assms unfolding relays_def by blast

interpretation rly: frame "relays E S p" for E S p
proof unfold_locales
  show "relays E S p s s" for s :: "'s io_state_scheme" by (rule relaysI [where es = "[]"]) simp_all
  show "relays E S p s u" if "relays E S p s t" "relays E S p t u" for s t u :: "'s io_state_scheme"
  proof -
    from that(1) obtain es out inp where 1: "trace t = trace s @ es" "list_all (addressed p) es"
      "gather (typed E) (trace t) = gather (typed E) (trace s) @ out" "gather (sent p) (trace t) = gather (sent p) (trace s) @ out"
      "gather (received S p) (trace t) = gather (received S p) (trace s) @ inp" "gather written (trace t) = gather written (trace s) @ inp"
      unfolding relays_def by blast
    from that(2) obtain fs out' inp' where 2: "trace u = trace t @ fs" "list_all (addressed p) fs"
      "gather (typed E) (trace u) = gather (typed E) (trace t) @ out'" "gather (sent p) (trace u) = gather (sent p) (trace t) @ out'"
      "gather (received S p) (trace u) = gather (received S p) (trace t) @ inp'" "gather written (trace u) = gather written (trace t) @ inp'"
      unfolding relays_def by blast
    have "gather (typed E) (trace u) = gather (typed E) (trace s) @ out @ out'"
      "gather (sent p) (trace u) = gather (sent p) (trace s) @ out @ out'"
      "gather (received S p) (trace u) = gather (received S p) (trace s) @ inp @ inp'"
      "gather written (trace u) = gather written (trace s) @ inp @ inp'"
      using 1(3-6) 2(3-6) by simp_all
    moreover have "trace u = trace s @ es @ fs" "list_all (addressed p) (es @ fs)" using 1(1,2) 2(1,2) by simp_all
    ultimately show ?thesis by (intro relaysI)
  qed
qed

lemmas relays_basic = rly.keeps_basic [THEN keeps_returns]

lemma quiet_relays:
  assumes "stays quiet F s t" shows "relays E S p s t"
proof -
  from assms obtain es where es: "trace t = trace s @ es" "list_all quiet es" by (auto simp: stays_def)
  have quiet: "sent p h e = []" "received S p h e = []" "addressed p e" if "e \<in> set es" for h e
    using that es(2) by (auto simp: list_all_iff quiet_def sent_def received_def addressed_def split: event.splits)
  then have "list_all (addressed p) es" by (simp add: list_all_iff)
  with es(1) quiet quiet_gather [OF assms] show ?thesis
    by (intro relaysI [where es = es and out = "[]" and inp = "[]"]) (simp_all add: gather_silent)
qed

lemma quiet_returns: "returns (stays quiet F) m \<Longrightarrow> returns (relays E S p) m"
  by (rule returnsI) (auto intro: quiet_relays dest: returnsD)

lemmas relays_con_fmt = quv.stays_con_fmt [THEN quiet_returns]

lemma relays_silent_call:
  assumes "addressed p (Virtio e)" and "\<And>h. sent p h (Virtio e) = []" and "\<And>h. received S p h (Virtio e) = []"
  shows "returns (relays E S p) (call f (Virtio e))"
  using assms by (intro returnsI) (auto simp: rets gather_snoc intro!: relaysI [where es = "[Virtio e]"])

lemma console_read_silent:
  assumes "returns (stays quiet F) irqs" and "console_read E irqs k n s = (Inr r, t)"
  obtains es where "trace t = trace s @ es" "list_all (addressed p) es"
    "gather (sent p) (trace t) = gather (sent p) (trace s)" "gather (received S p) (trace t) = gather (received S p) (trace s)"
proof -
  have "returns (stays (\<lambda>e. case e of Virtio _ \<Rightarrow> False | _ \<Rightarrow> True) (\<lambda>_. ())) irqs"
  proof (rule returnsI)
    fix s x t
    assume "irqs s = (Inr x, t)"
    from returnsD [OF assms(1) this] show "stays (\<lambda>e. case e of Virtio _ \<Rightarrow> False | _ \<Rightarrow> True) (\<lambda>_. ()) s t"
      by (auto simp: stays_def quiet_def list_all_iff split: event.splits)
  qed
  then have "stays (\<lambda>e. case e of Virtio _ \<Rightarrow> False | _ \<Rightarrow> True) (\<lambda>_. ()) s t"
    by (intro returnsD [OF view.stays_console_read, OF _ _ _ _ _ assms(2)]) (unfold_locales, simp_all)
  then obtain es where es: "trace t = trace s @ es"
    "\<And>e. e \<in> set es \<Longrightarrow> sent p h e = [] \<and> received S p h e = [] \<and> addressed p e" for h
    by (auto simp: stays_def list_all_iff sent_def received_def addressed_def split: event.splits)
  then have "list_all (addressed p) es" by (simp add: list_all_iff)
  with es that show thesis by (auto simp: gather_silent)
qed

lemma relays_send:
  assumes "returns (stays quiet F) irqs"
  shows "returns (relays E S (v, cid, port)) (vcat_send E S irqs w v cid port)"
proof -
  let ?p = "(v, cid, port)"
  have ready: "returns (relays E S ?p) (console_read_ready E)"
    unfolding console_read_ready_def uart_read_ready_def
    by (rule quiet_returns [where F = "\<lambda>_. ()"], intro quv.stays_rules) (simp add: quiet_def)
  have send: "returns (relays E S ?p) (bind_io (console_read E irqs 8 w) (\<lambda>r.
       bind_io (lift_io (unwrap r)) (\<lambda>bytes.
       bind_io (call (\<lambda>h. vsock_reply S h (Vsock_send v cid port LOCAL_PORT bytes))
         (Virtio (Vsock_send v cid port LOCAL_PORT bytes))) (\<lambda>r.
       lift_io (unwrap r)))))" (is "returns _ ?m")
  proof (rule returnsI)
    fix s x t
    assume "?m s = (Inr x, t)"
    then obtain bs u where run: "console_read E irqs 8 w s = (Inr (Inr bs), u)"
      and t: "t = u\<lparr>trace := trace u @ [Virtio (Vsock_send v cid port LOCAL_PORT bs)]\<rparr>"
      by (auto simp: rets)
    let ?e = "Virtio (Vsock_send v cid port LOCAL_PORT bs)"
    obtain es where es: "trace u = trace s @ es" "list_all (addressed ?p) es"
      and silent: "gather (sent ?p) (trace u) = gather (sent ?p) (trace s)"
        "gather (received S ?p) (trace u) = gather (received S ?p) (trace s)"
      by (rule console_read_silent [OF assms run])
    have "trace t = trace s @ es @ [?e]" "list_all (addressed ?p) (es @ [?e])" using t es by simp_all
    then show "relays E S ?p s t"
      by (rule relaysI [where out = bs and inp = "[]"])
        (use console_read_gather [OF assms run] silent in \<open>simp_all add: t gather_snoc\<close>)
  qed
  show ?thesis unfolding vcat_send_def
    by (rule rly.returns_bind [OF ready], rule rly.returns_bind [OF relays_basic(3)],
        rule returns_if [OF send relays_basic(1)])
qed

lemma relays_receive:
  "returns (relays E S (v, cid, port)) (vcat_receive E S v cid port n :: ('s io_state_scheme, unit) io)"
proof (induction n)
  case 0
  show ?case by (simp add: rly.returns_abort)
next
  case (Suc n)
  let ?e = "Virtio (Vsock_recv v cid port LOCAL_PORT 10)"
  have "returns (relays E S (v, cid, port)) (bind_io (call (\<lambda>h. recv_reply S h v 10) ?e) (\<lambda>r.
       bind_io (lift_io (unwrap r)) (con_bytes E :: u8 list \<Rightarrow> ('s io_state_scheme, unit) io)))"
  proof (rule returnsI)
    fix s t :: "'s io_state_scheme" and x
    assume "bind_io (call (\<lambda>h. recv_reply S h v 10) ?e) (\<lambda>r. bind_io (lift_io (unwrap r)) (con_bytes E)) s = (Inr x, t)"
    then obtain bs where "recv_reply S (trace s) v 10 = Inr bs" "trace t = trace s @ [?e, Con (Con_bytes bs)]"
      by (auto simp: rets_bind rets_call rets_lift dest!: con_bytes_state)
    then show "relays E S (v, cid, port) s t"
      by (intro relaysI [where es = "[?e, Con (Con_bytes bs)]" and out = "[]" and inp = bs]) (simp_all add: gather_snoc2)
  qed
  note step = rly.returns_bind [OF this Suc]
  show ?case
  proof (rule returnsI)
    fix s t :: "'s io_state_scheme" and x
    let ?a = "Virtio (Vsock_available v cid port LOCAL_PORT)"
    assume "vcat_receive E S v cid port (Suc n) s = (Inr x, t)"
    then obtain a where "available_reply S (trace s) v = Inr a" and rest: "(if a > 0 then
         bind_io (bind_io (call (\<lambda>h. recv_reply S h v 10) ?e) (\<lambda>r.
           bind_io (lift_io (unwrap r)) (con_bytes E))) (\<lambda>_. vcat_receive E S v cid port n)
         else return_io ()) (s\<lparr>trace := trace s @ [?a]\<rparr>) = (Inr x, t)"
      by (auto simp: rets split: if_splits)
    have "relays E S (v, cid, port) s (s\<lparr>trace := trace s @ [?a]\<rparr>)"
      by (rule relaysI [where es = "[?a]" and out = "[]" and inp = "[]"]) (simp_all add: gather_snoc)
    moreover have "relays E S (v, cid, port) (s\<lparr>trace := trace s @ [?a]\<rparr>) t"
      using rest by (rule returnsD [OF returns_if [OF step relays_basic(1)]])
    ultimately show "relays E S (v, cid, port) s t" by (rule rly.frame_trans)
  qed
qed

lemma relays_event: "returns (relays E S (v, cid, port)) (vcat_event E S v cid port n ev)"
  unfolding vcat_event_def
  by (cases "event_type ev")
    (auto intro!: rly.returns_bind relays_basic relays_con_fmt relays_receive)

lemma relays_loop:
  assumes "returns (stays quiet F) irqs"
  shows "returns (relays E S (v, cid, port)) (vcat_loop E S irqs w v cid port n)"
proof (induction n)
  case 0
  show ?case by (simp add: rly.returns_abort)
next
  case (Suc n)
  then show ?case
    by (auto intro!: rly.returns_bind relays_basic relays_send [OF assms] relays_event relays_silent_call
        split: option.split)
qed

text \<open>Without a peer \<^verbatim>\<open>vcat\<close> only prints.\<close>

lemma vcat_no_peer:
  assumes "vcat E S irqs n args vsocks s = (Inr u, t)" and "vcat_peer args vsocks = None"
  shows "\<exists>ls. trace t = trace s @ map (\<lambda>(lit, as). Con (Con_fmt lit as)) ls"
proof -
  have lines: "\<exists>ls. [Con (Con_fmt l1 a1)] = map (\<lambda>(lit, as). Con (Con_fmt lit as)) ls"
    "\<exists>ls. [Con (Con_fmt l1 a1), Con (Con_fmt l2 a2)] = map (\<lambda>(lit, as). Con (Con_fmt lit as)) ls" for l1 a1 l2 a2
    by (rule exI [of _ "[(l1, a1)]"], simp, rule exI [of _ "[(l1, a1), (l2, a2)]"], simp)
  have "trace t = trace s @ [Con (Con_fmt l a)] \<Longrightarrow> ?thesis" for l a using lines(1) by auto
  moreover have "trace t = trace s @ [Con (Con_fmt l a), Con (Con_fmt l' a')] \<Longrightarrow> ?thesis" for l a l' a' using lines(2) by auto
  moreover have "(\<exists>l a. trace t = trace s @ [Con (Con_fmt l a)]) \<or>
      (\<exists>l a l' a'. trace t = trace s @ [Con (Con_fmt l a), Con (Con_fmt l' a')])"
  proof (cases "length args = 2")
    case True
    then obtain x y where "args = [x, y]" by (auto simp: length_Suc_conv numeral_2_eq_2)
    with assms show ?thesis
      by (cases vsocks) (auto simp: vcat_def rets_bind rets_lift dest!: con_fmt_state split: option.splits)
  next
    case False
    with assms(1) show ?thesis by (auto simp: vcat_def rets_bind rets_lift dest!: con_fmt_state)
  qed
  ultimately show ?thesis by blast
qed

text \<open>C14: \<^verbatim>\<open>vcat\<close> relays between the console and the peer that its arguments name. It connects to that peer, through the
  first socket and from the local port, and uses no other device and no other address. Everything typed while it runs
  is sent to the peer, in order and unchanged, and everything received from the peer is written to the console, in
  order and unchanged; nothing else is sent, and nothing else is written as raw bytes. If the arguments name no peer
  or there is no socket it only prints lines.\<close>

theorem vcat_relays:
  assumes "vcat E S (take_irq E' b pending) n args vsocks s = (Inr u, t)"
  shows "case vcat_peer args vsocks of
      None \<Rightarrow> \<exists>ls. trace t = trace s @ map (\<lambda>(lit, as). Con (Con_fmt lit as)) ls
    | Some p \<Rightarrow> \<exists>es out inp. trace t = trace s @ es \<and> list_all (addressed p) es \<and>
        Virtio (Vsock_connect (fst p) (fst (snd p)) (snd (snd p)) LOCAL_PORT) \<in> set es \<and>
        gather (typed E) (trace t) = gather (typed E) (trace s) @ out \<and>
        gather (sent p) (trace t) = gather (sent p) (trace s) @ out \<and>
        gather (received S p) (trace t) = gather (received S p) (trace s) @ inp \<and>
        gather written (trace t) = gather written (trace s) @ inp"
proof (cases "vcat_peer args vsocks")
  case None
  with vcat_no_peer [OF assms] show ?thesis by simp
next
  case (Some p)
  then obtain cw pw v vs cid port where args: "args = [cw, pw]" "vsocks = v # vs" and p: "p = (v, cid, port)"
    and parsed: "parse_u64 cw = Some cid" "parse_u32 pw = Some port"
    by (auto elim!: vcat_peer.elims split: option.splits)
  let ?l = "Con (Con_fmt ''Connecting to {}:{}...'' [A_u64 cid, A_u32 port])" and ?c = "Virtio (Vsock_connect v cid port LOCAL_PORT)"
  let ?w = "s\<lparr>trace := trace s @ [?l, ?c]\<rparr>"
  from assms args parsed have loop: "vcat_loop E S (take_irq E' b pending) n v cid port n ?w = (Inr u, t)"
    by (auto simp: vcat_def rets_bind rets_lift rets_call dest!: con_fmt_state)
  from returnsD [OF relays_loop [OF qui.stays_take_irq] loop] obtain es out inp where
    r: "trace t = trace ?w @ es" "list_all (addressed p) es"
      "gather (typed E) (trace t) = gather (typed E) (trace ?w) @ out" "gather (sent p) (trace t) = gather (sent p) (trace ?w) @ out"
      "gather (received S p) (trace t) = gather (received S p) (trace ?w) @ inp" "gather written (trace t) = gather written (trace ?w) @ inp"
    unfolding relays_def p by blast
  then have "trace t = trace s @ [?l, ?c] @ es \<and> list_all (addressed p) ([?l, ?c] @ es) \<and>
      Virtio (Vsock_connect (fst p) (fst (snd p)) (snd (snd p)) LOCAL_PORT) \<in> set ([?l, ?c] @ es) \<and>
      gather (typed E) (trace t) = gather (typed E) (trace s) @ out \<and>
      gather (sent p) (trace t) = gather (sent p) (trace s) @ out \<and>
      gather (received S p) (trace t) = gather (received S p) (trace s) @ inp \<and>
      gather written (trace t) = gather written (trace s) @ inp"
    by (simp add: gather_snoc2 p)
  then show ?thesis unfolding Some option.case by blast
qed

text \<open>\<^verbatim>\<open>vcat\<close> with more than four arguments is not refused but panics.\<close>

lemma vcat_arguments_panic:
  assumes "4 < length args"
  shows "vcat E S irqs n args vsocks s = (Inl (Panic Capacity_exceeded), s)"
  using assms by (simp add: vcat_def runs bind_io_def lift_io_def)

section \<open>Concrete sessions\<close>

text \<open>A console at which a text is typed.\<close>

definition ex_typing :: "string \<Rightarrow> pci_env" where
  "ex_typing txt = ex_pci_env\<lparr>read_reply := (\<lambda>h n. Inr (take n [ascii txt ! length (filter is_read h)]))\<rparr>"

lemma ex_typing_simps [simp]:
  "write_reply (ex_typing txt) h ev = Inr ()" "read_ready_reply (ex_typing txt) h = Inr True"
  "read_reply (ex_typing txt) h n = Inr (take n [ascii txt ! length (filter is_read h)])"
  "gic_reply (ex_typing txt) h g = Inr ()" "mpidr_el1 (ex_typing txt) = 0"
  by (simp_all add: ex_typing_def ex_pci_env_def)

definition ex_shell_ops :: shell_ops where
  "ex_shell_ops = \<lparr>blk_id_reply = (\<lambda>_ _. Inr []), blk_capacity = (\<lambda>_. 0), blk_readonly = (\<lambda>_. True),
     vcon_size_reply = (\<lambda>_ _. Inr 0), guest_cid = (\<lambda>_. 3), status_command_reply = (\<lambda>_ _ _. (0, 0)),
     vsock_reply = (\<lambda>_ _. Inr ()),
     poll_reply = (\<lambda>h _. Inr (Some \<lparr>source_cid = 2, source_port = 80, destination_port = 42,
       event_type = (if list_ex (\<lambda>e. \<exists>v a b c n. e = Virtio (Vsock_recv v a b c n)) h then Disconnected_shutdown else Received)\<rparr>)),
     available_reply = (\<lambda>h _. Inr (if list_ex (\<lambda>e. \<exists>v a b c n. e = Virtio (Vsock_recv v a b c n)) h then 0 else 2)),
     recv_reply = (\<lambda>_ _ _. Inr [0x68, 0x69])\<rparr>"

definition ex_shell_args :: shell_args where
  "ex_shell_args = \<lparr>arg_board = Qemu, arg_rtc = ex_rtc, arg_virtio = ex_virtio, arg_ops = ex_shell_ops,
     arg_heap = ex_heap, arg_roots = [], arg_devices = devices_new 0, arg_fdt = ex_fdt\<rparr>"

definition ex_text :: string where
  "ex_text = [CHR ''o'', CHR 0x1B, CHR ''k'', CHR 0x0D]"

definition ex_line :: "(abort + u8 list) \<times> irq_handler sec_state" where
  "ex_line = read_line (ex_typing ex_text) (take_irq (ex_typing ex_text) Qemu (\<lambda>_. False)) (Suc 0)
     (Suc (Suc (Suc (Suc 0)))) [] ex_sec_state"

lemma ex_line_run:
  "read_line (ex_typing ex_text) (take_irq (ex_typing ex_text) Qemu (\<lambda>_. False)) (Suc 0)
     (Suc (Suc (Suc (Suc 0)))) [] ex_sec_state = (Inr [0x6F, 0x6B], snd ex_line)"
  "gather (typed (ex_typing ex_text)) (trace (snd ex_line)) = [0x6F, 0x1B, 0x6B, 0x0D]"
  by (simp_all add: ex_line_def ex_text_def read_char_run con_bytes_run console_ok_def bind_run return_io_def lift_io_def
      array_push_def LINE_CAPACITY_def is_ascii_control_def EOF_def ex_sec_state_def ascii_def gather_def upt_rec)

theorem read_line_spec_witness:
  "typed_line [] [0x6F, 0x1B, 0x6B, 0x0D] [0x6F, 0x6B] \<and>
     gather written (trace (snd ex_line)) = [0x6F, 0x6B, 0x0D, 0x0A]"
proof -
  have "reads_bounded (ex_typing ex_text)" by (simp add: reads_bounded_def)
  from read_line_spec [OF this ex_line_run(1)] ex_line_run(2) show ?thesis
    by (auto simp: ex_sec_state_def gather_def echo_of_def printable_def is_ascii_control_def)
qed


theorem run_line_exits_witness:
  "run_line (ex_typing ''x'') ex_shell_args (return_io ()) 0 (ascii ''exit 1'') ex_sec_state = (Inr False, ex_sec_state) \<and>
   (\<exists>t. run_line (ex_typing ''x'') ex_shell_args (return_io ()) 0 (ascii ''exit '' @ [0xFF]) ex_sec_state = (Inr True, t) \<and>
      trace t = [Con (Con_fmt ''Invalid UTF-8'' [])])"
proof -
  have v: "utf8_valid (ascii ''exit 1'')" "\<not> utf8_valid (ascii ''exit '' @ [0xFF])" by (simp_all add: ascii_def)
  have word: "hd (split_on 0x20 (ascii ''exit 1'')) = ascii ''exit''" by (simp add: ascii_def)
  have "run_line (ex_typing ''x'') ex_shell_args (return_io ()) 0 (ascii ''exit 1'') ex_sec_state = (Inr False, ex_sec_state)"
    by (simp add: run_line_def run_command_def ascii_def EOF_def return_io_def)
  then obtain g where g: "run_line (ex_typing ''x'') ex_shell_args (return_io ()) 0 (ascii ''exit 1'') ex_sec_state = (Inr g, ex_sec_state)"
    by blast
  have "CONSOLE_lock \<notin> set (held ex_sec_state)" by (simp add: ex_sec_state_def)
  then obtain h t where h: "run_line (ex_typing ''x'') ex_shell_args (return_io ()) 0 (ascii ''exit '' @ [0xFF]) ex_sec_state = (Inr h, t)"
    using v(2) by (simp add: run_line_def EOF_def ascii_def runs)
  have "ascii ''exit '' @ [0xFF] \<noteq> [EOF]" by (simp add: ascii_def)
  with g h v word run_line_exits [OF g] run_line_exits [OF h] show ?thesis by (auto simp: ex_sec_state_def)
qed

definition ex_vcat :: "irq_handler sec_state" where
  "ex_vcat = snd (vcat (ex_typing ''hi'') ex_shell_ops (take_irq (ex_typing ''hi'') Qemu (\<lambda>_. False))
     (Suc (Suc (Suc 0))) [[0x32], [0x38, 0x30]] [0] ex_sec_state)"

lemma ex_vcat_run:
  "vcat (ex_typing ''hi'') ex_shell_ops (take_irq (ex_typing ''hi'') Qemu (\<lambda>_. False))
     (Suc (Suc (Suc 0))) [[0x32], [0x38, 0x30]] [0] ex_sec_state = (Inr (), ex_vcat)"
  "gather (sent (0, 2, 80)) (trace ex_vcat) = [0x68, 0x69]"
  by (simp_all add: ex_vcat_def vcat_def vcat_send_def vcat_event_def console_read_ready_def uart_read_ready_def
      parse_u64_def parse_u32_def parse_unsigned_def parse_digits_def is_digit_def runs con_bytes_run console_ok_def
      exception_free_def with_lock_def acquire_def release_def ex_shell_ops_def ex_sec_state_def LOCAL_PORT_def
      ascii_def gather_def upt_rec sent_def)

lemma ex_vcat_peer: "vcat_peer [[0x32], [0x38, 0x30]] [0] = Some (0, 2, 80)"
  by (simp add: parse_u64_def parse_u32_def parse_unsigned_def parse_digits_def is_digit_def)

theorem vcat_relays_witness:
  "gather (typed (ex_typing ''hi'')) (trace ex_vcat) = gather (sent (0, 2, 80)) (trace ex_vcat) \<and>
     gather (sent (0, 2, 80)) (trace ex_vcat) = [0x68, 0x69]"
proof -
  have "gather f (trace ex_sec_state) = []" for f :: "event list \<Rightarrow> event \<Rightarrow> u8 list" by (simp add: gather_def ex_sec_state_def)
  with vcat_relays [OF ex_vcat_run(1)] ex_vcat_run(2) show ?thesis
    unfolding ex_vcat_peer option.case by auto
qed

definition ex_exit :: string where
  "ex_exit = [CHR ''e'', CHR ''x'', CHR ''i'', CHR ''t'', CHR 0x0D]"

definition ex_idle :: "((irq_handler, 's) alarm_state_scheme, unit) io" where
  "ex_idle = take_irq (ex_typing ex_exit) Qemu (\<lambda>_. False)"

definition ex_fuel :: nat where
  "ex_fuel = Suc (Suc (Suc (Suc (Suc 0))))"

definition ex_session :: "irq_handler sec_state" where
  "ex_session = snd (shell_main (ex_typing ex_exit) ex_shell_args ex_idle ex_fuel ex_sec_state)"

lemma ex_exit_line:
  assumes "CONSOLE_lock \<notin> set (held s)" and "filter is_read (trace s) = []"
  shows "\<exists>h. read_line (ex_typing ex_exit) irqs ex_fuel ex_fuel [] s = (Inr (ascii ''exit''), s\<lparr>trace := h\<rparr>)"
  using assms
  by (simp add: ex_fuel_def ex_exit_def read_char_run con_bytes_run console_ok_def bind_run return_io_def lift_io_def
      array_push_def LINE_CAPACITY_def is_ascii_control_def EOF_def ascii_def) (rule exI, rule refl)

lemma ex_loop:
  assumes "CONSOLE_lock \<notin> set (held s)" and "filter is_read (trace s) = []"
  shows "\<exists>h. shell_loop (ex_typing ex_exit) A irqs ex_fuel ex_fuel s = (Inr (), s\<lparr>trace := h\<rparr>)"
proof -
  let ?s = "s\<lparr>trace := trace s @ [Con (Con_fmt ''$ '' [])]\<rparr>"
  obtain h where h: "read_line (ex_typing ex_exit) irqs ex_fuel ex_fuel [] ?s = (Inr (ascii ''exit''), ?s\<lparr>trace := h\<rparr>)"
    using ex_exit_line [of ?s irqs] assms by auto
  have f: "ex_fuel = Suc (ex_fuel - 1)" by (simp add: ex_fuel_def)
  have "run_line (ex_typing ex_exit) A irqs ex_fuel (ascii ''exit'') t = (Inr False, t)" for t
    by (simp add: run_line_def run_command_def ascii_def EOF_def return_io_def)
  with h assms(1) show ?thesis by (subst (2) f) (simp add: runs, rule exI, rule refl)
qed

lemma ex_session_run:
  "shell_main (ex_typing ex_exit) ex_shell_args ex_idle ex_fuel ex_sec_state = (Inr (), ex_session)"
proof -
  note defs = irq_setup_def irq_remove_def irq_enable_def with_gic_def gic_call_def
      set_shared_irq_handler_def remove_shared_irq_handler_def private_get_def private_force_def private_table_def
      core_index_def current_cpu_index_def current_cpu_index_in_def mpidr_to_cpu_index_def cpu_id_def mpidr_affinity_def
      MPIDR_AFFINITY_MASK_def fdt_cpu_nodes_def cpu_count_in_def ex_fdt_def numeral_2_eq_2
      exception_free_def with_lock_def acquire_def release_def runs logs_def less_eq_level_def ex_sec_state_def
  let ?start = "block_io [log (ex_typing ex_exit) Info ''Configuring IRQs...'' [],
       emit (Gic (Gicc_set_priority_mask 0xff)), irq_setup (ex_typing ex_exit) Qemu, irq_enable]"
  obtain s where s: "?start ex_sec_state = (Inr (), s)" "held s = []" "logger s = Some Debug"
    "filter is_read (trace s) = []"
    by (simp add: defs)
  obtain h where h: "shell_loop (ex_typing ex_exit) ex_shell_args ex_idle ex_fuel ex_fuel s = (Inr (), s\<lparr>trace := h\<rparr>)"
    using ex_loop [of s ex_shell_args ex_idle] s by auto
  have "\<exists>u. irq_remove (ex_typing ex_exit) Qemu (s\<lparr>trace := h\<rparr>) = (Inr (), u)"
    using s(2,3) by (simp add: irq_remove_def remove_shared_irq_handler_def exception_free_def with_lock_def
        acquire_def release_def runs logs_def less_eq_level_def)
  then obtain u where u: "irq_remove (ex_typing ex_exit) Qemu (s\<lparr>trace := h\<rparr>) = (Inr (), u)" by blast
  from s(1) obtain s1 s2 s3 where "log (ex_typing ex_exit) Info ''Configuring IRQs...'' [] ex_sec_state = (Inr (), s1)"
    "emit (Gic (Gicc_set_priority_mask 0xff)) s1 = (Inr (), s2)" "irq_setup (ex_typing ex_exit) Qemu s2 = (Inr (), s3)"
    "irq_enable s3 = (Inr (), s)" by (auto simp: rets_bind rets_return)
  moreover have "arg_board ex_shell_args = Qemu" by (simp add: ex_shell_args_def)
  ultimately show ?thesis using h u by (simp add: ex_session_def shell_main_def bind_run return_io_def)
qed

theorem shell_main_session_witness:
  "shared_irq_handlers ex_session (RTC_IRQ Qemu) = None \<and> PAGETABLE ex_session = None"
  using shell_main_session [OF ex_session_run [unfolded ex_idle_def]] by (simp add: ex_shell_args_def ex_sec_state_def)

end
