(* ===== verification/Pci_Bars.thy ===== *)
theory Pci_Bars
  imports Pci
begin

text \<open>
  Properties of the BAR allocation of pci.rs: what the frame allocators are assumed to do, that the
  three pools are apart, that every block written to a BAR lies in a memory range of its root and
  overlaps no other, and that every memory BAR is written before its function is enabled.
\<close>

section \<open>What the frame allocator documents\<close>

text \<open>\<open>free\<close> gives the frames an allocator still holds. Adding frames that it does not hold adds no
  others; a block handed out was free, has the size and the alignment of the layout, and is free no
  longer.\<close>

definition frame_law :: "'fa frame_ops \<Rightarrow> ('fa \<Rightarrow> nat set) \<Rightarrow> bool" where
  "frame_law A free \<longleftrightarrow>
     free (fa_new A) = {} \<and>
     (\<forall>a b fa. {unat a ..< unat b} \<inter> free fa = {} \<longrightarrow>
        free (fa_add_frame A a b fa) \<subseteq> free fa \<union> {unat a ..< unat b}) \<and>
     (\<forall>l fa a fa'. fa_alloc_aligned A l fa = (Some a, fa') \<longrightarrow>
        block a (layout_size l) \<subseteq> free fa \<and> unat a mod unat (layout_align l) = 0 \<and>
        free fa' \<subseteq> free fa - block a (layout_size l)) \<and>
     (\<forall>l fa fa'. fa_alloc_aligned A l fa = (None, fa') \<longrightarrow> free fa' \<subseteq> free fa)"

lemma frame_law_new: "frame_law A free \<Longrightarrow> free (fa_new A) = {}"
  by (simp add: frame_law_def)

lemma frame_law_add:
  assumes "frame_law A free" and "{unat a ..< unat b} \<inter> free fa = {}"
  shows "free (fa_add_frame A a b fa) \<subseteq> free fa \<union> {unat a ..< unat b}"
  using assms by (simp add: frame_law_def)

lemma frame_law_Some:
  assumes "frame_law A free" and "fa_alloc_aligned A l fa = (Some a, fa')"
  shows "block a (layout_size l) \<subseteq> free fa" "unat a mod unat (layout_align l) = 0"
    "free fa' \<subseteq> free fa - block a (layout_size l)"
  using assms by (simp_all add: frame_law_def)

lemma frame_law_None:
  assumes "frame_law A free" and "fa_alloc_aligned A l fa = (None, fa')"
  shows "free fa' \<subseteq> free fa"
  using assms by (simp_all add: frame_law_def)

text \<open>Allocating from one of several pools needs them to be apart.\<close>

definition all_free ::
  "('a \<Rightarrow> nat set) \<Rightarrow> ('b \<Rightarrow> nat set) \<Rightarrow> ('a, 'b) pci_bar_allocator \<Rightarrow> nat set" where
  "all_free f32 f64 al = f32 (memory32 al) \<union> f64 (memory64 al) \<union> f64 (prefetchable_memory64 al)"

definition pools_apart ::
  "('a \<Rightarrow> nat set) \<Rightarrow> ('b \<Rightarrow> nat set) \<Rightarrow> ('a, 'b) pci_bar_allocator \<Rightarrow> bool" where
  "pools_apart f32 f64 al \<longleftrightarrow>
     f32 (memory32 al) \<inter> f64 (memory64 al) = {} \<and>
     f32 (memory32 al) \<inter> f64 (prefetchable_memory64 al) = {} \<and>
     f64 (memory64 al) \<inter> f64 (prefetchable_memory64 al) = {}"

section \<open>Allocation as a contract\<close>

text \<open>Blocks that are pairwise apart.\<close>

fun apart :: "nat set list \<Rightarrow> bool" where
  "apart [] = True"
| "apart (b # bs) \<longleftrightarrow> (\<forall>c \<in> set bs. b \<inter> c = {}) \<and> apart bs"

text \<open>\<open>accounted bs pool fr\<close>: the blocks handed out so far and the free space share nothing and
  lie in the pool.\<close>

definition accounted :: "nat set list \<Rightarrow> nat set \<Rightarrow> nat set \<Rightarrow> bool" where
  "accounted bs pool fr \<longleftrightarrow> apart bs \<and> \<Union> (set bs) \<subseteq> pool \<and> fr \<subseteq> pool \<and> \<Union> (set bs) \<inter> fr = {}"

lemma accounted_start: "fr \<subseteq> pool \<Longrightarrow> accounted [] pool fr"
  by (simp add: accounted_def)

lemma accounted_take:
  assumes "accounted bs pool fr" and "b \<subseteq> fr" and "fr' \<subseteq> fr - b"
  shows "accounted (b # bs) pool fr'"
  using assms unfolding accounted_def by auto

locale block_allocator =
  fixes alloc :: "layout \<Rightarrow> 'p \<Rightarrow> ('w::len word \<times> 'p) res"
    and free :: "'p \<Rightarrow> nat set"
    and ok :: "'p \<Rightarrow> bool"
  assumes alloc_ok: "ok p \<Longrightarrow> alloc l p = Inr (a, p') \<Longrightarrow> ok p'"
    and alloc_block: "ok p \<Longrightarrow> alloc l p = Inr (a, p') \<Longrightarrow> block a (layout_size l) \<subseteq> free p"
    and alloc_free: "ok p \<Longrightarrow> alloc l p = Inr (a, p') \<Longrightarrow> free p' \<subseteq> free p - block a (layout_size l)"
    and alloc_align: "ok p \<Longrightarrow> alloc l p = Inr (a, p') \<Longrightarrow> unat a mod unat (layout_align l) = 0"
begin

lemma alloc_accounted:
  assumes "ok p" and "accounted bs pool (free p)" and "alloc l p = Inr (a, p')"
  shows "accounted (block a (layout_size l) # bs) pool (free p')"
  using assms(2) alloc_block [OF assms(1,3)] alloc_free [OF assms(1,3)] by (rule accounted_take)

end

definition pools_ok ::
  "'a frame_ops \<Rightarrow> 'b frame_ops \<Rightarrow> ('a \<Rightarrow> nat set) \<Rightarrow> ('b \<Rightarrow> nat set) \<Rightarrow> ('a, 'b) pci_bar_allocator \<Rightarrow> bool" where
  "pools_ok A32 A64 f32 f64 al \<longleftrightarrow> frame_law A32 f32 \<and> frame_law A64 f64 \<and> pools_apart f32 f64 al"

lemma pools_apart_shrink:
  assumes "pools_apart f32 f64 al" and "f32 (memory32 al') \<subseteq> f32 (memory32 al)"
    and "f64 (memory64 al') \<subseteq> f64 (memory64 al)"
    and "f64 (prefetchable_memory64 al') \<subseteq> f64 (prefetchable_memory64 al)"
  shows "pools_apart f32 f64 al'"
  using assms unfolding pools_apart_def by blast

lemma unat_u32: "x \<le> u32_MAX \<Longrightarrow> unat (ucast x :: u32) = unat x"
  by (simp add: u32_MAX_def word_le_nat_alt unsigned_ucast_eq take_bit_nat_eq_self)

lemma unat_u64 [simp]: "unat (ucast (x :: u32) :: u64) = unat x"
proof -
  have "unat x < 2 ^ 32" using unsigned_less [of x] by simp
  then have "unat x < 2 ^ 64" by simp
  then show ?thesis by (simp add: unsigned_ucast_eq take_bit_nat_eq_self)
qed

lemma u32_block: "x \<le> u32_MAX \<Longrightarrow> block (ucast x :: u32) n = block x n"
  by (simp add: block_def unat_u32)

lemma allocate32_cases:
  assumes "allocate32 A32 l al = Inr (a, al')"
  obtains x fa where "fa_alloc_aligned A32 l (memory32 al) = (Some x, fa)" "x \<le> u32_MAX" "a = ucast x"
    "al' = al\<lparr>memory32 := fa\<rparr>"
  using assms
  by (auto simp: allocate32_def try_into_u32_def split: prod.splits if_splits)

interpretation a32: block_allocator
  "allocate32 A32" "all_free f32 f64" "pools_ok A32 A64 f32 f64"
  for A32 :: "'a frame_ops" and A64 :: "'b frame_ops" and f32 f64
proof
  fix p p' :: "('a, 'b) pci_bar_allocator" and l a
  assume "pools_ok A32 A64 f32 f64 p" and "allocate32 A32 l p = Inr (a, p')"
  then obtain x fa where ok: "frame_law A32 f32" "frame_law A64 f64" "pools_apart f32 f64 p"
    and run: "fa_alloc_aligned A32 l (memory32 p) = (Some x, fa)"
    and x: "x \<le> u32_MAX" "a = ucast x" and p': "p' = p\<lparr>memory32 := fa\<rparr>"
    by (auto simp: pools_ok_def elim: allocate32_cases)
  note facts = frame_law_Some [OF ok(1) run]
  show "pools_ok A32 A64 f32 f64 p'"
    using ok facts by (auto simp: pools_ok_def p' pools_apart_def)
  show "block a (layout_size l) \<subseteq> all_free f32 f64 p"
    using facts x by (auto simp: all_free_def u32_block)
  show "unat a mod unat (layout_align l) = 0"
    using facts x by (simp add: unat_u32)
  show "all_free f32 f64 p' \<subseteq> all_free f32 f64 p - block a (layout_size l)"
    using facts x ok(3) by (auto simp: all_free_def p' u32_block pools_apart_def)
qed

text \<open>A 64-bit block comes from one of the three pools, tried in order, the prefetchable one only
  for a prefetchable BAR.\<close>

lemma allocate64_cases:
  assumes "allocate64 A32 A64 l pf al = Inr (a, al')"
  obtains (prefetch) fa where "pf" "fa_alloc_aligned A64 l (prefetchable_memory64 al) = (Some a, fa)"
      "al' = al\<lparr>prefetchable_memory64 := fa\<rparr>"
  | (memory64) fa fp where "fp = prefetchable_memory64 al \<and> \<not> pf \<or>
        fa_alloc_aligned A64 l (prefetchable_memory64 al) = (None, fp) \<and> pf"
      "fa_alloc_aligned A64 l (memory64 al) = (Some a, fa)"
      "al' = al\<lparr>prefetchable_memory64 := fp, memory64 := fa\<rparr>"
  | (memory32) x fa fp where "fp = prefetchable_memory64 al \<and> \<not> pf \<or>
        fa_alloc_aligned A64 l (prefetchable_memory64 al) = (None, fp) \<and> pf"
      "fa_alloc_aligned A64 l (memory64 al) = (None, fa)"
      "allocate32 A32 l (al\<lparr>prefetchable_memory64 := fp, memory64 := fa\<rparr>) = Inr (x, al')"
      "a = ucast x"
proof -
  have step: thesis
    if fp: "fp = prefetchable_memory64 al \<and> \<not> pf \<or>
        fa_alloc_aligned A64 l (prefetchable_memory64 al) = (None, fp) \<and> pf"
      and run: "allocate64_fallback A32 A64 l (al\<lparr>prefetchable_memory64 := fp\<rparr>) = Inr (a, al')" for fp
  proof (cases "fa_alloc_aligned A64 l (memory64 al)")
    case (Pair r fa)
    with run show thesis
      using memory64 [OF fp, of fa] memory32 [OF fp, of fa]
      by (cases r) (auto simp: allocate64_fallback_def)
  qed
  obtain r fp where r: "fa_alloc_aligned A64 l (prefetchable_memory64 al) = (r, fp)"
    by fastforce
  show thesis
    using assms r step [of "prefetchable_memory64 al"] step [of fp] prefetch
    by (cases pf; cases r) (auto simp: allocate64_def)
qed

lemma fallback_pools:
  assumes "pools_ok A32 A64 f32 f64 p"
    and "fp = prefetchable_memory64 p \<and> \<not> pf \<or> fa_alloc_aligned A64 l (prefetchable_memory64 p) = (None, fp) \<and> pf"
  shows "f64 fp \<subseteq> f64 (prefetchable_memory64 p)"
  using assms by (auto simp: pools_ok_def dest: frame_law_None)

interpretation a64: block_allocator
  "\<lambda>l. allocate64 A32 A64 l pf" "all_free f32 f64" "pools_ok A32 A64 f32 f64"
  for A32 :: "'a frame_ops" and A64 :: "'b frame_ops" and f32 f64 pf
proof -
  have *: "pools_ok A32 A64 f32 f64 p' \<and> block a (layout_size l) \<subseteq> all_free f32 f64 p \<and>
      unat a mod unat (layout_align l) = 0 \<and>
      all_free f32 f64 p' \<subseteq> all_free f32 f64 p - block a (layout_size l)"
    if ok: "pools_ok A32 A64 f32 f64 p" and run: "allocate64 A32 A64 l pf p = Inr (a, p')" for p l a p'
    using run
  proof (cases rule: allocate64_cases)
    case (prefetch fa)
    have law: "frame_law A64 f64" using ok by (simp add: pools_ok_def)
    show ?thesis
      using ok frame_law_Some [OF law prefetch(2)] prefetch(3)
      by (auto simp: pools_ok_def pools_apart_def all_free_def)
  next
    case (memory64 fa fp)
    have law: "frame_law A64 f64" using ok by (simp add: pools_ok_def)
    show ?thesis
      using ok frame_law_Some [OF law memory64(2)] fallback_pools [OF ok memory64(1)] memory64(3)
      by (auto simp: pools_ok_def pools_apart_def all_free_def)
  next
    case (memory32 x fa fp)
    let ?q = "p\<lparr>prefetchable_memory64 := fp, memory64 := fa\<rparr>"
    have law: "frame_law A64 f64" using ok by (simp add: pools_ok_def)
    have q: "pools_ok A32 A64 f32 f64 ?q" "all_free f32 f64 ?q \<subseteq> all_free f32 f64 p"
      using ok frame_law_None [OF law memory32(2)] fallback_pools [OF ok memory32(1)]
      by (auto simp: pools_ok_def pools_apart_def all_free_def)
    show ?thesis
      using q(2) a32.alloc_ok [OF q(1) memory32(3)] a32.alloc_block [OF q(1) memory32(3)]
        a32.alloc_free [OF q(1) memory32(3)] a32.alloc_align [OF q(1) memory32(3)] memory32(4)
      by (auto simp: block_def)
  qed
  show "block_allocator (\<lambda>l. allocate64 A32 A64 l pf) (all_free f32 f64) (pools_ok A32 A64 f32 f64)"
    by unfold_locales (use * in blast)+
qed

section \<open>The pools\<close>

text \<open>Ranges of which no two memory ranges overlap.\<close>

definition ranges_apart :: "pci_range list \<Rightarrow> bool" where
  "ranges_apart rs \<longleftrightarrow> apart (map range_block (memory_ranges rs))"

definition pool :: "pci_range list \<Rightarrow> nat set" where
  "pool rs = (\<Union>r \<in> set (memory_ranges rs). range_block r)"

lemma pool_simps [simp]:
  "pool [] = {}"
  "pool (r # rs) = (if is_memory (kind r) then range_block r \<union> pool rs else pool rs)"
  by (auto simp: pool_def)

lemma ranges_apart_Cons:
  "ranges_apart (r # rs) \<longleftrightarrow> ranges_apart rs \<and> (is_memory (kind r) \<longrightarrow> range_block r \<inter> pool rs = {})"
  by (auto simp: ranges_apart_def pool_def)

datatype pool_name = Pool32 | Pool64 | Prefetchable64

text \<open>Which pool takes a memory range.\<close>

definition pool_of :: "pci_range \<Rightarrow> pool_name" where
  "pool_of r =
     (if kind r = Memory32 \<or> unat (bus_address r) + unat (range_size r) < unat u32_MAX then Pool32
      else if prefetchable (flags r) then Prefetchable64 else Pool64)"

fun add_to ::
  "'a frame_ops \<Rightarrow> 'b frame_ops \<Rightarrow> usize \<Rightarrow> usize \<Rightarrow> pool_name \<Rightarrow> ('a, 'b) pci_bar_allocator \<Rightarrow>
   ('a, 'b) pci_bar_allocator" where
  "add_to A32 A64 a b Pool32 al = al\<lparr>memory32 := fa_add_frame A32 a b (memory32 al)\<rparr>"
| "add_to A32 A64 a b Pool64 al = al\<lparr>memory64 := fa_add_frame A64 a b (memory64 al)\<rparr>"
| "add_to A32 A64 a b Prefetchable64 al =
     al\<lparr>prefetchable_memory64 := fa_add_frame A64 a b (prefetchable_memory64 al)\<rparr>"

lemma add_range_returned:
  assumes "add_range E A32 A64 r al s = (Inr al', t)"
  shows "if is_memory (kind r)
    then cpu_physical r = bus_address r \<and>
      (\<exists>e. unat e = unat (cpu_physical r) + unat (range_size r) \<and>
        al' = add_to A32 A64 (cpu_physical r) e (pool_of r) al)
    else al' = al"
proof (cases "kind r")
  case Memory32
  with assms show ?thesis
    by (auto simp: add_range_def rets range_type_kind is_memory_def pool_of_def
        dest!: checked_add_unat simp del: rets_log split: if_splits)
next
  case Memory64
  with assms show ?thesis
    by (auto simp: add_range_def rets range_type_kind is_memory_def pool_of_def word_less_nat_alt
        dest!: checked_add_unat split: if_splits)
qed (use assms in \<open>auto simp: add_range_def rets range_type_kind is_memory_def\<close>)

lemma add_to_pools:
  assumes "pools_ok A32 A64 f32 f64 al" and "{unat a ..< unat b} \<inter> all_free f32 f64 al = {}"
  shows "pools_ok A32 A64 f32 f64 (add_to A32 A64 a b p al)"
    and "all_free f32 f64 (add_to A32 A64 a b p al) \<subseteq> all_free f32 f64 al \<union> {unat a ..< unat b}"
proof -
  have law: "frame_law A32 f32" "frame_law A64 f64"
    using assms(1) by (simp_all add: pools_ok_def)
  have "f32 (fa_add_frame A32 a b (memory32 al)) \<subseteq> f32 (memory32 al) \<union> {unat a ..< unat b}"
    "f64 (fa_add_frame A64 a b (memory64 al)) \<subseteq> f64 (memory64 al) \<union> {unat a ..< unat b}"
    "f64 (fa_add_frame A64 a b (prefetchable_memory64 al)) \<subseteq>
       f64 (prefetchable_memory64 al) \<union> {unat a ..< unat b}"
    using assms(2) by (intro frame_law_add law; auto simp: all_free_def)+
  then show "pools_ok A32 A64 f32 f64 (add_to A32 A64 a b p al)"
    and "all_free f32 f64 (add_to A32 A64 a b p al) \<subseteq> all_free f32 f64 al \<union> {unat a ..< unat b}"
    using assms by (cases p; auto simp: pools_ok_def pools_apart_def all_free_def)+
qed

lemma add_ranges_returned:
  assumes "add_ranges E A32 A64 rs al s = (Inr al', t)"
    and "pools_ok A32 A64 f32 f64 al" and "ranges_apart rs" and "pool rs \<inter> all_free f32 f64 al = {}"
  shows "pools_ok A32 A64 f32 f64 al' \<and> all_free f32 f64 al' \<subseteq> all_free f32 f64 al \<union> pool rs"
  using assms
proof (induction rs arbitrary: al s)
  case Nil
  then show ?case by (simp add: rets)
next
  case (Cons r rs)
  from Cons.prems(1) obtain q u where q: "add_range E A32 A64 r al s = (Inr q, u)"
    and rest: "add_ranges E A32 A64 rs q u = (Inr al', t)"
    by (auto simp: rets)
  have step: "pools_ok A32 A64 f32 f64 q \<and>
    all_free f32 f64 q \<subseteq> all_free f32 f64 al \<union> (if is_memory (kind r) then range_block r else {})"
  proof (cases "is_memory (kind r)")
    case True
    with add_range_returned [OF q] obtain e
      where e: "unat e = unat (cpu_physical r) + unat (range_size r)"
        and al: "q = add_to A32 A64 (cpu_physical r) e (pool_of r) al"
      by auto
    have "{unat (cpu_physical r) ..< unat e} = range_block r"
      by (simp add: e range_block_def block_def)
    with add_to_pools [OF Cons.prems(2), of "cpu_physical r" e "pool_of r"] Cons.prems(4) True al
    show ?thesis by (simp add: Int_Un_distrib2)
  next
    case False
    with add_range_returned [OF q] Cons.prems(2) show ?thesis by simp
  qed
  have "pool rs \<inter> all_free f32 f64 q = {}"
    using step Cons.prems(3,4) by (auto simp: ranges_apart_Cons split: if_splits)
  with Cons.IH [OF rest conjunct1 [OF step]] Cons.prems(3)
  have "pools_ok A32 A64 f32 f64 al' \<and> all_free f32 f64 al' \<subseteq> all_free f32 f64 q \<union> pool rs"
    by (simp add: ranges_apart_Cons)
  with step show ?case by (auto split: if_splits)
qed

lemma bar_allocator_new_returned:
  assumes "bar_allocator_new E A32 A64 rs s = (Inr al, t)"
    and "frame_law A32 f32" "frame_law A64 f64" "ranges_apart rs"
  shows "pools_ok A32 A64 f32 f64 al" "all_free f32 f64 al \<subseteq> pool rs"
  using add_ranges_returned [OF assms(1) [unfolded bar_allocator_new_def], of f32 f64] assms(2-)
  by (auto simp: pools_ok_def pools_apart_def all_free_def frame_law_new)

section \<open>What the trace says about BARs\<close>

text \<open>Reading a trace: the last list of BARs a function reported, and the blocks that have been
  written to BARs, newest first, each with the size reported for its index.\<close>

definition bar_size :: "bar_info option list \<Rightarrow> u8 \<Rightarrow> u64" where
  "bar_size bars i =
     (if unat i < length bars then
        case bars ! unat i of Some (Bar_memory _ _ _ sz) \<Rightarrow> sz | _ \<Rightarrow> 0
      else 0)"

record bar_view =
  view_history :: "event list"
  view_bars :: "bar_info option list"
  view_blocks :: "(u64 \<times> u64) list"

fun bar_step :: "'e pci_env_scheme \<Rightarrow> bar_view \<Rightarrow> event \<Rightarrow> bar_view" where
  "bar_step E v (Pci (Pci_bars root df)) =
     v\<lparr>view_history := view_history v @ [Pci (Pci_bars root df)],
       view_bars := (case bars_reply E (view_history v) root df of Inl _ \<Rightarrow> [] | Inr bs \<Rightarrow> bs)\<rparr>"
| "bar_step E v (Pci (Set_bar_32 root df i a)) =
     v\<lparr>view_history := view_history v @ [Pci (Set_bar_32 root df i a)],
       view_blocks := (ucast a, bar_size (view_bars v) i) # view_blocks v\<rparr>"
| "bar_step E v (Pci (Set_bar_64 root df i a)) =
     v\<lparr>view_history := view_history v @ [Pci (Set_bar_64 root df i a)],
       view_blocks := (a, bar_size (view_bars v) i) # view_blocks v\<rparr>"
| "bar_step E v ev = v\<lparr>view_history := view_history v @ [ev]\<rparr>"

definition view_of :: "'e pci_env_scheme \<Rightarrow> event list \<Rightarrow> bar_view" where
  "view_of E tr = foldl (bar_step E) \<lparr>view_history = [], view_bars = [], view_blocks = []\<rparr> tr"

definition bar_blocks :: "'e pci_env_scheme \<Rightarrow> event list \<Rightarrow> (u64 \<times> u64) list" where
  "bar_blocks E tr = view_blocks (view_of E tr)"

definition last_bars :: "'e pci_env_scheme \<Rightarrow> event list \<Rightarrow> bar_info option list" where
  "last_bars E tr = view_bars (view_of E tr)"

lemma bar_step_history: "view_history (bar_step E v ev) = view_history v @ [ev]"
  by (induction E v ev rule: bar_step.induct) simp_all

lemma view_of_history [simp]: "view_history (view_of E tr) = tr"
  by (induction tr rule: rev_induct) (simp_all add: view_of_def bar_step_history)

lemma view_of_snoc: "view_of E (tr @ [ev]) = bar_step E (view_of E tr) ev"
  by (simp add: view_of_def)

lemma bar_blocks_snoc [simp]:
  "bar_blocks E [] = []"
  "bar_blocks E (tr @ [Con c]) = bar_blocks E tr"
  "bar_blocks E (tr @ [Pci (Pci_bars root df)]) = bar_blocks E tr"
  "bar_blocks E (tr @ [Pci (Pci_enumerate root)]) = bar_blocks E tr"
  "bar_blocks E (tr @ [Pci (Set_command root df cmd)]) = bar_blocks E tr"
  "bar_blocks E (tr @ [Pci (Set_bar_32 root df i a)]) = (ucast a, bar_size (last_bars E tr) i) # bar_blocks E tr"
  "bar_blocks E (tr @ [Pci (Set_bar_64 root df i b)]) = (b, bar_size (last_bars E tr) i) # bar_blocks E tr"
  by (simp_all add: bar_blocks_def last_bars_def view_of_snoc) (simp add: view_of_def)

lemma last_bars_snoc [simp]:
  "last_bars E (tr @ [Con c]) = last_bars E tr"
  "last_bars E (tr @ [Pci (Set_bar_32 root df i a)]) = last_bars E tr"
  "last_bars E (tr @ [Pci (Set_bar_64 root df i b)]) = last_bars E tr"
  "bars_reply E tr root df = Inr bs \<Longrightarrow> last_bars E (tr @ [Pci (Pci_bars root df)]) = bs"
  by (simp_all add: last_bars_def view_of_snoc)

text \<open>The invariant of the loops: since \<open>tr0\<close> some blocks have been written, and they, the free
  space and the pool are accounted for.\<close>

definition bars_inv ::
  "'e pci_env_scheme \<Rightarrow> ('p \<Rightarrow> nat set) \<Rightarrow> nat set \<Rightarrow> (u64 \<times> u64) list \<Rightarrow> 'p \<Rightarrow> event list \<Rightarrow> bool" where
  "bars_inv E fr pl old p tr \<longleftrightarrow>
     (\<exists>new. bar_blocks E tr = new @ old \<and>
        accounted (map (\<lambda>(a, n). block a n) new) pl (fr p) \<and>
        (\<forall>(a, n) \<in> set new. unat a mod unat n = 0))"

lemma log_keeps_view:
  assumes "log C lvl lit args s = (Inr u, t)"
  shows "bar_blocks E (trace t) = bar_blocks E (trace s)" "last_bars E (trace t) = last_bars E (trace s)"
  using log_returned [OF assms] by auto

lemma bars_inv_take:
  assumes "bars_inv E fr pl old p tr" and "bar_blocks E tr' = (a, n) # bar_blocks E tr"
    and "\<And>bs. accounted bs pl (fr p) \<Longrightarrow> accounted (block a n # bs) pl (fr p')"
    and "unat a mod unat n = 0"
  shows "bars_inv E fr pl old p' tr'"
proof -
  from assms(1) obtain new where new: "bar_blocks E tr = new @ old"
    "accounted (map (\<lambda>(a, n). block a n) new) pl (fr p)" "\<forall>(a, n) \<in> set new. unat a mod unat n = 0"
    by (auto simp: bars_inv_def)
  then show ?thesis
    unfolding bars_inv_def using assms(2-) by (intro exI [of _ "(a, n) # new"]) auto
qed

lemma add_range_view:
  assumes "add_range E A32 A64 r al s = (Inr al', t)"
  shows "bar_blocks E' (trace t) = bar_blocks E' (trace s)"
proof (cases "kind r = Memory32 \<and> prefetchable (flags r)")
  case True
  with assms have "log E Warn ''32-bit PCI range was marked as prefetchable'' [] s = (Inr (), t)"
    by (auto simp: add_range_def rets_bind rets_return rets_lift range_type_kind)
  then show ?thesis by (rule log_keeps_view)
next
  case False
  with assms have "t = s"
    by (cases "kind r") (auto simp: add_range_def rets_bind rets_return rets_lift range_type_kind)
  then show ?thesis by simp
qed

lemma add_ranges_view:
  "add_ranges E A32 A64 rs al s = (Inr al', t) \<Longrightarrow> bar_blocks E' (trace t) = bar_blocks E' (trace s)"
  by (induction rs arbitrary: al s) (auto simp: rets_bind rets_return dest!: add_range_view [where E' = E'])

lemma bar_size_nth:
  assumes "bars = bs @ Some (Bar_memory ty pf a sz) # cs" and "length bars \<le> 6"
  shows "bar_size bars (of_nat (length bs)) = sz"
proof -
  have "unat (of_nat (length bs) :: u8) = length bs"
    using assms by (simp add: unat_of_nat)
  then show ?thesis using assms(1) by (simp add: bar_size_def nth_append)
qed

lemma allocate_bar_inv:
  assumes "allocate_bar E A32 A64 root df (length bs) b al s = (Inr al', t)"
    and "pools_ok A32 A64 f32 f64 al"
    and "bars_inv E (all_free f32 f64) pl old al (trace s)"
    and "last_bars E (trace s) = bs @ b # cs" and "length (bs @ b # cs) \<le> 6"
  shows "pools_ok A32 A64 f32 f64 al' \<and> bars_inv E (all_free f32 f64) pl old al' (trace t) \<and>
    last_bars E (trace t) = last_bars E (trace s)"
proof (cases "\<exists>ty pf a sz. b = Some (Bar_memory ty pf a sz) \<and> sz \<noteq> 0")
  case False
  have "al' = al \<and> bar_blocks E (trace t) = bar_blocks E (trace s) \<and>
      last_bars E (trace t) = last_bars E (trace s)"
  proof (cases b)
    case None
    with assms(1) show ?thesis by (simp add: allocate_bar_def rets_return)
  next
    case (Some c)
    from assms(1) obtain s1 where 1: "log E Info ''BAR {bar_index}: {info}'' [A_nat (length bs), bar_fmt c] s = (Inr (), s1)"
      and 2: "al' = al \<and> (t = s1 \<or> log E Warn ''Ignoring IO BAR'' [] s1 = (Inr (), t))"
      using False Some
      by (cases c) (auto simp: allocate_bar_def rets_bind rets_return)
    then show ?thesis
      using log_keeps_view [OF 1, of E] log_keeps_view [of E Warn _ _ s1 "()" t E] by (elim conjE disjE) simp_all
  qed
  then show ?thesis using assms(2,3) by (simp add: bars_inv_def)
next
  case True
  then obtain ty pf a0 sz where b: "b = Some (Bar_memory ty pf a0 sz)" and sz: "sz \<noteq> 0" by blast
  let ?l = "\<lparr>layout_size = sz, layout_align = sz\<rparr>"
  have size: "bar_size (last_bars E (trace s)) (of_nat (length bs)) = sz"
    using bar_size_nth assms(4,5) b by metis
  have "last_bars E (trace t) = last_bars E (trace s) \<and>
    (\<exists>a. bar_blocks E (trace t) = (a, sz) # bar_blocks E (trace s) \<and>
      ((\<exists>x. a = ucast x \<and> allocate32 A32 ?l al = Inr (x, al')) \<or> allocate64 A32 A64 ?l pf al = Inr (a, al')))"
  proof (cases ty)
    case Width32
    from assms(1) sz obtain s1 s2 x s3 where logs:
        "log E Info ''BAR {bar_index}: {info}'' [A_nat (length bs), bar_fmt (Bar_memory ty pf a0 sz)] s = (Inr (), s1)"
        "(if pf then log E Warn ''  32-bit BAR should not be marked prefetchable.'' [] else return_io ()) s1 = (Inr (), s2)"
        "log E Info ''  allocated {allocation:#0x}'' [A_u32 x] s2 = (Inr (), s3)"
      and "allocate32 A32 ?l al = Inr (x, al')"
      and "t = s3\<lparr>trace := trace s3 @ [Pci (Set_bar_32 root df (of_nat (length bs)) x)]\<rparr>"
      unfolding allocate_bar_def b Width32
      by (auto simp: rets_bind rets_lift rets_return rets_emit layout_from_size_align_Inr)
    moreover have "bar_blocks E (trace s2) = bar_blocks E (trace s1)" "last_bars E (trace s2) = last_bars E (trace s1)"
      using logs(2) log_keeps_view [of E Warn _ _ s1 "()" s2 E]
      by (cases pf; simp add: rets_return)+
    ultimately show ?thesis
      using size log_keeps_view [OF logs(1), of E] log_keeps_view [OF logs(3), of E] by simp
  next
    case Width64
    from assms(1) sz obtain s1 s2 x where logs:
        "log E Info ''BAR {bar_index}: {info}'' [A_nat (length bs), bar_fmt (Bar_memory ty pf a0 sz)] s = (Inr (), s1)"
        "log E Info ''  allocated {allocation:#0x}'' [A_u64 x] s1 = (Inr (), s2)"
      and "allocate64 A32 A64 ?l pf al = Inr (x, al')"
      and "t = s2\<lparr>trace := trace s2 @ [Pci (Set_bar_64 root df (of_nat (length bs)) x)]\<rparr>"
      unfolding allocate_bar_def b Width64
      by (auto simp: rets_bind rets_lift rets_return rets_emit layout_from_size_align_Inr)
    then show ?thesis
      using size log_keeps_view [OF logs(1), of E] log_keeps_view [OF logs(2), of E] by simp
  next
    case Below1MiB
    then show ?thesis
    using assms(1) size sz
      by (simp add: allocate_bar_def b rets layout_from_size_align_Inr del: rets_log)
  qed
  then obtain a where keep: "last_bars E (trace t) = last_bars E (trace s)"
    and blocks: "bar_blocks E (trace t) = (a, sz) # bar_blocks E (trace s)"
    and run: "(\<exists>x. a = ucast x \<and> allocate32 A32 ?l al = Inr (x, al')) \<or> allocate64 A32 A64 ?l pf al = Inr (a, al')"
    by blast
  have taken: "pools_ok A32 A64 f32 f64 al' \<and> unat a mod unat sz = 0 \<and>
    (\<forall>bs. accounted bs pl (all_free f32 f64 al) \<longrightarrow> accounted (block a sz # bs) pl (all_free f32 f64 al'))"
    using run
  proof
    assume "\<exists>x. a = ucast x \<and> allocate32 A32 ?l al = Inr (x, al')"
    then obtain x where "a = ucast x" and x: "allocate32 A32 ?l al = Inr (x, al')" by blast
    with a32.alloc_ok [OF assms(2) x] a32.alloc_align [OF assms(2) x]
      a32.alloc_accounted [OF assms(2) _ x]
    show ?thesis by (simp add: block_def)
  next
    assume x: "allocate64 A32 A64 ?l pf al = Inr (a, al')"
    with a64.alloc_ok [OF assms(2) x] a64.alloc_align [OF assms(2) x]
      a64.alloc_accounted [OF assms(2) _ x]
    show ?thesis by simp
  qed
  then have "bars_inv E (all_free f32 f64) pl old al' (trace t)"
    by (intro bars_inv_take [OF assms(3) blocks]) simp_all
  with taken keep show ?thesis by simp
qed

lemma allocate_bar_list_inv:
  assumes "allocate_bar_list E A32 A64 root df (length bs) cs al s = (Inr al', t)"
    and "pools_ok A32 A64 f32 f64 al"
    and "bars_inv E (all_free f32 f64) pl old al (trace s)"
    and "last_bars E (trace s) = bs @ cs" and "length (bs @ cs) \<le> 6"
  shows "pools_ok A32 A64 f32 f64 al' \<and> bars_inv E (all_free f32 f64) pl old al' (trace t)"
  using assms
proof (induction cs arbitrary: bs al s)
  case Nil
  then show ?case by (simp add: rets)
next
  case (Cons c cs)
  from Cons.prems(1) obtain q u where q: "allocate_bar E A32 A64 root df (length bs) c al s = (Inr q, u)"
    and rest: "allocate_bar_list E A32 A64 root df (length (bs @ [c])) cs q u = (Inr al', t)"
    by (auto simp: rets)
  from allocate_bar_inv [OF q Cons.prems(2-5)] Cons.IH [OF rest] Cons.prems(4,5)
  show ?case by simp
qed

text \<open>A function has six BARs: \<^verbatim>\<open>bars\<close> returns an array of that length.\<close>

definition bars_law :: "'e pci_env_scheme \<Rightarrow> bool" where
  "bars_law E \<longleftrightarrow> (\<forall>h root df bs. bars_reply E h root df = Inr bs \<longrightarrow> length bs = 6)"

lemma bars_lawD: "bars_law E \<Longrightarrow> bars_reply E h root df = Inr bs \<Longrightarrow> length bs = 6"
  unfolding bars_law_def by blast

lemma allocate_bars_inv:
  assumes "allocate_bars E A32 A64 root df al s = (Inr (r, al'), t)" and "bars_law E"
    and "pools_ok A32 A64 f32 f64 al"
    and "bars_inv E (all_free f32 f64) pl old al (trace s)"
  shows "pools_ok A32 A64 f32 f64 al' \<and> bars_inv E (all_free f32 f64) pl old al' (trace t)"
proof -
  let ?s = "s\<lparr>trace := trace s @ [Pci (Pci_bars root df)]\<rparr>"
  from assms(1) obtain bars u where bars: "bars_reply E (trace s) root df = Inr bars"
    and run: "allocate_bar_list E A32 A64 root df (length ([] :: bar_info option list)) bars al ?s = (Inr al', u)"
    and t: "\<exists>cmd. trace t = trace u @ [Pci (Set_command root df cmd)]"
    by (auto simp: allocate_bars_def rets)
  have "pools_ok A32 A64 f32 f64 al' \<and> bars_inv E (all_free f32 f64) pl old al' (trace u)"
    using assms(3,4) bars bars_lawD [OF assms(2) bars]
    by (intro allocate_bar_list_inv [OF run]) (simp_all add: bars_inv_def)
  with t show ?thesis by (auto simp: bars_inv_def)
qed

lemma init_functions_inv:
  assumes "init_functions E A32 A64 root fs al s = (Inr u, t)" and "bars_law E"
    and "pools_ok A32 A64 f32 f64 al"
    and "bars_inv E (all_free f32 f64) pl old al (trace s)"
  shows "\<exists>al'. bars_inv E (all_free f32 f64) pl old al' (trace t)"
  using assms
proof (induction fs arbitrary: al s)
  case Nil
  then show ?case by (auto simp: rets)
next
  case (Cons f fs)
  obtain df info where f: "f = (df, info)" by fastforce
  from Cons.prems(1) obtain v w r q where lg: "log E Info ''Initialising bars for {device_function} {info}''
      [df_fmt df, A_token info] s = (Inr (), v)"
    and run: "allocate_bars E A32 A64 root df al v = (Inr (r, q), w)"
    and rest: "init_functions E A32 A64 root fs q w = (Inr u, t)"
    by (auto simp: f rets simp del: rets_log)
  have "bars_inv E (all_free f32 f64) pl old al (trace v)"
    using Cons.prems(4) log_keeps_view(1) [OF lg, of E] by (simp add: bars_inv_def)
  from allocate_bars_inv [OF run Cons.prems(2,3) this] Cons.IH [OF rest Cons.prems(2)]
  show ?case by blast
qed

lemma init_pci_inv:
  assumes "init_pci E A32 A64 info s = (Inr root, t)" and "bars_law E"
    and "frame_law A32 f32" "frame_law A64 f64" and "ranges_apart (ranges info)"
  shows "\<exists>al. bars_inv E (all_free f32 f64) (pool (ranges info)) (bar_blocks E (trace s)) al (trace t)"
proof -
  from assms(1) obtain al u v fs
    where new: "bar_allocator_new E A32 A64 (ranges info) s = (Inr al, u)"
      and v: "v = u\<lparr>trace := trace u @ [Pci (Pci_enumerate (mmio_base info))]\<rparr>"
      and run: "init_functions E A32 A64 (mmio_base info) fs al v = (Inr (), t)"
    by (auto simp: init_pci_def Let_def rets)
  note pools = bar_allocator_new_returned [OF new assms(3-5)]
  have "bar_blocks E (trace u) = bar_blocks E (trace s)"
    using new unfolding bar_allocator_new_def by (rule add_ranges_view)
  then have "bars_inv E (all_free f32 f64) (pool (ranges info)) (bar_blocks E (trace s)) al (trace v)"
    using accounted_start [OF pools(2)] by (simp add: bars_inv_def v)
  from init_functions_inv [OF run assms(2) pools(1) this] show ?thesis .
qed

section \<open>An example\<close>

text \<open>A frame allocator that serves one run of frames from its start.\<close>

definition bump_add :: "usize \<Rightarrow> usize \<Rightarrow> nat \<times> nat \<Rightarrow> nat \<times> nat" where
  "bump_add a b fa = (if snd fa \<le> fst fa then (unat a, unat b) else fa)"

definition round_up :: "nat \<Rightarrow> nat \<Rightarrow> nat" where
  "round_up k n = (n + k - 1) div k * k"

definition bump_alloc :: "layout \<Rightarrow> nat \<times> nat \<Rightarrow> usize option \<times> nat \<times> nat" where
  "bump_alloc l fa =
     (let a = round_up (unat (layout_align l)) (fst fa) in
      if fst fa \<le> a \<and> a + unat (layout_size l) \<le> snd fa \<and> a < 2 ^ 64
      then (Some (word_of_nat a), a + unat (layout_size l), snd fa) else (None, fa))"

definition bump_ops :: "(nat \<times> nat) frame_ops" where
  "bump_ops = \<lparr>fa_new = (0, 0), fa_add_frame = bump_add, fa_alloc_aligned = bump_alloc\<rparr>"

definition bump_free :: "nat \<times> nat \<Rightarrow> nat set" where
  "bump_free fa = {fst fa ..< snd fa}"

lemma round_up_mod: "round_up k n mod k = 0"
  by (simp add: round_up_def)

lemma bump_frame_law: "frame_law bump_ops bump_free"
  by (auto simp: frame_law_def bump_ops_def bump_free_def bump_add_def bump_alloc_def block_def Let_def
      unat_of_nat round_up_mod split: if_splits)

definition ex_io_state :: io_state where
  "ex_io_state = \<lparr>trace = [], held = [], masked = False, console_set = True, logger = Some Info\<rparr>"

definition ex_range :: pci_range where
  "ex_range = \<lparr>cpu_physical = 0x10000000, bus_address = 0x10000000, range_size = 0x1000000, flags = 0x02000000\<rparr>"

definition ex_root :: pci_root_info where
  "ex_root = \<lparr>root_cam = MmioCam, mmio_base = 0x72000000, ranges = [ex_range]\<rparr>"

lemma ex_kind: "kind ex_range = Memory32" "\<not> prefetchable (flags ex_range)"
  "range_type (flags ex_range) = Inr Memory32"
  by (simp_all add: kind_def ex_range_def prefetchable_def range_type_def range_type_from_def)

lemma ex_new: "wpre (bar_allocator_new ex_pci_env bump_ops bump_ops [ex_range]) Q R =
  Q \<lparr>memory32 = (0x10000000, 0x11000000), memory64 = (0, 0), prefetchable_memory64 = (0, 0)\<rparr>"
  by (rule ext)
    (simp add: bar_allocator_new_def add_range_def wp ex_kind, simp add: ex_range_def checked_add_def bump_ops_def bump_add_def)

lemma ex_pci_env_replies [simp]:
  "write_reply ex_pci_env h ev = Inr ()"
  "enumerate_reply ex_pci_env h root = [((0, 1, 0), 7)]"
  "bars_reply ex_pci_env h root df = Inr [Some (Bar_memory Width32 False 0 0x1000), None,
     Some (Bar_memory Width64 True 0 0x4000), None, Some (Bar_io 0 32), None]"
  by (simp_all add: ex_pci_env_def)

lemma ex_allocations:
  "layout_from_size_align 0x1000 0x1000 = Inr \<lparr>layout_size = 0x1000, layout_align = 0x1000\<rparr>"
  "layout_from_size_align 0x4000 0x4000 = Inr \<lparr>layout_size = 0x4000, layout_align = 0x4000\<rparr>"
  "allocate32 bump_ops \<lparr>layout_size = 0x1000, layout_align = 0x1000\<rparr>
     \<lparr>memory32 = (0x10000000, 0x11000000), memory64 = (0, 0), prefetchable_memory64 = (0, 0)\<rparr> =
   Inr (0x10000000,
     \<lparr>memory32 = (0x10001000, 0x11000000), memory64 = (0, 0), prefetchable_memory64 = (0, 0)\<rparr>)"
  "allocate64 bump_ops bump_ops \<lparr>layout_size = 0x4000, layout_align = 0x4000\<rparr> True
     \<lparr>memory32 = (0x10001000, 0x11000000), memory64 = (0, 0), prefetchable_memory64 = (0, 0)\<rparr> =
   Inr (0x10004000,
     \<lparr>memory32 = (0x10008000, 0x11000000), memory64 = (0, 0), prefetchable_memory64 = (0, 0)\<rparr>)"
  by (simp_all add: layout_from_size_align_def is_power_of_two_def allocate32_def allocate64_def
      allocate64_fallback_def bump_ops_def bump_alloc_def round_up_def try_into_u32_def u32_MAX_def)

lemma ex_new_run:
  "bar_allocator_new ex_pci_env bump_ops bump_ops [ex_range] s =
    (Inr \<lparr>memory32 = (0x10000000, 0x11000000), memory64 = (0, 0), prefetchable_memory64 = (0, 0)\<rparr>, s)"
  by (rule wpre_eqI) (simp add: ex_new)

definition ex_final :: io_state where
  "ex_final = snd (init_pci ex_pci_env bump_ops bump_ops ex_root ex_io_state)"

lemma ex_init_pci_run:
  "init_pci ex_pci_env bump_ops bump_ops ex_root ex_io_state = (Inr 0x72000000, ex_final)"
  by (simp add: ex_final_def init_pci_def runs ex_root_def ex_new_run allocate_bars_def allocate_bar_def
     ex_allocations ex_io_state_def logs_def less_eq_level_def)
section \<open>Properties\<close>

text \<open>C2: when \<^verbatim>\<open>init_pci\<close> returns, every block it wrote to a memory BAR lies inside the memory ranges
  of the root, starts at a multiple of its size, and overlaps no other block it wrote. Assumed: the
  frame allocators hand out free aligned blocks and the ranges of the root do not overlap.\<close>

theorem init_pci_bars_apart:
  assumes "init_pci E A32 A64 info s = (Inr root, t)" and "bars_law E"
    and "frame_law A32 f32" "frame_law A64 f64" and "ranges_apart (ranges info)"
  shows "\<exists>new. bar_blocks E (trace t) = new @ bar_blocks E (trace s) \<and>
    apart (map (\<lambda>(a, n). block a n) new) \<and>
    (\<forall>(a, n) \<in> set new. block a n \<subseteq> pool (ranges info) \<and> unat a mod unat n = 0)"
  using init_pci_inv [OF assms] unfolding bars_inv_def accounted_def by fastforce

lemma ex_ranges_apart: "ranges_apart (ranges ex_root)"
  by (simp add: ranges_apart_def ex_root_def is_memory_def ex_kind)

lemma ex_bars_law: "bars_law ex_pci_env"
  by (simp add: bars_law_def)

lemma ex_final_blocks:
  "bar_blocks ex_pci_env (trace ex_final) = [(0x10004000, 0x4000), (0x10000000, 0x1000)]"
  by (simp add: ex_final_def init_pci_def runs ex_root_def ex_new_run allocate_bars_def allocate_bar_def
      ex_allocations ex_io_state_def logs_def less_eq_level_def bar_blocks_def view_of_def bar_size_def)

theorem init_pci_bars_apart_witness:
  "bar_blocks ex_pci_env (trace ex_final) = [(0x10004000, 0x4000), (0x10000000, 0x1000)] \<and>
   block (0x10004000 :: u64) (0x4000 :: u64) \<inter> block (0x10000000 :: u64) (0x1000 :: u64) = {}"
  using init_pci_bars_apart [OF ex_init_pci_run ex_bars_law bump_frame_law bump_frame_law ex_ranges_apart]
    ex_final_blocks
  by (auto simp: ex_io_state_def)

text \<open>The calls on the PCI root that a trace holds, and the slot a BAR write goes to.\<close>

fun pci_events :: "event list \<Rightarrow> pci_event list" where
  "pci_events [] = []"
| "pci_events (Pci e # es) = e # pci_events es"
| "pci_events (_ # es) = pci_events es"

lemma pci_events_append [simp]: "pci_events (xs @ ys) = pci_events xs @ pci_events ys"
  by (induction xs rule: pci_events.induct) simp_all

fun bar_slot :: "pci_event \<Rightarrow> (u64 \<times> device_function \<times> u8 \<times> memory_bar_type) option" where
  "bar_slot (Set_bar_32 root df i a) = Some (root, df, i, Width32)"
| "bar_slot (Set_bar_64 root df i a) = Some (root, df, i, Width64)"
| "bar_slot _ = None"

fun memory_bars :: "nat \<Rightarrow> bar_info option list \<Rightarrow> (u8 \<times> memory_bar_type) list" where
  "memory_bars i [] = []"
| "memory_bars i (Some (Bar_memory ty pf a sz) # bs) =
     (if sz = 0 then memory_bars (Suc i) bs else (of_nat i, ty) # memory_bars (Suc i) bs)"
| "memory_bars i (_ # bs) = memory_bars (Suc i) bs"

lemma log_pci_events:
  assumes "log C lvl lit args s = (Inr u, t)"
  shows "pci_events (trace t) = pci_events (trace s)"
  using log_returned [OF assms] by auto

lemma bar_cases:
  obtains "b = None" | a n where "b = Some (Bar_io a n)" | ty pf a where "b = Some (Bar_memory ty pf a 0)"
    | pf a sz where "b = Some (Bar_memory Width32 pf a sz)" "sz \<noteq> 0"
    | pf a sz where "b = Some (Bar_memory Width64 pf a sz)" "sz \<noteq> 0"
    | pf a sz where "b = Some (Bar_memory Below1MiB pf a sz)" "sz \<noteq> 0"
proof (cases b)
  case (Some c)
  then show thesis
  proof (cases c)
    case (Bar_memory ty pf a sz)
    with Some that show thesis by (cases "sz = 0"; cases ty) auto
  qed (use Some that in auto)
qed (use that in auto)

lemma allocate_bar_events:
  assumes "allocate_bar E A32 A64 root df i b al s = (Inr al', t)"
  shows "\<exists>ws. pci_events (trace t) = pci_events (trace s) @ ws \<and>
    map bar_slot ws = map (\<lambda>(i, ty). Some (root, df, i, ty)) (memory_bars i [b])"
proof -
  from bar_cases [of b] show ?thesis
  proof cases
    case (4 pf a sz)
    with assms obtain s1 s2 x s3 where "log E Info ''BAR {bar_index}: {info}'' [A_nat i, bar_fmt (Bar_memory Width32 pf a sz)] s = (Inr (), s1)"
      and 2: "(if pf then log E Warn ''  32-bit BAR should not be marked prefetchable.'' [] else return_io ()) s1 = (Inr (), s2)"
      and "log E Info ''  allocated {allocation:#0x}'' [A_u32 x] s2 = (Inr (), s3)"
      and t: "t = s3\<lparr>trace := trace s3 @ [Pci (Set_bar_32 root df (of_nat i) x)]\<rparr>"
      by (auto simp: allocate_bar_def rets_bind rets_lift rets_return rets_emit)
    then have "pci_events (trace s3) = pci_events (trace s)"
      by (cases pf) (simp_all add: rets_return log_pci_events [of E _ _ _ s "()" s1]
        log_pci_events [of E _ _ _ s1 "()" s2] log_pci_events [of E _ _ _ s2 "()" s3])
    with t 4 show ?thesis by auto
  next
    case (5 pf a sz)
    with assms obtain s1 x s2 where "log E Info ''BAR {bar_index}: {info}'' [A_nat i, bar_fmt (Bar_memory Width64 pf a sz)] s = (Inr (), s1)"
      and "log E Info ''  allocated {allocation:#0x}'' [A_u64 x] s1 = (Inr (), s2)"
      and "t = s2\<lparr>trace := trace s2 @ [Pci (Set_bar_64 root df (of_nat i) x)]\<rparr>"
      by (auto simp: allocate_bar_def rets_bind rets_lift rets_return rets_emit)
    with 5 show ?thesis by (auto dest!: log_pci_events)
  qed (use assms in \<open>auto simp: allocate_bar_def rets_bind rets_lift rets_return rets_abort dest!: log_pci_events\<close>)
qed

lemma memory_bars_Cons: "memory_bars i (b # bs) = memory_bars i [b] @ memory_bars (Suc i) bs"
  by (induction i "b # bs" rule: memory_bars.induct) auto

lemma allocate_bar_list_events:
  assumes "allocate_bar_list E A32 A64 root df i bs al s = (Inr al', t)"
  shows "\<exists>ws. pci_events (trace t) = pci_events (trace s) @ ws \<and>
    map bar_slot ws = map (\<lambda>(i, ty). Some (root, df, i, ty)) (memory_bars i bs)"
  using assms
proof (induction bs arbitrary: i al s)
  case Nil
  then show ?case by (simp add: rets)
next
  case (Cons b bs)
  from Cons.prems obtain q u where q: "allocate_bar E A32 A64 root df i b al s = (Inr q, u)"
    and rest: "allocate_bar_list E A32 A64 root df (Suc i) bs q u = (Inr al', t)"
    by (auto simp: rets)
  from allocate_bar_events [OF q] Cons.IH [OF rest] obtain v w
    where "pci_events (trace u) = pci_events (trace s) @ v"
      "map bar_slot v = map (\<lambda>(i, ty). Some (root, df, i, ty)) (memory_bars i [b])"
      "pci_events (trace t) = pci_events (trace u) @ w"
      "map bar_slot w = map (\<lambda>(i, ty). Some (root, df, i, ty)) (memory_bars (Suc i) bs)"
    by blast
  then show ?case
    by (intro exI [of _ "v @ w"]) (subst memory_bars_Cons, simp)
qed

text \<open>C26: when \<^verbatim>\<open>allocate_bars\<close> returns, the calls it made on the root are: reading the BARs once,
  one write per memory BAR of nonzero size, in order, at its own index and with its own width, and
  last the command that enables the function.\<close>

theorem allocate_bars_writes:
  assumes "allocate_bars E A32 A64 root df al s = (Inr (r, al'), t)"
  shows "\<exists>bars ws. bars_reply E (trace s) root df = Inr bars \<and>
    pci_events (trace t) = pci_events (trace s) @ Pci_bars root df # ws @
      [Set_command root df (Command_IO_SPACE E OR Command_MEMORY_SPACE E OR Command_BUS_MASTER E)] \<and>
    map bar_slot ws = map (\<lambda>(i, ty). Some (root, df, i, ty)) (memory_bars 0 bars) \<and> r = Inr ()"
proof -
  let ?s = "s\<lparr>trace := trace s @ [Pci (Pci_bars root df)]\<rparr>"
  from assms obtain bars u where bars: "bars_reply E (trace s) root df = Inr bars" "r = Inr ()"
    and run: "allocate_bar_list E A32 A64 root df 0 bars al ?s = (Inr al', u)"
    and "trace t = trace u @ [Pci (Set_command root df
      (Command_IO_SPACE E OR Command_MEMORY_SPACE E OR Command_BUS_MASTER E))]"
    by (auto simp: allocate_bars_def rets)
  with allocate_bar_list_events [OF run] show ?thesis by auto
qed

definition ex_allocator :: "(nat \<times> nat, nat \<times> nat) pci_bar_allocator" where
  "ex_allocator = \<lparr>memory32 = (0x10000000, 0x11000000), memory64 = (0, 0), prefetchable_memory64 = (0, 0)\<rparr>"

definition ex_bars_run where
  "ex_bars_run = allocate_bars ex_pci_env bump_ops bump_ops 0x72000000 (0, 1, 0) ex_allocator ex_io_state"

lemma ex_bars_run_returns:
  "ex_bars_run = (Inr (Inr (), \<lparr>memory32 = (0x10008000, 0x11000000), memory64 = (0, 0),
     prefetchable_memory64 = (0, 0)\<rparr>), snd ex_bars_run)"
  by (simp add: ex_bars_run_def ex_allocator_def runs allocate_bars_def allocate_bar_def ex_allocations
      ex_io_state_def logs_def less_eq_level_def)

theorem allocate_bars_writes_witness:
  "\<exists>ws. pci_events (trace (snd ex_bars_run)) = Pci_bars 0x72000000 (0, 1, 0) # ws @
      [Set_command 0x72000000 (0, 1, 0) 7] \<and>
    map bar_slot ws = [Some (0x72000000, (0, 1, 0), 0, Width32), Some (0x72000000, (0, 1, 0), 2, Width64)]"
  using allocate_bars_writes [OF ex_bars_run_returns [unfolded ex_bars_run_def]]
  unfolding ex_bars_run_def
  by (simp add: ex_io_state_def) (simp add: ex_pci_env_def)

text \<open>C39: a range of the device tree is read as the PCI binding lays it out. Its flags have bit 31 clear for
  relocatable, bit 30 for prefetchable, bits 25 and 24 for the type; the type is always defined, so the panic
  for an invalid type is never reached. And the bus address and the flags that were packed into the child
  address are given back, beside the processor's address and the size.\<close>

theorem pci_range_decoded:
  "range_type f = Inr (if bit f 25 then if bit f 24 then Memory64 else Memory32
                       else if bit f 24 then IoSpace else ConfigurationSpace) \<and>
   (relocatable f \<longleftrightarrow> \<not> bit f 31) \<and> (prefetchable f \<longleftrightarrow> bit f 30) \<and>
   pci_range_from \<lparr>child_bus_address = Inr (child_address f bus), parent_bus_address = Inr cpu,
      range_length = Inr len\<rparr> =
   Inr \<lparr>cpu_physical = cpu, bus_address = bus, range_size = len, flags = f\<rparr>"
  by (simp add: range_type_bits flag_bits pci_range_from_def child_address_bus child_address_flags)

text \<open>C25: the memory ranges kept for a root cover exactly the addresses of its memory ranges that lie
  below the limit, each ends at or below the limit, and every other range is kept as it is.\<close>

theorem for_fdt_node_ranges:
  assumes "for_fdt_node E node cam limit s = (Inr info, t)"
  shows "\<exists>rs prs. node_ranges node = Inr (Some rs) \<and> map pci_range_from rs = map Inr prs \<and>
    pool (ranges info) = pool prs \<inter> {..<unat limit} \<and>
    (\<forall>r \<in> set (memory_ranges (ranges info)). unat (cpu_physical r) + unat (range_size r) \<le> unat limit) \<and>
    filter (\<lambda>r. \<not> is_memory (kind r)) (ranges info) = filter (\<lambda>r. \<not> is_memory (kind r)) prs"
proof -
  from assms obtain rs u xs where "node_ranges node = Inr (Some rs)"
    and run: "collect_ranges E limit rs u = (Inr xs, t)" and "ranges info = xs"
    by (auto simp: for_fdt_node_def rets simp del: rets_log_lazy)
  moreover from collect_ranges_returned [OF run] obtain prs
    where "map pci_range_from rs = map Inr prs" "xs = trimmed limit prs" by blast
  ultimately show ?thesis
    using trimmed_blocks [of limit prs] trimmed_other [of limit prs] trimmed_limit [of _ limit prs]
    by (auto simp: pool_def simp del: set_memory_ranges)
      (auto simp: pool_def)
qed

lemma add_range_total:
  assumes "console_ok E" and "CONSOLE_lock \<notin> set (held s)"
    and "is_memory (kind r) \<Longrightarrow> cpu_physical r = bus_address r \<and>
      unat (cpu_physical r) + unat (range_size r) < 2 ^ 64"
  shows "\<exists>al' t. add_range E A32 A64 r al s = (Inr al', t) \<and> held t = held s"
proof -
  have "wpre (add_range E A32 A64 r al) (\<lambda>_ t. held t = held s) (\<lambda>_ _. False) s"
    using assms
    by (cases "kind r") (auto simp: add_range_def wp range_type_kind is_memory_def checked_add_def
        require_def console_okD split: sum.split)
  then show ?thesis by (auto simp: wpre_returned)
qed

lemma add_ranges_total:
  assumes "console_ok E" and "CONSOLE_lock \<notin> set (held s)"
    and "\<forall>r \<in> set (memory_ranges rs). cpu_physical r = bus_address r \<and>
      unat (cpu_physical r) + unat (range_size r) < 2 ^ 64"
  shows "\<exists>al' t. add_ranges E A32 A64 rs al s = (Inr al', t)"
  using assms
proof (induction rs arbitrary: al s)
  case Nil
  then show ?case by (simp add: rets)
next
  case (Cons r rs)
  have "is_memory (kind r) \<Longrightarrow> cpu_physical r = bus_address r \<and>
      unat (cpu_physical r) + unat (range_size r) < 2 ^ 64"
    using Cons.prems(3) by auto
  from add_range_total [OF Cons.prems(1,2) this] obtain q t
    where q: "add_range E A32 A64 r al s = (Inr q, t)" and held: "held t = held s" by blast
  have "\<exists>al' u. add_ranges E A32 A64 rs q t = (Inr al', u)"
    using Cons.prems held by (intro Cons.IH) (auto split: if_splits)
  with q show ?case by (simp add: rets)
qed

text \<open>C27: on the ranges of a root as they are read from the device tree, the BAR allocator is built
  without a panic when bus addresses equal CPU addresses: the sums of an address and a size cannot
  overflow once the ranges are trimmed. Assumed: the console writes, and its lock is free.\<close>

theorem bar_allocator_new_total:
  assumes "for_fdt_node E node cam limit s = (Inr info, t)"
    and "\<forall>r \<in> set (memory_ranges (ranges info)). cpu_physical r = bus_address r"
    and "console_ok E" and "CONSOLE_lock \<notin> set (held u)"
  shows "\<exists>al v. bar_allocator_new E A32 A64 (ranges info) u = (Inr al, v)"
proof -
  from assms(1) obtain rs w where run: "collect_ranges E limit rs w = (Inr (ranges info), t)"
    by (auto simp: for_fdt_node_def rets simp del: rets_log_lazy)
  from collect_ranges_returned [OF run] obtain prs where "ranges info = trimmed limit prs" by blast
  moreover have "unat limit < 2 ^ 64" using unsigned_less [of limit] by simp
  ultimately have "unat (cpu_physical r) + unat (range_size r) < 2 ^ 64"
    if "r \<in> set (memory_ranges (ranges info))" for r
    using that trimmed_limit [of r limit prs] by auto
  with assms(2) show ?thesis
    unfolding bar_allocator_new_def by (intro add_ranges_total assms) blast
qed


lemma map_one_range_maps:
  assumes "mapping_law E translate"
  shows "wpre (map_one_range E m r)
    (\<lambda>_ u. mapping_law E translate \<and>
      translate (trace u) (idmap_level m) =
        (\<lambda>v. if is_memory (kind r) \<and> region_covers E (cpu_physical r) (cpu_physical r + range_size r) v
             then Some (v, device_attributes E m) else translate (trace s) (idmap_level m) v))
    (\<lambda>_ _. True) s"
proof -
  have "wpre (map_device_unwrap E m q)
      (\<lambda>_ t. mapping_law E translate \<and> translate (trace t) (idmap_level m) =
        (\<lambda>v. if in_region v q then Some (v, device_attributes E m) else translate (trace u) (idmap_level m) v))
      (\<lambda>_ _. True) u" for q u
    by (rule dev.map_op [OF assms])
  from this [of _ s] this [of _ "s\<lparr>trace := trace s @ [Con _]\<rparr>"] show ?thesis
    using assms
    by (auto simp: map_one_range_def wp range_type_kind memory_region_def checked_add_def region_covers_def
        mapping_law_con [OF assms] split: sum.split cong: if_cong)
qed

text \<open>The addresses that mapping the ranges of a root covers: those of its memory ranges, rounded to pages.\<close>

definition range_covers :: "'e pci_env_scheme \<Rightarrow> pci_root_info \<Rightarrow> u64 \<Rightarrow> bool" where
  "range_covers E info v \<longleftrightarrow>
     (\<exists>r \<in> set (ranges info). is_memory (kind r) \<and>
        region_covers E (cpu_physical r) (cpu_physical r + range_size r) v)"

lemma map_ranges_maps:
  assumes "mapping_law E translate"
  shows "wpre (map_ranges E m info)
    (\<lambda>_ t. mapping_law E translate \<and> translate (trace t) (idmap_level m) =
        (\<lambda>v. if range_covers E info v then Some (v, device_attributes E m)
             else translate (trace s) (idmap_level m) v)) (\<lambda>_ _. True) s"
  unfolding map_ranges_def range_covers_def by (rule dev.map_all [OF assms]) (rule map_one_range_maps)

text \<open>What \<^verbatim>\<open>map_ranges\<close> has mapped it has had a region for.\<close>

lemma map_ranges_regions:
  fixes s :: "'s io_state_scheme"
  assumes "map_ranges E m info s = (Inr u, t)" and "r \<in> set (ranges info)" and "is_memory (kind r)"
  shows "\<exists>q. MemoryRegion_new E (cpu_physical r) (cpu_physical r + range_size r) = Inr q"
proof -
  from for_each_returned [OF assms(1) [unfolded map_ranges_def] assms(2)] obtain s' t' :: "'s io_state_scheme" and v
    where "map_one_range E m r s' = (Inr v, t')" by blast
  with assms(3) show ?thesis
    by (auto simp: map_one_range_def rets_bind rets_lift range_type_kind memory_region_def checked_add_def split: if_splits)
qed

lemma pool_covered:
  assumes "region_law E" and "unat v \<in> pool (ranges info)"
    and "\<forall>r \<in> set (memory_ranges (ranges info)). unat (cpu_physical r) + unat (range_size r) < 2 ^ 64"
    and "\<And>r. r \<in> set (ranges info) \<Longrightarrow> is_memory (kind r) \<Longrightarrow>
      \<exists>q. MemoryRegion_new E (cpu_physical r) (cpu_physical r + range_size r) = Inr q"
  shows "range_covers E info v"
proof -
  obtain r where r: "r \<in> set (ranges info)" "is_memory (kind r)" "unat v \<in> range_block r"
    using assms(2) by (auto simp: pool_def)
  then have "cpu_physical r \<le> v \<and> v < cpu_physical r + range_size r"
    using assms(3)
    by (auto simp: range_block_def block_def word_le_nat_alt word_less_nat_alt unat_word_ariths)
  moreover obtain q where "MemoryRegion_new E (cpu_physical r) (cpu_physical r + range_size r) = Inr q"
    using assms(4) r by blast
  ultimately show ?thesis using assms(1) r by (auto simp: region_law_def range_covers_def region_covers_def)
qed

text \<open>After \<^verbatim>\<open>map_ranges\<close> returns, every address of a memory range of the root is mapped to itself as
  device memory. Assumed: \<^verbatim>\<open>map_range\<close> and \<^verbatim>\<open>MemoryRegion::new\<close> do what the crate documents.\<close>

lemma map_ranges_identity:
  assumes "map_ranges E m info s = (Inr u, t)" and "mapping_law E translate" and "region_law E"
    and "unat v \<in> pool (ranges info)"
    and "\<forall>r \<in> set (memory_ranges (ranges info)). unat (cpu_physical r) + unat (range_size r) < 2 ^ 64"
  shows "translate (trace t) (idmap_level m) v = Some (v, device_attributes E m)"
  using wpre_runs [OF map_ranges_maps [OF assms(2)] assms(1)] pool_covered [OF assms(3-5) map_ranges_regions [OF assms(1)]] by simp

definition ex_pci_node :: fdt_node where
  "ex_pci_node = Fdt_node ''pci'' (Some [PCI_COMPATIBLE])
     (Inr (Some [\<lparr>reg_address = Inr 0x72000000, reg_size = Inr 0x1000000\<rparr>]))
     (Inr (Some [\<lparr>child_bus_address = Inr (child_address 0x02000000 0x10000000),
        parent_bus_address = Inr 0x10000000, range_length = Inr 0x1000000\<rparr>])) (\<lambda>_. None) []"

definition ex_trimmed :: pci_root_info where
  "ex_trimmed = \<lparr>root_cam = MmioCam, mmio_base = 0x72000000, ranges = [ex_range\<lparr>range_size := 0x800000\<rparr>]\<rparr>"

definition ex_node_state :: io_state where
  "ex_node_state = snd (for_fdt_node ex_pci_env ex_pci_node MmioCam 0x10800000 ex_io_state)"

lemma ex_for_fdt_node:
  "for_fdt_node ex_pci_env ex_pci_node MmioCam 0x10800000 ex_io_state = (Inr ex_trimmed, ex_node_state)"
proof -
  have "range_type 0x02000000 = Inr Memory32"
    by (simp add: range_type_def range_type_from_def)
  moreover have "ucast (cam_size ex_pci_env MmioCam) = (0x1000000 :: u64)"
    by (simp add: ex_pci_env_def)
  ultimately show ?thesis
    by (simp add: ex_node_state_def for_fdt_node_def ex_pci_node_def runs ex_io_state_def logs_def
        less_eq_level_def checked_add_def checked_sub_def pci_range_from_def child_address_bus child_address_flags
        pci_range_fmt_def flags_fmt_def is_memory_def ex_trimmed_def ex_range_def)
qed

lemma ex_pool: "pool [ex_range] = {0x10000000 ..< 0x11000000}"
  by (simp add: ex_kind is_memory_def range_block_def block_def) (simp add: ex_range_def)

lemma ex_child: "pci_range_from \<lparr>child_bus_address = Inr (child_address 0x02000000 0x10000000),
        parent_bus_address = Inr 0x10000000, range_length = Inr 0x1000000\<rparr> = Inr ex_range"
  by (simp add: pci_range_from_def child_address_bus child_address_flags ex_range_def)

theorem for_fdt_node_ranges_witness:
  "pool (ranges ex_trimmed) = {0x10000000 ..< 0x10800000}"
proof -
  from for_fdt_node_ranges [OF ex_for_fdt_node]
  have "pool (ranges ex_trimmed) = pool [ex_range] \<inter> {..<unat (0x10800000 :: usize)}"
    by (auto simp: ex_pci_node_def ex_child simp del: pool_simps)
  moreover have "{m ..< n} \<inter> {..<k} = {m ..< min n k}" for m n k :: nat by auto
  ultimately show ?thesis by (simp add: ex_pool del: pool_simps)
qed

theorem bar_allocator_new_total_witness:
  "\<exists>al v. bar_allocator_new ex_pci_env bump_ops bump_ops (ranges ex_trimmed) ex_io_state = (Inr al, v)"
  by (rule bar_allocator_new_total [OF ex_for_fdt_node])
    (simp_all add: ex_trimmed_def ex_range_def console_ok_def ex_io_state_def)

definition ex_map_state :: io_state where
  "ex_map_state = snd (map_ranges ex_pci_env IdMap_El1 ex_root ex_io_state)"

lemma ex_map_ranges:
  "map_ranges ex_pci_env IdMap_El1 ex_root ex_io_state = (Inr (), ex_map_state)"
proof -
  have "MemoryRegion_new ex_pci_env a b = Inr \<lparr>mr_start = a, mr_end = b\<rparr>"
    "map_range_reply ex_pci_env h ev = Inr ()" for a b h ev
    by (simp_all add: ex_pci_env_def)
  then show ?thesis
    by (simp add: ex_map_state_def map_ranges_def map_one_range_def ex_root_def runs ex_kind is_memory_def
        memory_region_def map_device_unwrap_def map_device_eq map_range_def)
     (simp add: ex_range_def checked_add_def runs ex_io_state_def logs_def less_eq_level_def)
qed

lemma ex_region_law: "region_law ex_pci_env"
  by (simp add: region_law_def in_region_def ex_pci_env_def)

lemma map_ranges_ex:
  "table_of (trace ex_map_state) 1 0x10abc000 = Some (0x10abc000, device_attributes ex_pci_env IdMap_El1)"
proof -
  have "unat (0x10abc000 :: u64) \<in> pool (ranges ex_root)"
    by (simp add: ex_root_def ex_pool del: pool_simps)
  from map_ranges_identity [OF ex_map_ranges table_of_law ex_region_law this] show ?thesis
    by (simp add: ex_root_def ex_range_def)
qed

text \<open>C40: where a 64-bit range goes. A range whose addresses on bus and CPU agree and whose end does not overflow is
  added, from its start to its end, to the 32-bit pool exactly if it ends below the last byte of the 32-bit address
  space, and otherwise to one of the 64-bit pools, according to whether it is prefetchable; nothing else changes. So a
  range that ends exactly at 4 GiB, or one byte before, is not given to the 32-bit pool although it lies entirely in
  the 32-bit address space.\<close>

theorem add_range_4gib:
  assumes "range_type (flags r) = Inr Memory64" and "cpu_physical r = bus_address r"
    and "unat (bus_address r) + unat (range_size r) < 2 ^ 64"
  shows "add_range E A32 A64 r al s =
      (Inr (if unat (bus_address r) + unat (range_size r) < 2 ^ 32 - 1
            then al\<lparr>memory32 := fa_add_frame A32 (bus_address r) (bus_address r + range_size r) (memory32 al)\<rparr>
            else if prefetchable (flags r)
            then al\<lparr>prefetchable_memory64 :=
              fa_add_frame A64 (bus_address r) (bus_address r + range_size r) (prefetchable_memory64 al)\<rparr>
            else al\<lparr>memory64 := fa_add_frame A64 (bus_address r) (bus_address r + range_size r) (memory64 al)\<rparr>), s) \<and>
    (unat (bus_address r) + unat (range_size r) \<in> {2 ^ 32 - 1, 2 ^ 32} \<longrightarrow>
      range_block r \<subseteq> {..< 2 ^ 32} \<and> memory32 (projr (fst (add_range E A32 A64 r al s))) = memory32 al)"
proof -
  have u: "unat (bus_address r + range_size r) = unat (bus_address r) + unat (range_size r)"
    using assms(3) by (simp add: unat_word_ariths)
  have "bus_address r + range_size r < u32_MAX \<longleftrightarrow> unat (bus_address r) + unat (range_size r) < 2 ^ 32 - 1"
    by (simp add: word_less_nat_alt u u32_MAX_def)
  with assms have run: "add_range E A32 A64 r al s =
      (Inr (if unat (bus_address r) + unat (range_size r) < 2 ^ 32 - 1
            then al\<lparr>memory32 := fa_add_frame A32 (bus_address r) (bus_address r + range_size r) (memory32 al)\<rparr>
            else if prefetchable (flags r)
            then al\<lparr>prefetchable_memory64 :=
              fa_add_frame A64 (bus_address r) (bus_address r + range_size r) (prefetchable_memory64 al)\<rparr>
            else al\<lparr>memory64 := fa_add_frame A64 (bus_address r) (bus_address r + range_size r) (memory64 al)\<rparr>), s)"
    by (simp add: add_range_def runs checked_add_def)
  moreover have "range_block r \<subseteq> {..< 2 ^ 32}" if "unat (bus_address r) + unat (range_size r) \<in> {2 ^ 32 - 1, 2 ^ 32}"
    using that assms(2) by (auto simp: range_block_def block_def)
  ultimately show ?thesis by auto
qed

definition ex_4gib :: pci_range where
  "ex_4gib = \<lparr>cpu_physical = 0xC0000000, bus_address = 0xC0000000, range_size = 0x40000000, flags = 0x43000000\<rparr>"

theorem add_range_4gib_witness:
  "fst (add_range ex_pci_env bump_ops bump_ops ex_4gib
       \<lparr>memory32 = (0, 0), memory64 = (0, 0), prefetchable_memory64 = (0, 0)\<rparr> ex_io_state) =
     Inr \<lparr>memory32 = (0, 0), memory64 = (0, 0), prefetchable_memory64 = bump_add 0xC0000000 0x100000000 (0, 0)\<rparr> \<and>
   range_block ex_4gib \<subseteq> {..< 2 ^ 32}"
proof -
  have "range_type (flags ex_4gib) = Inr Memory64" "prefetchable (flags ex_4gib)"
    by (simp_all add: ex_4gib_def range_type_def range_type_from_def prefetchable_def)
  with add_range_4gib [of ex_4gib ex_pci_env bump_ops bump_ops
    "\<lparr>memory32 = (0, 0), memory64 = (0, 0), prefetchable_memory64 = (0, 0)\<rparr>" ex_io_state] show ?thesis
    by (simp add: ex_4gib_def bump_ops_def)
qed

end
