(* ===== verification/Boot.thy ===== *)
theory Boot
  imports Shell Pci_Bars
begin

text \<open>
  main.rs: mapping what the device tree describes, and the sequence of \<^verbatim>\<open>main\<close> from the first line on the
  console to powering off. The body of \<^verbatim>\<open>main\<close> is cut into four phases, in the order of the code.
\<close>

section \<open>Mapping the device tree\<close>

definition LOG_LEVEL :: level where
  "LOG_LEVEL = Debug"

text \<open>The loop over the regions of the memory node.\<close>

definition map_fdt_memory_region ::
  "'e pt_env_scheme \<Rightarrow> idmap \<Rightarrow> fdt_reg \<Rightarrow> ('s io_state_scheme, unit) io" where
  "map_fdt_memory_region E m fdt_region =
     bind_io (lift_io (fdt_to_pagetable_region (MemoryRegion_new E) fdt_region)) (\<lambda>region.
     bind_io (lift_io (unwrap (reg_size fdt_region))) (\<lambda>size.
     bind_io (log E Info ''Mapping memory region {:?} from FDT ({} MiB)...''
       [A_region region, A_u64 (size div (1024 * 1024))]) (\<lambda>_.
     map_memory_unwrap E m region)))"

definition DEVICE_COMPATIBLE :: "string list" where
  "DEVICE_COMPATIBLE = [
     PCI_COMPATIBLE,
     PCIE_COMPATIBLE,
     ''arm,gic-v3'',
     ''arm,gic-v3-its'',
     ''arm,pl011'',
     ''arm,pl031'',
     ''arm,pl061'',
     ''arm,primecell'',
     ''ns16550a'',
     ''virtio,mmio'']"

text \<open>The loop over the regions of a device.\<close>

definition map_fdt_device_region ::
  "'e pt_env_scheme \<Rightarrow> idmap \<Rightarrow> fdt_node \<Rightarrow> fdt_reg \<Rightarrow> ('s io_state_scheme, unit) io" where
  "map_fdt_device_region E m node fdt_region =
     bind_io (lift_io (fdt_to_pagetable_region (MemoryRegion_new E) fdt_region)) (\<lambda>region.
     bind_io (log_lazy E Info ''Mappping {} for {}, compatible={}''
       (rbind (unwrap_opt (node_compatible node)) (\<lambda>compatible.
        rbind (unwrap_opt (next_opt compatible)) (\<lambda>c.
        Inr [A_region region, A_str (node_name node), A_str c])))) (\<lambda>_.
     map_device_unwrap E m region))"

text \<open>The part of \<^verbatim>\<open>map_fdt_node_regions\<close> before the loop over the children.\<close>

definition map_fdt_node ::
  "'e pt_env_scheme \<Rightarrow> idmap \<Rightarrow> fdt_node \<Rightarrow> ('s io_state_scheme, unit) io" where
  "map_fdt_node E m node =
     (if is_compatible node DEVICE_COMPATIBLE then
        bind_io (lift_io (rbind (unwrap (node_reg node)) unwrap_opt)) (\<lambda>reg.
        for_each reg (map_fdt_device_region E m node))
      else
        case node_compatible node of
          Some compatible \<Rightarrow>
            log_lazy E Info ''Ignoring {}, compatible={}''
              (rbind (unwrap_opt (next_opt compatible)) (\<lambda>c. Inr [A_str (node_name node), A_str c]))
        | None \<Rightarrow> log E Info ''Ignoring {}'' [A_str (node_name node)])"

fun map_fdt_node_regions ::
    "'e pt_env_scheme \<Rightarrow> idmap \<Rightarrow> fdt_node \<Rightarrow> ('s io_state_scheme, unit) io"
  and map_fdt_nodes ::
    "'e pt_env_scheme \<Rightarrow> idmap \<Rightarrow> fdt_node list \<Rightarrow> ('s io_state_scheme, unit) io" where
  "map_fdt_node_regions E m (Fdt_node name compatible reg rngs prop children) =
     bind_io (map_fdt_node E m (Fdt_node name compatible reg rngs prop children)) (\<lambda>_.
     map_fdt_nodes E m children)"
| "map_fdt_nodes E m [] = return_io ()"
| "map_fdt_nodes E m (child # children) =
     bind_io (map_fdt_node_regions E m child) (\<lambda>_.
     map_fdt_nodes E m children)"

definition map_fdt_regions ::
  "'e pt_env_scheme \<Rightarrow> fdt \<Rightarrow> idmap \<Rightarrow> ('s io_state_scheme, unit) io" where
  "map_fdt_regions E fdt m =
     bind_io (lift_io (unwrap (fdt_memory_reg fdt))) (\<lambda>r.
     bind_io (lift_io (rbind (unwrap r) unwrap_opt)) (\<lambda>reg.
     bind_io (for_each reg (map_fdt_memory_region E m)) (\<lambda>_.
     map_fdt_node_regions E m (fdt_root fdt))))"

section \<open>The phases of main\<close>

text \<open>What is fixed before the program runs: page size, the addresses of the two static heaps, and what the
  device tree parser makes of an address.\<close>

record boot_ops =
  PAGE_SIZE :: usize
  HEAP_address :: u64
  PAGE_HEAP_address :: u64
  fdt_from_raw :: "u64 \<Rightarrow> fdt_error + fdt"
  fdt_data_len :: "u64 \<Rightarrow> nat"
  fdt_reservations :: "u64 \<Rightarrow> nat"

definition PAGE_HEAP_SIZE :: "boot_ops \<Rightarrow> usize" where
  "PAGE_HEAP_SIZE B = 10 * PAGE_SIZE B"

definition HEAP_SIZE :: "boot_ops \<Rightarrow> usize" where
  "HEAP_SIZE B = 40 * PAGE_SIZE B"

text \<open>Up to \<^verbatim>\<open>FDT.call_once\<close>: the console, the log and the device tree. The first line is written before the
  console is shared, so without its lock. The clock is what remains of the platform's parts.\<close>

definition main_console ::
  "'e irq_env_scheme \<Rightarrow> boot_ops \<Rightarrow> board \<Rightarrow> u64 \<Rightarrow> ('s boot_state_scheme, fdt \<times> u64) io" where
  "main_console E B b x0 =
     bind_io (platform_create E b) (\<lambda>platform.
     bind_io (lift_io (unwrap_opt (fst (parts platform)))) (\<lambda>parts.
     bind_io (call (\<lambda>h. write_reply E h (Con_fmt ''DemoOS starting at EL{}...'' [A_nat (unat (current_el E))]))
       (Con (Con_fmt ''DemoOS starting at EL{}...'' [A_nat (unat (current_el E))]))) (\<lambda>r.
     bind_io (lift_io (unwrap r)) (\<lambda>_.
     bind_io console_init (\<lambda>_.
     bind_io (logger_init LOG_LEVEL) (\<lambda>r.
     bind_io (lift_io (unwrap r)) (\<lambda>_.
     bind_io (log E Info ''FDT address: {fdt_address:?}'' [A_u64 x0]) (\<lambda>_.
     bind_io (lift_io (unwrap (fdt_from_raw B x0))) (\<lambda>fdt.
     bind_io (log E Info ''FDT size: {} bytes'' [A_nat (fdt_data_len B x0)]) (\<lambda>_.
     bind_io (log E Debug ''FDT: {fdt}'' []) (\<lambda>_.
     bind_io (for_each [0 ..< fdt_reservations B x0] (\<lambda>i.
       log E Info ''Reserved memory: {reserved:?}'' [A_token i])) (\<lambda>_.
     bind_io (fdt_call_once fdt) (\<lambda>_.
     return_io (fdt, part_rtc parts))))))))))))))"

text \<open>\<^verbatim>\<open>SpinMutexGuard::leak(X.try_lock().unwrap())\<close>: the lock is never given back.\<close>

definition leak_lock :: "lock \<Rightarrow> ('s io_state_scheme, unit) io" where
  "leak_lock l =
     bind_io (gets_io (\<lambda>s. l \<in> set (held s))) (\<lambda>taken.
     bind_io (lift_io (require Unwrap_none (\<not> taken))) (\<lambda>_.
     acquire l))"

text \<open>The calls of \<^verbatim>\<open>add_to_heap\<close>, in the order their arguments are evaluated.\<close>

definition add_to_heap :: "mem_event \<Rightarrow> ('s io_state_scheme, unit) io" where
  "add_to_heap ev = emit (Mem ev)"

definition init_heap :: "boot_ops \<Rightarrow> ('s io_state_scheme, unit) io" where
  "init_heap B =
     with_lock HEAP_ALLOCATOR_lock (
       bind_io (leak_lock HEAP_lock) (\<lambda>_.
       add_to_heap (Global_heap_init (HEAP_address B) (HEAP_SIZE B))))"

text \<open>Up to \<^verbatim>\<open>PAGETABLE.call_once\<close>: heaps, page table, PCI ranges.\<close>

definition main_pagetable ::
  "'e pci_env_scheme \<Rightarrow> boot_ops \<Rightarrow> fdt \<Rightarrow> (('h, 's) pt_state_scheme, pci_root_info list) io" where
  "main_pagetable E B fdt =
     bind_io (init_heap B) (\<lambda>_.
     bind_io (log E Info ''Initialising page table...'' []) (\<lambda>_.
     bind_io (leak_lock PAGE_HEAP_lock) (\<lambda>_.
     bind_io (add_to_heap (Page_heap_init (PAGE_HEAP_address B) (PAGE_HEAP_SIZE B))) (\<lambda>_.
     bind_io (idmap_new E) (\<lambda>idmap.
     bind_io (log E Info ''IdMap size is {} GiB'' [A_u64 (idmap_size E idmap div (1024 * 1024 * 1024))]) (\<lambda>_.
     bind_io (map_fdt_regions E fdt idmap) (\<lambda>_.
     bind_io (find_pci_roots E fdt (idmap_size E idmap)) (\<lambda>pci_roots_info.
     bind_io (for_each pci_roots_info (map_ranges E idmap)) (\<lambda>_.
     bind_io (log E Debug ''Page table: {idmap:?}'' []) (\<lambda>_.
     bind_io (log E Info ''Activating page table...'' []) (\<lambda>_.
     bind_io (activate idmap) (\<lambda>_.
     bind_io (pagetable_call_once idmap) (\<lambda>_.
     return_io pci_roots_info)))))))))))))"

fun find_devices_on ::
  "'e pci_env_scheme \<Rightarrow> virtio_ops \<Rightarrow> u64 list \<Rightarrow> devices \<Rightarrow> ('s io_state_scheme, devices) io" where
  "find_devices_on E V [] d = return_io d"
| "find_devices_on E V (root # roots) d =
     bind_io (find_virtio_pci_devices E V root d) (\<lambda>d'.
     find_devices_on E V roots d')"

text \<open>Up to the shell: interrupt controller, devices, PCI roots.\<close>

definition main_devices ::
  "'e pci_env_scheme \<Rightarrow> virtio_ops \<Rightarrow> 'a frame_ops \<Rightarrow> 'b frame_ops \<Rightarrow> board \<Rightarrow> fdt \<Rightarrow> u64 \<Rightarrow> pci_root_info list \<Rightarrow>
   ((irq_handler, 's) irq_state_scheme, devices \<times> u64 list) io" where
  "main_devices E V A32 A64 b fdt rtc pci_roots_info =
     bind_io (log E Info ''Initialising GIC...'' []) (\<lambda>_.
     bind_io (init_gic E (setup_gic E b) fdt) (\<lambda>_.
     bind_io (find_virtio_mmio_devices E V fdt (devices_new rtc)) (\<lambda>devices.
     bind_io (map_io (init_pci E A32 A64) pci_roots_info) (\<lambda>pci_roots.
     bind_io (find_devices_on E V pci_roots devices) (\<lambda>devices'.
     return_io (devices', pci_roots))))))"

definition os_main ::
  "'e pci_env_scheme \<Rightarrow> boot_ops \<Rightarrow> shell_args \<Rightarrow> 'a frame_ops \<Rightarrow> 'b frame_ops \<Rightarrow>
   ((irq_handler, 's) sec_state_scheme, unit) io \<Rightarrow> nat \<Rightarrow> u64 \<Rightarrow> ((irq_handler, 's) sec_state_scheme, 'r) io" where
  "os_main E B A A32 A64 irqs n x0 =
     bind_io (main_console E B (arg_board A) x0) (\<lambda>(fdt, rtc).
     bind_io (main_pagetable E B fdt) (\<lambda>pci_roots_info.
     bind_io (main_devices E (arg_virtio A) A32 A64 (arg_board A) fdt rtc pci_roots_info) (\<lambda>(devices, pci_roots).
     bind_io (shell_main E (A\<lparr>arg_roots := pci_roots, arg_devices := devices, arg_fdt := fdt\<rparr>) irqs n) (\<lambda>_.
     bind_io (log E Info ''Powering off.'' []) (\<lambda>_.
     power_off E)))))"

section \<open>The mapped regions\<close>

text \<open>A node and everything below it.\<close>

fun subtree :: "fdt_node \<Rightarrow> fdt_node list" where
  "subtree (Fdt_node name compatible reg rngs prop children) =
     Fdt_node name compatible reg rngs prop children # concat (map subtree children)"

definition reg_covers :: "'e pt_env_scheme \<Rightarrow> fdt_reg \<Rightarrow> u64 \<Rightarrow> bool" where
  "reg_covers E r v \<longleftrightarrow>
     (\<exists>a n. reg_address r = Inr a \<and> reg_size r = Inr n \<and> region_covers E a (a + n) v)"

definition device_covers :: "'e pt_env_scheme \<Rightarrow> fdt_node \<Rightarrow> u64 \<Rightarrow> bool" where
  "device_covers E node v \<longleftrightarrow>
     is_compatible node DEVICE_COMPATIBLE \<and>
     (\<exists>reg. node_reg node = Inr (Some reg) \<and> (\<exists>r \<in> set reg. reg_covers E r v))"

lemma reg_covers_region: "fdt_to_pagetable_region (MemoryRegion_new E) r = Inr q \<Longrightarrow> reg_covers E r v \<longleftrightarrow> in_region v q"
  by (auto simp: fdt_to_pagetable_region_eq_Inr reg_covers_def region_covers_def)

lemma map_fdt_memory_region_maps:
  assumes "mapping_law E translate"
  shows "wpre (map_fdt_memory_region E m r)
    (\<lambda>_ u. mapping_law E translate \<and> translate (trace u) (idmap_level m) =
        (\<lambda>v. if reg_covers E r v then Some (v, memory_attributes E m) else translate (trace s) (idmap_level m) v))
    (\<lambda>_ _. True) s"
proof -
  have "wpre (map_memory_unwrap E m q)
      (\<lambda>_ t. mapping_law E translate \<and> translate (trace t) (idmap_level m) =
        (\<lambda>v. if in_region v q then Some (v, memory_attributes E m) else translate (trace u) (idmap_level m) v))
      (\<lambda>_ _. True) u" for q u
    by (rule mem.map_op [OF assms])
  from this [of _ s] this [of _ "s\<lparr>trace := trace s @ [Con _]\<rparr>"] show ?thesis
    using assms
    by (auto simp: map_fdt_memory_region_def wp reg_covers_region
        mapping_law_con [OF assms] split: sum.split cong: if_cong)
qed


lemma map_fdt_device_region_maps:
  assumes "mapping_law E translate"
  shows "wpre (map_fdt_device_region E m node r)
    (\<lambda>_ u. mapping_law E translate \<and> translate (trace u) (idmap_level m) =
        (\<lambda>v. if reg_covers E r v then Some (v, device_attributes E m) else translate (trace s) (idmap_level m) v))
    (\<lambda>_ _. True) s"
proof -
  have "wpre (map_device_unwrap E m q)
      (\<lambda>_ t. mapping_law E translate \<and> translate (trace t) (idmap_level m) =
        (\<lambda>v. if in_region v q then Some (v, device_attributes E m) else translate (trace u) (idmap_level m) v))
      (\<lambda>_ _. True) u" for q u
    by (rule dev.map_op [OF assms])
  from this [of _ s] this [of _ "s\<lparr>trace := trace s @ [Con _]\<rparr>"] show ?thesis
    using assms
    by (auto simp: map_fdt_device_region_def wp reg_covers_region
        mapping_law_con [OF assms] split: sum.split cong: if_cong)
qed

lemma map_fdt_node_maps:
  assumes "mapping_law E translate"
  shows "wpre (map_fdt_node E m node)
    (\<lambda>_ u. mapping_law E translate \<and> translate (trace u) (idmap_level m) =
        (\<lambda>v. if device_covers E node v then Some (v, device_attributes E m) else translate (trace s) (idmap_level m) v))
    (\<lambda>_ _. True) s"
proof (cases "is_compatible node DEVICE_COMPATIBLE")
  case True
  have "wpre (for_each reg (map_fdt_device_region E m node))
      (\<lambda>_ u. mapping_law E translate \<and> translate (trace u) (idmap_level m) =
        (\<lambda>v. if \<exists>r \<in> set reg. reg_covers E r v then Some (v, device_attributes E m) else translate (trace s) (idmap_level m) v))
      (\<lambda>_ _. True) s" for reg
    by (rule dev.map_all [OF assms]) (rule map_fdt_device_region_maps)
  with True show ?thesis
    by (auto simp: map_fdt_node_def wp device_covers_def split: sum.split)
next
  case False
  then have "\<not> device_covers E node v" for v by (simp add: device_covers_def)
  with False assms show ?thesis
    by (auto simp: map_fdt_node_def wp mapping_law_con [OF assms] split: option.split sum.split)
qed

lemma map_fdt_nodes_loop: "map_fdt_nodes E m nodes = for_each nodes (map_fdt_node_regions E m)"
  by (induction nodes) simp_all

lemma map_fdt_tree_maps:
  fixes s :: "'s io_state_scheme"
  assumes "mapping_law E translate"
  shows "wpre (map_fdt_node_regions E m node)
      (\<lambda>_ u. mapping_law E translate \<and> translate (trace u) (idmap_level m) =
        (\<lambda>v. if \<exists>n \<in> set (subtree node). device_covers E n v then Some (v, device_attributes E m)
             else translate (trace s) (idmap_level m) v)) (\<lambda>_ _. True) s"
proof (induction node arbitrary: s)
  case (Fdt_node name compatible reg rngs pr children)
  let ?node = "Fdt_node name compatible reg rngs pr children"
  have below: "wpre (map_fdt_nodes E m children)
      (\<lambda>_ u. mapping_law E translate \<and> translate (trace u) (idmap_level m) =
        (\<lambda>v. if \<exists>c \<in> set children. \<exists>n \<in> set (subtree c). device_covers E n v then Some (v, device_attributes E m)
             else translate (trace t) (idmap_level m) v)) (\<lambda>_ _. True) t" for t :: "'s io_state_scheme"
    unfolding map_fdt_nodes_loop by (rule dev.map_all [OF assms]) (rule Fdt_node.IH)
  show ?case
    unfolding map_fdt_node_regions.simps wpre_bind
  proof (rule wpre_mono [OF map_fdt_node_maps [OF assms, of m ?node s]])
    fix u and t :: "'s io_state_scheme"
    assume h: "mapping_law E translate \<and> translate (trace t) (idmap_level m) =
        (\<lambda>v. if device_covers E ?node v then Some (v, device_attributes E m) else translate (trace s) (idmap_level m) v)"
    show "wpre (map_fdt_nodes E m children)
      (\<lambda>_ u. mapping_law E translate \<and> translate (trace u) (idmap_level m) =
        (\<lambda>v. if \<exists>n \<in> set (subtree ?node). device_covers E n v then Some (v, device_attributes E m)
             else translate (trace s) (idmap_level m) v)) (\<lambda>_ _. True) t"
      by (rule wpre_mono [OF below]) (use h in \<open>auto simp: fun_eq_iff\<close>)
  qed simp
qed

lemma map_fdt_regions_maps:
  assumes "mapping_law E translate" and "map_fdt_regions E fdt m s = (Inr u, t)"
  shows "\<exists>reg. fdt_memory_reg fdt = Inr (Inr (Some reg)) \<and>
    translate (trace t) (idmap_level m) =
      (\<lambda>v. if \<exists>n \<in> set (subtree (fdt_root fdt)). device_covers E n v then Some (v, device_attributes E m)
           else if \<exists>r \<in> set reg. reg_covers E r v then Some (v, memory_attributes E m)
           else translate (trace s) (idmap_level m) v)"
proof -
  from assms(2) obtain reg s1 where reg: "fdt_memory_reg fdt = Inr (Inr (Some reg))"
    and 1: "for_each reg (map_fdt_memory_region E m) s = (Inr (), s1)"
    and 2: "map_fdt_node_regions E m (fdt_root fdt) s1 = (Inr u, t)"
    by (auto simp: map_fdt_regions_def rets_bind rets_lift)
  have "wpre (for_each reg (map_fdt_memory_region E m))
      (\<lambda>_ u. mapping_law E translate \<and> translate (trace u) (idmap_level m) =
        (\<lambda>v. if \<exists>r \<in> set reg. reg_covers E r v then Some (v, memory_attributes E m) else translate (trace s) (idmap_level m) v))
      (\<lambda>_ _. True) s"
    by (rule mem.map_all [OF assms(1)]) (rule map_fdt_memory_region_maps)
  from wpre_runs [OF this 1] wpre_runs [OF map_fdt_tree_maps [OF assms(1)] 2] reg show ?thesis
    by (auto simp: fun_eq_iff)
qed

section \<open>What booting leaves alone\<close>

text \<open>The calls that change neither a translation nor a BAR.\<close>

fun calm :: "event \<Rightarrow> bool" where
  "calm (Pt (Map_range el r pa attrs)) = False"
| "calm (Pci (Set_bar_32 root df i a)) = False"
| "calm (Pci (Set_bar_64 root df i b)) = False"
| "calm _ = True"

text \<open>A part of the state while devices are found, while BARs are set, while memory is mapped and, if it does not
  include the locks, while the page table is built.\<close>

locale find_view = scoped_view P F for P :: "event \<Rightarrow> bool" and F :: "'s io_state_scheme \<Rightarrow> 'x" +
  assumes P_calm: "calm e \<Longrightarrow> P e"
begin

lemma field_kept: "returns (stays P F) m \<Longrightarrow> m s = (Inr x, t) \<Longrightarrow> F t = F s"
  by (auto dest: returnsD simp: stays_def)

lemma stays_calm: "calm e \<Longrightarrow> returns (stays P F) (emit e)" "calm e \<Longrightarrow> returns (stays P F) (call f e)"
  by (auto intro: stays_emit stays_call P_calm)

lemmas find_rules = stays_calm stays_log stays_log_lazy stays_with_lock
  sty.returns_bind sty.returns_for_each sty.returns_map_io sty.returns_abort stays_basic

lemma stays_init_virtio: "returns (stays P F) (init_virtio_device E V transport d)"
  unfolding init_virtio_device_def driver_new_def
  by (auto intro!: find_rules split: device_type.split)

lemma stays_log_effects:
  "returns (stays P F) args \<Longrightarrow> returns (stays P F) (log_effects E lvl lit args)"
  unfolding log_effects_def by (auto intro!: find_rules split: option.split)

lemma stays_find_virtio_mmio: "returns (stays P F) (find_virtio_mmio_devices E V fdt d)"
proof -
  have "returns (stays P F) (find_virtio_mmio_device E V node d)" for node d
    unfolding find_virtio_mmio_device_def find_virtio_mmio_region_def init_mmio_transport_def
    by (auto intro!: find_rules stays_init_virtio stays_log_effects split: option.split sum.split)
  then have "returns (stays P F) (find_virtio_mmio_nodes E V nodes d)" for nodes d
    by (induction nodes arbitrary: d) (auto intro!: find_rules)
  then show ?thesis unfolding find_virtio_mmio_devices_def .
qed

lemma stays_find_devices_on: "returns (stays P F) (find_devices_on E V roots d)"
proof -
  have "returns (stays P F) (find_virtio_functions E V root fs d)" for root fs d
    by (induction fs arbitrary: d)
      (auto intro!: find_rules stays_init_virtio stays_log_effects split: option.split)
  then show ?thesis
    by (induction roots arbitrary: d) (auto simp: find_virtio_pci_devices_def intro!: find_rules)
qed

end

locale pci_view = find_view P F for P :: "event \<Rightarrow> bool" and F :: "'s io_state_scheme \<Rightarrow> 'x" +
  assumes P_pci: "P (Pci e)"
begin

lemma stays_init_pci: "returns (stays P F) (init_pci E A32 A64 info)"
proof -
  note rules = find_rules stays_emit [OF P_pci]
  have "returns (stays P F) (add_ranges E A32 A64 rs al)" for rs al
    by (induction rs arbitrary: al)
      (auto simp: add_range_def intro!: rules split: pci_range_type.split)
  moreover have "returns (stays P F) (allocate_bar_list E A32 A64 root df i infos al)" for root df i infos al
    by (induction infos arbitrary: i al)
      (auto simp: allocate_bar_def intro!: rules split: option.split bar_info.split memory_bar_type.split)
  then have "returns (stays P F) (init_functions E A32 A64 root fs al)" for root fs al
    by (induction fs arbitrary: al) (auto simp: allocate_bars_def intro!: rules)
  ultimately show ?thesis unfolding init_pci_def bar_allocator_new_def Let_def by (auto intro!: rules)
qed

end

locale map_view = pci_view P F for P :: "event \<Rightarrow> bool" and F :: "'s io_state_scheme \<Rightarrow> 'x" +
  assumes P_pt: "P (Pt e)"
begin

lemma stays_maps:
  "returns (stays P F) (map_device_unwrap E m r)" "returns (stays P F) (map_memory_unwrap E m r)"
  "returns (stays P F) (activate m)" "returns (stays P F) (idmap_new E)"
  "returns (stays P F) (add_to_heap ev)"
  by (cases m; auto simp: map_device_unwrap_def map_memory_unwrap_def map_range_def idmap_new_def
      add_to_heap_def Let_def intro!: find_rules stays_call [OF P_pt])+

lemma stays_map_fdt_node: "returns (stays P F) (map_fdt_node E m node)"
  unfolding map_fdt_node_def map_fdt_device_region_def
  by (auto intro!: find_rules stays_maps split: option.split)

lemma stays_map_fdt_tree: "returns (stays P F) (map_fdt_node_regions E m node)"
proof (induction node)
  case (Fdt_node name compatible reg rngs pr children)
  then show ?case
    by (auto simp: map_fdt_nodes_loop intro!: find_rules stays_map_fdt_node)
qed

lemma stays_map_fdt_regions: "returns (stays P F) (map_fdt_regions E fdt m)"
  unfolding map_fdt_regions_def map_fdt_memory_region_def
  by (intro find_rules stays_maps stays_map_fdt_tree)

lemma stays_collect_ranges: "returns (stays P F) (collect_ranges E limit rs)"
  by (induction rs) (auto intro!: find_rules)

lemma stays_find_pci_roots: "returns (stays P F) (find_pci_roots E fdt limit)"
  unfolding find_pci_roots_def for_fdt_node_def by (intro find_rules stays_collect_ranges)

lemma stays_map_ranges: "returns (stays P F) (map_ranges E m info)"
  unfolding map_ranges_def map_one_range_def by (auto intro!: find_rules stays_maps)

end

locale boot_view = map_view P F + view P F for P :: "event \<Rightarrow> bool" and F :: "'s io_state_scheme \<Rightarrow> 'x"
begin

lemma stays_heaps: "returns (stays P F) (init_heap B)" "returns (stays P F) (leak_lock l)"
  by (auto simp: init_heap_def leak_lock_def intro!: find_rules stays_acquire stays_maps)

end

section \<open>BARs lie in mapped memory\<close>

lemma map_io_returned:
  assumes "map_io f xs s = (Inr ys, t)" and "y \<in> set ys"
  shows "\<exists>x s' t'. x \<in> set xs \<and> f x s' = (Inr y, t')"
  using assms
proof (induction xs arbitrary: s ys)
  case Nil
  then show ?case by (simp add: rets)
next
  case (Cons x xs)
  from Cons.prems(1) obtain z zs u where z: "f x s = (Inr z, u)" "map_io f xs u = (Inr zs, t)" "ys = z # zs"
    by (auto simp: rets)
  show ?case
  proof (cases "y = z")
    case True
    with z(1) show ?thesis by auto
  next
    case False
    with Cons.prems(2) z(3) have "y \<in> set zs" by simp
    from Cons.IH [OF z(2) this] show ?thesis by auto
  qed
qed

lemma find_pci_roots_limit:
  fixes s :: "'s io_state_scheme"
  assumes "find_pci_roots E fdt limit s = (Inr infos, t)" and "info \<in> set infos" and "r \<in> set (memory_ranges (ranges info))"
  shows "unat (cpu_physical r) + unat (range_size r) \<le> unat limit"
proof -
  from assms(1) obtain xs ys u where 1: "map_io (\<lambda>pci_node.
       bind_io (log E Info ''PCI node: {}'' [A_str (node_name pci_node)]) (\<lambda>_.
       for_fdt_node E pci_node MmioCam limit)) (fdt_find_compatible fdt PCI_COMPATIBLE) s = (Inr xs, u)"
    and 2: "map_io (\<lambda>pcie_node.
       bind_io (log E Info ''PCIE node: {}'' [A_str (node_name pcie_node)]) (\<lambda>_.
       for_fdt_node E pcie_node Ecam limit)) (fdt_find_compatible fdt PCIE_COMPATIBLE) u = (Inr ys, t)"
    and "infos = xs @ ys" by (auto simp: find_pci_roots_def rets_bind rets_return)
  then have "info \<in> set xs \<or> info \<in> set ys" using assms(2) by simp
  then obtain node cam and v w :: "'s io_state_scheme" where run: "for_fdt_node E node cam limit v = (Inr info, w)"
    using map_io_returned [OF 1, of info] map_io_returned [OF 2, of info] by (auto simp: rets_bind)
  from run obtain rs x xs where "collect_ranges E limit rs x = (Inr xs, w)" and "ranges info = xs"
    by (auto simp: for_fdt_node_def rets simp del: rets_log_lazy)
  with collect_ranges_returned [of E limit rs x xs w] trimmed_limit [of r limit] assms(3) show ?thesis
    by (auto simp del: set_memory_ranges simp: memory_ranges_def)
qed

lemma translate_quiet:
  assumes "mapping_law E translate" and "\<And>e. e \<in> set es \<Longrightarrow> \<forall>el r pa a. e \<noteq> Pt (Map_range el r pa a)"
  shows "translate (h @ es) el v = translate h el v"
  using assms(2)
proof (induction es rule: rev_induct)
  case Nil
  then show ?case by simp
next
  case (snoc e es)
  have "\<forall>el r pa a. e \<noteq> Pt (Map_range el r pa a)" using snoc.prems [of e] by simp
  with assms(1) have "translate ((h @ es) @ [e]) el v = translate (h @ es) el v"
    unfolding mapping_law_def by blast
  moreover have "translate (h @ es) el v = translate h el v"
    using snoc by simp
  ultimately show ?case by simp
qed

interpretation pt_field: boot_view "\<lambda>_. True" PAGETABLE
  by unfold_locales simp_all

lemma main_pagetable_steps:
  fixes s t :: "('h, 's) pt_state_scheme"
  assumes "main_pagetable E B fdt s = (Inr infos, t)" and "PAGETABLE s = None"
  shows "\<exists>m (s1 :: ('h, 's) pt_state_scheme) s2 u es. find_pci_roots E fdt (idmap_size E m) s1 = (Inr infos, s2) \<and>
    for_each infos (map_ranges E m) s2 = (Inr (), u) \<and>
    trace t = trace u @ map Con es @ [Pt (Activate (idmap_level m))] \<and> PAGETABLE t = Some m"
proof -
  from assms(1) obtain a1 a2 a3 a4 a5 a6 m s1 s2 u u1 u2 u3 where
    pre: "init_heap B s = (Inr (), a1)" "log E Info ''Initialising page table...'' [] a1 = (Inr (), a2)"
      "leak_lock PAGE_HEAP_lock a2 = (Inr (), a3)"
      "add_to_heap (Page_heap_init (PAGE_HEAP_address B) (PAGE_HEAP_SIZE B)) a3 = (Inr (), a4)"
      "idmap_new E a4 = (Inr m, a5)"
      "log E Info ''IdMap size is {} GiB'' [A_u64 (idmap_size E m div (1024 * 1024 * 1024))] a5 = (Inr (), a6)"
      "map_fdt_regions E fdt m a6 = (Inr (), s1)"
    and roots: "find_pci_roots E fdt (idmap_size E m) s1 = (Inr infos, s2)"
    and maps: "for_each infos (map_ranges E m) s2 = (Inr (), u)"
    and logs: "log E Debug ''Page table: {idmap:?}'' [] u = (Inr (), u1)"
      "log E Info ''Activating page table...'' [] u1 = (Inr (), u2)"
    and act: "activate m u2 = (Inr (), u3)" and once: "pagetable_call_once m u3 = (Inr (), t)"
    by (auto simp: main_pagetable_def rets_bind rets_return)
  note kept = pt_field.stays_maps [THEN pt_field.field_kept]
    and kept_heap = pt_field.stays_heaps [THEN pt_field.field_kept]
    and kept_log = pt_field.stays_log [THEN pt_field.field_kept]
  have "PAGETABLE s1 = PAGETABLE s"
    using kept_heap(1) [OF pre(1)] kept_log [OF pre(2)] kept_heap(2) [OF pre(3)] kept(5) [OF pre(4)] kept(4) [OF pre(5)]
      kept_log [OF pre(6)] pt_field.field_kept [OF pt_field.stays_map_fdt_regions pre(7)] by simp
  moreover have "PAGETABLE u = PAGETABLE s1"
    using pt_field.field_kept [OF pt_field.stays_find_pci_roots roots]
      pt_field.field_kept [OF sty.returns_for_each [OF pt_field.stays_map_ranges] maps] by simp
  moreover have "PAGETABLE u3 = PAGETABLE u"
    using kept_log [OF logs(1)] kept_log [OF logs(2)] kept(3) [OF act] by simp
  ultimately have "PAGETABLE u3 = None" using assms(2) by simp
  with once have t: "PAGETABLE t = Some m" "trace t = trace u3" by (auto simp: pagetable_call_once_def rets)
  obtain es where "trace u2 = trace u @ map Con es"
    using logs [THEN log_returned] by (auto intro: that [of "[]"] that [of "[_]"] that [of "[_, _]"])
  moreover have "trace u3 = trace u2 @ [Pt (Activate (idmap_level m))]"
    using act by (cases m) (simp_all add: rets)
  ultimately have "trace t = trace u @ map Con es @ [Pt (Activate (idmap_level m))]" using t(2) by simp
  with roots maps t(1) show ?thesis by blast
qed

text \<open>What mapping the ranges of all roots does to the table.\<close>

lemma roots_mapped:
  assumes "mapping_law E translate" and "for_each infos (map_ranges E m) s = (Inr (), t)"
    and "info \<in> set infos" and "range_covers E info v"
  shows "translate (trace t) (idmap_level m) v = Some (v, device_attributes E m)"
proof -
  have "wpre (for_each infos (map_ranges E m))
      (\<lambda>_ u. mapping_law E translate \<and> translate (trace u) (idmap_level m) =
        (\<lambda>v. if \<exists>info \<in> set infos. range_covers E info v then Some (v, device_attributes E m)
             else translate (trace s) (idmap_level m) v)) (\<lambda>_ _. True) s"
    by (rule dev.map_all [OF assms(1)]) (rule map_ranges_maps)
  from wpre_runs [OF this assms(2)] assms(3,4) show ?thesis by auto
qed

lemma main_pagetable_maps:
  fixes s t :: "('h, 's) pt_state_scheme"
  assumes law: "mapping_law E translate" and "region_law E" and run: "main_pagetable E B fdt s = (Inr infos, t)"
    and "PAGETABLE s = None" and "info \<in> set infos" and "unat v \<in> pool (ranges info)"
  shows "\<exists>m. PAGETABLE t = Some m \<and> last (trace t) = Pt (Activate (idmap_level m)) \<and>
    translate (trace t) (idmap_level m) v = Some (v, device_attributes E m)"
proof -
  from main_pagetable_steps [OF run assms(4)] obtain m es and s1 s2 u :: "('h, 's) pt_state_scheme" where
    roots: "find_pci_roots E fdt (idmap_size E m) s1 = (Inr infos, s2)"
    and maps: "for_each infos (map_ranges E m) s2 = (Inr (), u)"
    and t: "trace t = trace u @ map Con es @ [Pt (Activate (idmap_level m))]" "PAGETABLE t = Some m" by blast
  have "\<forall>r \<in> set (memory_ranges (ranges info)). unat (cpu_physical r) + unat (range_size r) < 2 ^ 64"
    using find_pci_roots_limit [OF roots assms(5)] unsigned_less [where w = "idmap_size E m"]
    by (auto simp del: set_memory_ranges intro: le_less_trans)
  moreover from for_each_returned [OF maps assms(5)] obtain s' u' :: "('h, 's) pt_state_scheme" and x
    where "map_ranges E m info s' = (Inr x, u')" by blast
  ultimately have "range_covers E info v" using pool_covered [OF assms(2,6)] map_ranges_regions by blast
  from roots_mapped [OF law maps assms(5) this]
  have "translate (trace u) (idmap_level m) v = Some (v, device_attributes E m)" .
  moreover have "translate (trace t) (idmap_level m) v = translate (trace u) (idmap_level m) v"
    unfolding t(1) by (rule translate_quiet [OF law]) auto
  ultimately show ?thesis using t by auto
qed

section \<open>The device tree until power off\<close>

text \<open>A part of the state of which moreover the tables of handlers and the interrupt controller are not part.\<close>

locale gic_view = irq_view P F + find_view P F
  for P :: "event \<Rightarrow> bool" and F :: "(irq_handler, 's) sec_state_scheme \<Rightarrow> 'x" +
  assumes F_gic: "F (s\<lparr>gic_set := b\<rparr>) = F s"
    and F_shared: "F (s\<lparr>shared_irq_handlers := m\<rparr>) = F s"
begin

lemma stays_setup_gic: "returns (stays P F) (setup_gic E b)"
proof -
  have "returns (stays P F) (modify_io (\<lambda>s. s\<lparr>shared_irq_handlers := f s\<rparr>))" for f
    by (rule returnsI) (auto simp: rets F_shared intro!: staysI [where es = "[]"])
  then have "returns (stays P F) (set_shared_irq_handler E k h)" for k h
    unfolding set_shared_irq_handler_def by (auto intro!: stays_rules stays_private_get)
  then show ?thesis
    by (cases b) (auto simp: qemu_setup_gic_def crosvm_setup_gic_def gic_call_def intro!: find_rules)
qed

lemma stays_init_gic: "returns (stays P F) (init_gic E (setup_gic E b) fdt)"
proof -
  have "returns (stays P F) (make_gic E fdt)"
    unfolding make_gic_def by (auto intro!: find_rules split: option.split)
  moreover have "returns (stays P F) (init_irq_routing E)"
    unfolding init_irq_routing_def by (auto intro!: find_rules)
  moreover have "returns (stays P F) (modify_io (\<lambda>s. s\<lparr>gic_set := True\<rparr>))"
    by (rule returnsI) (auto simp: rets F_gic intro!: staysI [where es = "[]"])
  ultimately show ?thesis
    unfolding init_gic_def by (auto intro!: find_rules sty.returns_block stays_setup_gic)
qed

end

locale device_view = gic_view P F + pci_view P F
  for P :: "event \<Rightarrow> bool" and F :: "(irq_handler, 's) sec_state_scheme \<Rightarrow> 'x"
begin

lemma stays_main_devices: "returns (stays P F) (main_devices E V A32 A64 b fdt rtc infos)"
  unfolding main_devices_def
  by (intro find_rules stays_init_gic stays_find_virtio_mmio stays_init_pci stays_find_devices_on)

end

interpretation tree: boot_view "\<lambda>_. True" FDT
  by unfold_locales simp_all

interpretation fdt_field: device_view "\<lambda>_. True" FDT
  by unfold_locales simp_all

lemma main_pagetable_fdt:
  fixes s :: "(irq_handler, 's) sec_state_scheme"
  assumes "main_pagetable E B fdt s = (Inr infos, t)"
  shows "FDT t = FDT s"
proof -
  have "returns (stays (\<lambda>_. True) FDT) (pagetable_call_once m :: ((irq_handler, 's) sec_state_scheme, unit) io)" for m
    by (rule returnsI) (auto simp: pagetable_call_once_def rets intro!: staysI [where es = "[]"] split: option.splits)
  then have "returns (stays (\<lambda>_. True) FDT) (main_pagetable E B fdt :: ((irq_handler, 's) sec_state_scheme, _) io)"
    unfolding main_pagetable_def
    by (intro tree.find_rules tree.stays_maps tree.stays_heaps tree.stays_map_fdt_regions
        tree.stays_find_pci_roots tree.stays_map_ranges)
  from tree.field_kept [OF this assms] show ?thesis .
qed

lemma main_console_fdt:
  assumes "main_console E B b x0 s = (Inr (fdt, rtc), t)" and "FDT s = None"
  shows "fdt_from_raw B x0 = Inr fdt \<and> FDT t = Some fdt"
proof -
  let ?first = "Con_fmt ''DemoOS starting at EL{}...'' [A_nat (unat (current_el E))]"
  from assms(1) obtain platform a1 a2 a3 a4 a5 a6 a7 a8 r where
    1: "platform_create E b s = (Inr platform, a1)"
    and 2: "call (\<lambda>h. write_reply E h ?first) (Con ?first) a1 = (Inr r, a2)"
    and 3: "console_init a2 = (Inr (), a3)" "logger_init LOG_LEVEL a3 = (Inr (Inr ()), a4)"
    and 4: "log E Info ''FDT address: {fdt_address:?}'' [A_u64 x0] a4 = (Inr (), a5)"
    and raw: "fdt_from_raw B x0 = Inr fdt"
    and 5: "log E Info ''FDT size: {} bytes'' [A_nat (fdt_data_len B x0)] a5 = (Inr (), a6)"
    and 6: "log E Debug ''FDT: {fdt}'' [] a6 = (Inr (), a7)"
    and 7: "for_each [0 ..< fdt_reservations B x0] (\<lambda>i.
      log E Info ''Reserved memory: {reserved:?}'' [A_token i]) a7 = (Inr (), a8)"
    and 8: "fdt_call_once fdt a8 = (Inr (), t)"
    by (auto simp: main_console_def rets_bind rets_return rets_lift)
  have "returns (stays (\<lambda>_. True) FDT) (platform_create E b)"
    by (cases b) (auto simp: qemu_create_def crosvm_create_def intro!: tree.find_rules)
  note tree.field_kept [OF this 1] tree.field_kept [OF tree.stays_calm(2) 2]
    tree.stays_log [THEN tree.field_kept, OF 4] tree.stays_log [THEN tree.field_kept, OF 5]
    tree.stays_log [THEN tree.field_kept, OF 6]
    tree.field_kept [OF sty.returns_for_each [OF tree.stays_log] 7]
  moreover have "FDT a4 = FDT a2"
    using 3 by (auto simp: console_init_def logger_init_def rets split: option.splits)
  ultimately have "FDT a8 = None" using assms(2) by simp
  with 8 raw show ?thesis by (auto simp: fdt_call_once_def rets)
qed

section \<open>The BARs that booting sets\<close>

interpretation quiet_gic: gic_view calm "\<lambda>_. ()"
  by unfold_locales simp_all

definition unmapping :: "event \<Rightarrow> bool" where
  "unmapping e \<longleftrightarrow> (\<forall>el r pa attrs. e \<noteq> Pt (Map_range el r pa attrs))"

lemma calm_unmapping: "calm e \<Longrightarrow> unmapping e"
  by (auto simp: unmapping_def)

interpretation mapped: device_view unmapping PAGETABLE
  by unfold_locales (simp_all add: unmapping_def calm_unmapping [unfolded unmapping_def])

lemma bar_blocks_calm:
  assumes "list_all calm es"
  shows "bar_blocks E (h @ es) = bar_blocks E h"
  using assms
proof (induction es rule: rev_induct)
  case (snoc e es)
  have "bar_blocks E ((h @ es) @ [e]) = bar_blocks E (h @ es)"
    using snoc.prems unfolding bar_blocks_def view_of_snoc by (cases e rule: calm.cases) (auto split: pci_event.split)
  with snoc show ?case by simp
qed simp

lemma stays_blocks:
  assumes "returns (stays calm F) m" and "m s = (Inr x, t)"
  shows "bar_blocks E (trace t) = bar_blocks E (trace s)"
  using returnsD [OF assms] by (auto simp: stays_def bar_blocks_calm)

text \<open>Blocks written to BARs since a state, each inside the memory ranges of one of the roots.\<close>

definition bars_within :: "'e pci_env_scheme \<Rightarrow> pci_root_info list \<Rightarrow> event list \<Rightarrow> event list \<Rightarrow> bool" where
  "bars_within E infos h h' \<longleftrightarrow>
     (\<exists>new. bar_blocks E h' = new @ bar_blocks E h \<and>
        (\<forall>(a, n) \<in> set new. \<exists>info \<in> set infos. block a n \<subseteq> pool (ranges info)))"

lemma bars_within_trans:
  assumes "bars_within E xs h h'" and "bars_within E ys h' h''"
  shows "bars_within E (xs @ ys) h h''"
proof -
  from assms obtain new new' where "bar_blocks E h' = new @ bar_blocks E h" "bar_blocks E h'' = new' @ bar_blocks E h'"
    "\<forall>(a, n) \<in> set new. \<exists>info \<in> set xs. block a n \<subseteq> pool (ranges info)"
    "\<forall>(a, n) \<in> set new'. \<exists>info \<in> set ys. block a n \<subseteq> pool (ranges info)"
    unfolding bars_within_def by blast
  then show ?thesis unfolding bars_within_def by (intro exI [of _ "new' @ new"]) fastforce
qed

lemma init_pci_within:
  assumes "init_pci E A32 A64 info s = (Inr root, t)" and "bars_law E"
    and "frame_law A32 f32" "frame_law A64 f64" and "ranges_apart (ranges info)"
  shows "bars_within E [info] (trace s) (trace t)"
  using init_pci_inv [OF assms] unfolding bars_inv_def accounted_def bars_within_def by fastforce

lemma roots_within:
  assumes "map_io (init_pci E A32 A64) infos s = (Inr roots, t)" and "bars_law E"
    and "frame_law A32 f32" "frame_law A64 f64" and "\<forall>info \<in> set infos. ranges_apart (ranges info)"
  shows "bars_within E infos (trace s) (trace t)"
  using assms(1,5)
proof (induction infos arbitrary: s roots)
  case Nil
  then show ?case by (simp add: rets bars_within_def)
next
  case (Cons info infos)
  from Cons.prems(1) obtain root rest u where "init_pci E A32 A64 info s = (Inr root, u)"
    "map_io (init_pci E A32 A64) infos u = (Inr rest, t)" by (auto simp: rets)
  then show ?case
    using bars_within_trans [OF init_pci_within [OF _ assms(2-4)] Cons.IH] Cons.prems(2) by fastforce
qed

lemma main_devices_within:
  fixes s :: "(irq_handler, 's) sec_state_scheme"
  assumes "main_devices E V A32 A64 b fdt rtc infos s = (Inr r, t)" and "bars_law E"
    and "frame_law A32 f32" "frame_law A64 f64" and "\<forall>info \<in> set infos. ranges_apart (ranges info)"
  shows "bars_within E infos (trace s) (trace t)"
proof -
  from assms(1) obtain a1 a2 a3 a4 d d' roots where
    1: "log E Info ''Initialising GIC...'' [] s = (Inr (), a1)"
    and 2: "init_gic E (setup_gic E b) fdt a1 = (Inr (), a2)"
    and 3: "find_virtio_mmio_devices E V fdt (devices_new rtc) a2 = (Inr d, a3)"
    and 4: "map_io (init_pci E A32 A64) infos a3 = (Inr roots, a4)"
    and 5: "find_devices_on E V roots d a4 = (Inr d', t)"
    by (auto simp: main_devices_def rets_bind rets_return)
  have "bar_blocks E (trace a3) = bar_blocks E (trace s)"
    using stays_blocks [OF quiet_gic.stays_log 1, of E] stays_blocks [OF quiet_gic.stays_init_gic 2, of E]
      stays_blocks [OF quiet_gic.stays_find_virtio_mmio 3, of E] by simp
  moreover have "bar_blocks E (trace t) = bar_blocks E (trace a4)"
    by (rule stays_blocks [OF quiet_gic.stays_find_devices_on 5])
  ultimately show ?thesis
    using roots_within [OF 4 assms(2-5)] by (simp add: bars_within_def)
qed

lemma main_devices_translate:
  fixes s :: "(irq_handler, 's) sec_state_scheme"
  assumes "main_devices E V A32 A64 b fdt rtc infos s = (Inr r, t)" and "mapping_law E translate"
  shows "translate (trace t) el v = translate (trace s) el v \<and> PAGETABLE t = PAGETABLE s"
proof -
  obtain es where "trace t = trace s @ es" "list_all unmapping es" "PAGETABLE t = PAGETABLE s"
    using returnsD [OF mapped.stays_main_devices assms(1)] by (auto simp: stays_def)
  then show ?thesis using translate_quiet [OF assms(2), of es] by (auto simp: list_all_iff unmapping_def)
qed

section \<open>An example\<close>

text \<open>A board with an interrupt controller, a PCI host bridge and 128 MiB of memory.\<close>

definition ex_gic_node :: fdt_node where
  "ex_gic_node = Fdt_node ''intc'' (Some [''arm,gic-v3''])
     (Inr (Some [\<lparr>reg_address = Inr 0x8000000, reg_size = Inr 0x10000\<rparr>, \<lparr>reg_address = Inr 0x80A0000, reg_size = Inr 0x100000\<rparr>]))
     (Inr None) (\<lambda>_. None) []"

definition ex_boot_fdt :: fdt where
  "ex_boot_fdt = ex_fdt\<lparr>fdt_root := Fdt_node ''/'' None (Inr None) (Inr None) (\<lambda>_. None) [ex_gic_node, ex_pci_node],
     fdt_memory_reg := Inr (Inr (Some [\<lparr>reg_address = Inr 0x40000000, reg_size = Inr 0x8000000\<rparr>])),
     fdt_find_compatible := (\<lambda>c. if c = ''arm,gic-v3'' then [ex_gic_node] else if c = PCI_COMPATIBLE then [ex_pci_node] else [])\<rparr>"

lemma ex_typing_regions [simp]:
  "MemoryRegion_new (ex_typing txt) a b = Inr \<lparr>mr_start = a, mr_end = b\<rparr>" "map_range_reply (ex_typing txt) h ev = Inr ()"
  "currentel (ex_typing txt) = 1" "mapping_size (ex_typing txt) l = 0x8000000000"
  "cam_size (ex_typing txt) MmioCam = 0x1000000"
  by (simp_all add: ex_typing_def ex_pci_env_def)

text \<open>Nothing has been read from the console yet, the log is on and the console's lock is free.\<close>

definition silent :: "event list \<Rightarrow> bool" where
  "silent h \<longleftrightarrow> filter is_read h = []"

lemma silent_simps [simp]:
  "silent []" "silent (e # h) \<longleftrightarrow> \<not> is_read e \<and> silent h"
  "silent (h @ h') \<longleftrightarrow> silent h \<and> silent h'"
  by (auto simp: silent_def)

lemma ex_map_fdt_regions:
  assumes "logger s = Some Debug" and "CONSOLE_lock \<notin> set (held s)" and "silent (trace s)"
  shows "\<exists>h. map_fdt_regions (ex_typing txt) ex_boot_fdt IdMap_El1 s = (Inr (), s\<lparr>trace := h\<rparr>) \<and> silent h"
  using assms
  by (simp add: map_fdt_regions_def ex_boot_fdt_def ex_fdt_def map_fdt_memory_region_def fdt_to_pagetable_region_def
    map_fdt_node_def is_compatible_def DEVICE_COMPATIBLE_def ex_gic_node_def ex_pci_node_def PCI_COMPATIBLE_def
    PCIE_COMPATIBLE_def map_fdt_device_region_def map_device_unwrap_def map_memory_unwrap_def map_range_def
    runs logs_def less_eq_level_def checked_add_def virtual_to_physical_def Let_def)
    (rule exI, rule conjI, rule refl, simp add: silent_def)

lemma ex_find_pci_roots:
  assumes "logger s = Some Debug" and "CONSOLE_lock \<notin> set (held s)" and "silent (trace s)"
  shows "\<exists>h. find_pci_roots (ex_typing txt) ex_boot_fdt 0x8000000000 s = (Inr [ex_root], s\<lparr>trace := h\<rparr>) \<and> silent h"
proof -
  have "range_type 0x02000000 = Inr Memory32"
    by (simp add: range_type_def range_type_from_def)
  then show ?thesis
    using assms
    by (simp add: find_pci_roots_def for_fdt_node_def ex_boot_fdt_def ex_pci_node_def PCI_COMPATIBLE_def PCIE_COMPATIBLE_def
        runs logs_def less_eq_level_def checked_add_def checked_sub_def pci_range_from_def child_address_bus child_address_flags
        flags_fmt_def pci_range_fmt_def is_memory_def ex_root_def ex_range_def prefetchable_def)
      (rule exI, rule conjI, rule refl, simp add: silent_def)
qed

lemma ex_root_mapped:
  assumes "logger s = Some Debug" and "CONSOLE_lock \<notin> set (held s)" and "silent (trace s)"
  shows "\<exists>h. map_ranges (ex_typing txt) IdMap_El1 ex_root s = (Inr (), s\<lparr>trace := h\<rparr>) \<and> silent h"
  using assms
  by (simp add: map_ranges_def map_one_range_def ex_root_def runs ex_kind is_memory_def
      memory_region_def map_device_unwrap_def map_device_eq map_range_def)
    (simp add: ex_range_def checked_add_def runs logs_def less_eq_level_def, rule exI, rule conjI, rule refl, simp add: silent_def)

definition ex_boot_ops :: boot_ops where
  "ex_boot_ops = \<lparr>PAGE_SIZE = 0x1000, HEAP_address = 0x40100000, PAGE_HEAP_address = 0x40200000,
     fdt_from_raw = (\<lambda>_. Inr ex_boot_fdt), fdt_data_len = (\<lambda>_. 8192), fdt_reservations = (\<lambda>_. 0)\<rparr>"

definition ex_reset :: "irq_handler sec_state" where
  "ex_reset = ex_sec_state\<lparr>console_set := False, logger := None, FDT := None, gic_set := False\<rparr>"

lemma ex_main_console:
  "\<exists>h. main_console (ex_typing txt) ex_boot_ops Qemu 0x40000000 ex_reset =
     (Inr (ex_boot_fdt, PL031_BASE_ADDRESS),
      ex_reset\<lparr>trace := h, console_set := True, logger := Some Debug, FDT := Some ex_boot_fdt\<rparr>) \<and> silent h"
  by (simp add: main_console_def qemu_create_def non_null_def qemu_UART_BASE_ADDRESS_def ex_boot_ops_def runs
      console_init_def logger_init_def ex_reset_def ex_sec_state_def logs_def less_eq_level_def LOG_LEVEL_def
      fdt_call_once_def current_el_def silent_def parts_def)

lemma ex_main_pagetable:
  fixes s :: "irq_handler sec_state"
  assumes "logger s = Some Debug" and "held s = []" and "silent (trace s)" and "PAGETABLE s = None"
  shows "\<exists>h. main_pagetable (ex_typing txt) ex_boot_ops ex_boot_fdt s =
    (Inr [ex_root], s\<lparr>held := [PAGE_HEAP_lock, HEAP_lock], trace := h, PAGETABLE := Some IdMap_El1\<rparr>) \<and> silent h"
proof -
  let ?on = "\<lambda>s :: irq_handler sec_state. logger s = Some Debug \<and> CONSOLE_lock \<notin> set (held s) \<and> silent (trace s)"
  have "\<forall>s. \<exists>h. ?on s \<longrightarrow>
      map_fdt_regions (ex_typing txt) ex_boot_fdt IdMap_El1 s = (Inr (), s\<lparr>trace := h\<rparr>) \<and> silent h"
    using ex_map_fdt_regions [of _ "txt"] by blast
  then obtain f where f: "\<And>s. ?on s \<Longrightarrow>
      map_fdt_regions (ex_typing txt) ex_boot_fdt IdMap_El1 s = (Inr (), s\<lparr>trace := f s\<rparr>) \<and> silent (f s)"
    by metis
  have "\<forall>s. \<exists>h. ?on s \<longrightarrow>
      find_pci_roots (ex_typing txt) ex_boot_fdt 0x8000000000 s = (Inr [ex_root], s\<lparr>trace := h\<rparr>) \<and> silent h"
    using ex_find_pci_roots [of _ "txt"] by blast
  then obtain g where g: "\<And>s. ?on s \<Longrightarrow>
      find_pci_roots (ex_typing txt) ex_boot_fdt 0x8000000000 s = (Inr [ex_root], s\<lparr>trace := g s\<rparr>) \<and> silent (g s)"
    by metis
  have "\<forall>s. \<exists>h. ?on s \<longrightarrow>
      map_ranges (ex_typing txt) IdMap_El1 ex_root s = (Inr (), s\<lparr>trace := h\<rparr>) \<and> silent h"
    using ex_root_mapped [of _ "txt"] by blast
  then obtain k where k: "\<And>s. ?on s \<Longrightarrow>
      map_ranges (ex_typing txt) IdMap_El1 ex_root s = (Inr (), s\<lparr>trace := k s\<rparr>) \<and> silent (k s)"
    by metis
  show ?thesis using assms
    by (simp add: main_pagetable_def runs init_heap_def leak_lock_def add_to_heap_def with_lock_def acquire_def
        release_def logs_def less_eq_level_def idmap_new_def current_el_def f g k pagetable_call_once_def)
      (rule exI, rule conjI, rule refl, simp add: f g k)
qed

lemma ex_init_pci:
  assumes "logger s = Some Debug" and "CONSOLE_lock \<notin> set (held s)" and "silent (trace s)"
  shows "\<exists>h. init_pci (ex_typing txt) bump_ops bump_ops ex_root s = (Inr 0x72000000, s\<lparr>trace := h\<rparr>) \<and> silent h \<and>
    bar_blocks (ex_typing txt) h = [(0x10004000, 0x4000), (0x10000000, 0x1000)] @ bar_blocks (ex_typing txt) (trace s)"
proof -
  have new: "bar_allocator_new (ex_typing txt) bump_ops bump_ops [ex_range] t =
    (Inr \<lparr>memory32 = (0x10000000, 0x11000000), memory64 = (0, 0), prefetchable_memory64 = (0, 0)\<rparr>, t)"
    for t :: "'s io_state_scheme"
    by (simp add: bar_allocator_new_def add_range_def runs ex_kind)
      (simp add: runs ex_range_def checked_add_def bump_ops_def bump_add_def)
  have "enumerate_reply (ex_typing txt) h root = [((0, 1, 0), 7)]"
    "bars_reply (ex_typing txt) h root df = Inr [Some (Bar_memory Width32 False 0 0x1000), None,
     Some (Bar_memory Width64 True 0 0x4000), None, Some (Bar_io 0 32), None]" for h root df
    by (simp_all add: ex_typing_def)
  then show ?thesis using assms
    by (simp add: init_pci_def runs ex_root_def new allocate_bars_def allocate_bar_def
      ex_allocations logs_def less_eq_level_def)
      (rule exI, rule conjI, rule refl, simp add: bar_blocks_def view_of_def bar_size_def)
qed

text \<open>The state before and after the interrupt controller is set up.\<close>

definition ex_up :: "bool \<Rightarrow> event list \<Rightarrow> irq_handler sec_state" where
  "ex_up up h = \<lparr>trace = h, held = [PAGE_HEAP_lock, HEAP_lock], masked = False, console_set = True, logger = Some Debug,
     FDT = Some ex_boot_fdt, shared_irq_handlers = (if up then [qemu_CONSOLE_IRQ \<mapsto> Console_handle_irq] else Map.empty),
     private_irq_handlers = (if up then Some [Map.empty, Map.empty] else None), private_borrowed = False, gic_set = up,
     PAGETABLE = Some IdMap_El1, ALARM_FIRED = False, SECONDARY_STACKS = Map.empty\<rparr>"

lemma ex_up_simps [simp]:
  "trace (ex_up up h) = h" "held (ex_up up h) = [PAGE_HEAP_lock, HEAP_lock]" "logger (ex_up up h) = Some Debug"
  "(ex_up up h)\<lparr>trace := h'\<rparr> = ex_up up h'" "gic_set (ex_up up h) = up" "FDT (ex_up up h) = Some ex_boot_fdt"
  "(ex_up True h)\<lparr>gic_set := True\<rparr> = ex_up True h"
  by (simp_all add: ex_up_def)

lemma ex_boot_fdt_simps:
  "fdt_cpus ex_boot_fdt = Inr [\<lparr>cpu_ids = Inr [Inr 0]\<rparr>, \<lparr>cpu_ids = Inr [Inr 1]\<rparr>]"
  "fdt_find_compatible ex_boot_fdt ''arm,gic-v3'' = [ex_gic_node]"
  by (simp_all add: ex_boot_fdt_def ex_fdt_def)

lemma ex_make_gic:
  assumes "silent h"
  shows "\<exists>h'. make_gic (ex_typing txt) ex_boot_fdt (ex_up False h) = (Inr (Some ()), ex_up False h') \<and> silent h'"
proof -
  have "sizeof_Gicd (ex_typing txt) = 0x10000" "sizeof_GicrSgi (ex_typing txt) = 0x20000"
    by (simp_all add: ex_typing_def ex_pci_env_def)
  with assms show ?thesis
    by (simp add: make_gic_def cpu_count_in_def fdt_cpu_nodes_def ex_boot_fdt_simps ex_gic_node_def runs logs_def less_eq_level_def
      checked_mul_def non_null_def) (rule exI, rule conjI, rule refl, simp)
qed

lemma ex_set_shared:
  "set_shared_irq_handler (ex_typing txt) qemu_CONSOLE_IRQ Console_handle_irq (ex_up False h) =
     (Inr None, (ex_up True h)\<lparr>gic_set := False\<rparr>)"
  by (simp add: set_shared_irq_handler_def private_get_def private_force_def private_table_def
      core_index_def current_cpu_index_def current_cpu_index_in_def mpidr_to_cpu_index_def cpu_id_def mpidr_affinity_def
      MPIDR_AFFINITY_MASK_def fdt_cpu_nodes_def cpu_count_in_def ex_boot_fdt_simps numeral_2_eq_2
      exception_free_def with_lock_def acquire_def release_def runs logs_def less_eq_level_def ex_up_def)

lemma ex_init_gic:
  assumes "silent h"
  shows "\<exists>h'. init_gic (ex_typing txt) (setup_gic (ex_typing txt) Qemu) ex_boot_fdt (ex_up False h) = (Inr (), ex_up True h')
    \<and> silent h'"
proof -
  obtain h' where "make_gic (ex_typing txt) ex_boot_fdt (ex_up False h) = (Inr (Some ()), ex_up False h')" "silent h'"
    using ex_make_gic [OF assms] by blast
  then show ?thesis
    by (simp add: init_gic_def init_irq_routing_def current_el_def qemu_setup_gic_def gic_call_def ex_set_shared runs logs_def
        less_eq_level_def) (rule exI, rule conjI, rule refl, simp)
qed

lemma ex_main_devices:
  assumes "silent h"
  shows "\<exists>h'. main_devices (ex_typing txt) ex_virtio bump_ops bump_ops Qemu ex_boot_fdt rtc [ex_root] (ex_up False h) =
    (Inr (devices_new rtc, [0x72000000]), ex_up True h') \<and> silent h' \<and>
    bar_blocks (ex_typing txt) h' = [(0x10004000, 0x4000), (0x10000000, 0x1000)] @ bar_blocks (ex_typing txt) h"
proof -
  have "silent (h @ [Con (Log_line Info ''Initialising GIC...'' [])])" using assms by simp
  from ex_init_gic [OF this] obtain h1 where h1: "silent h1" "init_gic (ex_typing txt) (setup_gic (ex_typing txt) Qemu) ex_boot_fdt
      (ex_up False (h @ [Con (Log_line Info ''Initialising GIC...'' [])])) = (Inr (), ex_up True h1)" by blast
  obtain h2 where h2: "silent h2" "init_pci (ex_typing txt) bump_ops bump_ops ex_root (ex_up True h1) = (Inr 0x72000000, ex_up True h2)"
      "bar_blocks (ex_typing txt) h2 = [(0x10004000, 0x4000), (0x10000000, 0x1000)] @ bar_blocks (ex_typing txt) h1"
    using ex_init_pci [of "ex_up True h1"] h1(1) by auto
  have blocks: "bar_blocks (ex_typing txt) h1 = bar_blocks (ex_typing txt) h"
    using stays_blocks [OF quiet_gic.stays_init_gic h1(2), of "ex_typing txt"] by simp
  have "find_virtio_mmio_devices (ex_typing txt) ex_virtio ex_boot_fdt d t = (Inr d, t)" for d and t :: "irq_handler sec_state"
    by (simp add: find_virtio_mmio_devices_def find_virtio_mmio_device_def ex_boot_fdt_def ex_gic_node_def ex_pci_node_def
        is_compatible_def VIRTIO_MMIO_COMPATIBLE_def PCI_COMPATIBLE_def runs)
  moreover have "enumerate_reply (ex_typing txt) h root = [((0, 1, 0), 7)]" "virtio_device_type ex_virtio n = None" for h root n
    by (simp_all add: ex_typing_def ex_virtio_def)
  ultimately show ?thesis using h1 h2 blocks
    by (simp add: main_devices_def runs logs_def less_eq_level_def find_virtio_pci_devices_def)
      (rule exI, rule conjI, rule refl, simp add: bar_blocks_calm)
qed

lemma ex_shell:
  assumes "silent h" and "arg_board A = Qemu"
  shows "\<exists>t. shell_main (ex_typing ex_exit) A ex_idle ex_fuel (ex_up True h) = (Inr (), t) \<and>
    CONSOLE_lock \<notin> set (held t) \<and> logger t = Some Debug"
proof -
  note defs = irq_setup_def irq_remove_def irq_enable_def with_gic_def gic_call_def
      set_shared_irq_handler_def remove_shared_irq_handler_def private_get_def private_force_def private_table_def
      core_index_def current_cpu_index_def current_cpu_index_in_def mpidr_to_cpu_index_def cpu_id_def mpidr_affinity_def
      MPIDR_AFFINITY_MASK_def fdt_cpu_nodes_def cpu_count_in_def ex_boot_fdt_simps numeral_2_eq_2
      exception_free_def with_lock_def acquire_def release_def runs logs_def less_eq_level_def
  let ?E = "ex_typing ex_exit"
  let ?s1 = "ex_up True (h @ [Con (Log_line Info ''Configuring IRQs...'' []), Gic (Gicc_set_priority_mask 0xff)])"
  have "\<exists>s2. irq_setup ?E Qemu ?s1 = (Inr (), s2) \<and> held s2 = [PAGE_HEAP_lock, HEAP_lock] \<and> logger s2 = Some Debug \<and> silent (trace s2)"
    using assms(1) by (simp add: defs ex_up_def)
  then obtain s2 where s2: "irq_setup ?E Qemu ?s1 = (Inr (), s2)" "held s2 = [PAGE_HEAP_lock, HEAP_lock]" "logger s2 = Some Debug"
    "silent (trace s2)" by blast
  have "\<exists>s3. irq_enable s2 = (Inr (), s3) \<and> held s3 = [PAGE_HEAP_lock, HEAP_lock] \<and> logger s3 = Some Debug \<and> silent (trace s3)"
    using s2 by (simp add: irq_enable_def runs)
  then obtain s3 where s3: "irq_enable s2 = (Inr (), s3)" "held s3 = [PAGE_HEAP_lock, HEAP_lock]" "logger s3 = Some Debug"
    "silent (trace s3)" by blast
  obtain h3 where h3: "shell_loop ?E A ex_idle ex_fuel ex_fuel s3 = (Inr (), s3\<lparr>trace := h3\<rparr>)"
    using ex_loop [of s3 A ex_idle] s3 by (auto simp: silent_def)
  have "\<exists>u. irq_remove ?E Qemu (s3\<lparr>trace := h3\<rparr>) = (Inr (), u) \<and> CONSOLE_lock \<notin> set (held u) \<and> logger u = Some Debug"
    using s3 by (simp add: irq_remove_def remove_shared_irq_handler_def exception_free_def with_lock_def
        acquire_def release_def runs logs_def less_eq_level_def)
  then obtain u where "irq_remove ?E Qemu (s3\<lparr>trace := h3\<rparr>) = (Inr (), u)" "CONSOLE_lock \<notin> set (held u)" "logger u = Some Debug" by blast
  with s2(1) s3(1) h3 assms(2) show ?thesis
    by (simp add: shell_main_def runs logs_def less_eq_level_def)
qed

section \<open>Properties\<close>

text \<open>C10: when \<^verbatim>\<open>map_fdt_regions\<close> returns, the page table is the identity on exactly what the device tree
  describes: as device memory on the regions of every node, at any depth, that is compatible with a device
  the program knows; as normal memory on the other regions of the memory node; and as before everywhere
  else. Assumed: the page table crate does what it documents.\<close>

theorem fdt_regions_mapped:
  assumes "mapping_law E translate" and "map_fdt_regions E fdt m s = (Inr u, t)"
  shows "\<exists>reg. fdt_memory_reg fdt = Inr (Inr (Some reg)) \<and>
    translate (trace t) (idmap_level m) =
      (\<lambda>v. if \<exists>n \<in> set (subtree (fdt_root fdt)). device_covers E n v then Some (v, device_attributes E m)
           else if \<exists>r \<in> set reg. reg_covers E r v then Some (v, memory_attributes E m)
           else translate (trace s) (idmap_level m) v)"
  using map_fdt_regions_maps [OF assms] .

theorem fdt_regions_mapped_witness:
  "\<exists>t. map_fdt_regions (ex_typing ''x'') ex_boot_fdt IdMap_El1 (ex_up False []) = (Inr (), t) \<and>
     table_of (trace t) 1 0x40001000 = Some (0x40001000, memory_attributes (ex_typing ''x'') IdMap_El1) \<and>
     table_of (trace t) 1 0x8000010 = Some (0x8000010, device_attributes (ex_typing ''x'') IdMap_El1)"
proof -
  obtain t where t: "map_fdt_regions (ex_typing ''x'') ex_boot_fdt IdMap_El1 (ex_up False []) = (Inr (), t)"
    using ex_map_fdt_regions [of "ex_up False []" "''x''"] by auto
  show ?thesis
    using t fdt_regions_mapped [OF table_of_law t]
    by (auto simp: ex_boot_fdt_def ex_gic_node_def ex_pci_node_def device_covers_def reg_covers_def region_covers_def is_compatible_def
        DEVICE_COMPATIBLE_def PCI_COMPATIBLE_def PCIE_COMPATIBLE_def in_region_def)
qed

end
