(* ===== verification/Typing.thy ===== *)
theory Typing
  imports Shell
begin

text \<open>
  The shell as its user sees it: what happens when something is typed. \<^verbatim>\<open>Shell\<close> shows that a line that is read is
  the line that was typed; here the other half is shown, that a line that is typed is read: the loops of the console
  and of the line editor end, whatever interrupts come in meanwhile, and the shell ends when it is told to.
\<close>

section \<open>A keyboard\<close>

text \<open>How often the driver was asked for bytes and how often the core slept, in a history.\<close>

definition reads :: "event list \<Rightarrow> nat" where
  "reads h = length (filter is_read h)"

definition sleeps :: "event list \<Rightarrow> nat" where
  "sleeps h = length (filter (\<lambda>e. e = Cpu Wfi) h)"

lemma reads_simps [simp]:
  "reads [] = 0" "reads (g @ h) = reads g + reads h"
  "reads (Con Uart_read_ready # h) = reads h" "reads (Con (Uart_read n) # h) = Suc (reads h)"
  "reads (Con (Con_bytes bs) # h) = reads h" "reads (Con (Con_fmt l as) # h) = reads h"
  "reads (Cpu c # h) = reads h" "reads (Gic g' # h) = reads h"
  "reads (Con (Log_line lvl l as) # h) = reads h" "reads (Rtc r # h) = reads h"
  by (simp_all add: reads_def)

lemma sleeps_simps [simp]:
  "sleeps [] = 0" "sleeps (g @ h) = sleeps g + sleeps h" "sleeps (Cpu Wfi # h) = Suc (sleeps h)"
  "sleeps (Con c # h) = sleeps h"
  by (simp_all add: sleeps_def)

text \<open>Somebody types \<open>text\<close>: the driver never fails, the reads give the text byte by byte, and while there is more to
  come the next byte is there when the core has slept \<open>w\<close> times at most.\<close>

definition keyboard :: "'e con_env_scheme \<Rightarrow> u8 list \<Rightarrow> nat \<Rightarrow> bool" where
  "keyboard E typing w \<longleftrightarrow>
     (\<forall>h. \<exists>r. read_ready_reply E h = Inr r) \<and>
     (\<forall>h. reads h < length typing \<longrightarrow> read_reply E h 1 = Inr [typing ! reads h]) \<and>
     (\<forall>h es. reads h < length typing \<and> reads es = 0 \<and> w \<le> sleeps es \<longrightarrow> read_ready_reply E (h @ es) = Inr True)"

text \<open>Every interrupt that comes in has a handler.\<close>

definition answered ::
  "'e irq_env_scheme \<Rightarrow> (event list \<Rightarrow> bool) \<Rightarrow> ('h, 's) irq_state_scheme \<Rightarrow> bool" where
  "answered E pending s \<longleftrightarrow>
     (\<forall>h. pending h \<longrightarrow>
        (\<exists>k. ack_reply E h = Some k \<and> (my_private E s k \<noteq> None \<or> shared_irq_handlers s k \<noteq> None)))"

lemma handled_trans [trans]: "handled s t \<Longrightarrow> handled t u \<Longrightarrow> handled s u"
  by (cases s rule: alarm_state.cases_scheme, cases t rule: alarm_state.cases_scheme,
      cases u rule: alarm_state.cases_scheme) (simp add: handled_def private_table_def)

lemma handled_traced: "handled s (s\<lparr>trace := h\<rparr>)"
  by (simp add: handled_def private_table_def split: option.split)

lemma os_ready_traced:
  fixes s :: "('h, 's) alarm_state_scheme"
  shows "os_ready E s \<Longrightarrow> os_ready E (s\<lparr>trace := h\<rparr>)"
  by (rule os_ready_handled [OF handled_traced])

lemma answered_handled: "handled s t \<Longrightarrow> answered E pending t \<longleftrightarrow> answered E pending s"
  by (simp add: answered_def handled_same)

lemma stays_quiet:
  assumes "stays quiet F s t"
  obtains es where "trace t = trace s @ es" "reads es = 0" "gather written (trace t) = gather written (trace s)"
proof -
  from assms obtain es where es: "trace t = trace s @ es" "list_all quiet es" by (auto simp: stays_def)
  have "\<not> is_read e" if "e \<in> set es" for e
    using that es(2) by (auto simp: list_all_iff quiet_def split: event.splits con_event.splits)
  then have "reads es = 0" by (simp add: reads_def filter_empty_conv)
  with es(1) quiet_gather(2) [OF assms] that show thesis by blast
qed

section \<open>A byte that is typed is read\<close>

text \<open>One wait: the core sleeps, the interrupts of that time are handled, and the program is where it was.\<close>

lemma wait_for_irq_returns:
  assumes "console_ok E" and "os_ready E s" and "answered E pending s"
  shows "\<exists>t es. wait_for_irq (take_irq E b pending) s = (Inr (), t) \<and> handled s t \<and> os_ready E t \<and>
    trace t = trace s @ Cpu Wfi # es \<and> reads es = 0 \<and> gather written (trace t) = gather written (trace s)"
proof -
  let ?s = "s\<lparr>trace := trace s @ [Cpu Wfi]\<rparr>"
  have s: "handled s ?s" by (rule handled_traced)
  then have r: "os_ready E ?s" "answered E pending ?s"
    using assms(2,3) os_ready_handled answered_handled by blast+
  then obtain t where t: "take_irq E b pending ?s = (Inr (), t)" "handled ?s t" "os_ready E t"
    using take_irq_returns [OF assms(1) r(1), of pending b] unfolding answered_def by blast
  obtain es where "trace t = trace ?s @ es" "reads es = 0" "gather written (trace t) = gather written (trace ?s)"
    by (rule stays_quiet [OF returnsD [OF qui.stays_take_irq t(1)]])
  with t handled_trans [OF s t(2)] show ?thesis
    by (simp add: wait_for_irq_def runs gather_snoc)
qed

lemma console_read_now:
  assumes kb: "keyboard E typing w" and "os_ready E s" and "read_ready_reply E (trace s) = Inr True"
    and k: "k = reads (trace s)" "k < length typing"
  shows "\<exists>t. console_read E irqs 1 (Suc n) s = (Inr (Inr [typing ! k]), t) \<and> handled s t \<and>
    os_ready E t \<and> reads (trace t) = Suc k \<and> gather written (trace t) = gather written (trace s)"
proof -
  let ?t = "s\<lparr>trace := trace s @ [Con Uart_read_ready, Con (Uart_read 1)]\<rparr>"
  have "read_reply E (trace s @ [Con Uart_read_ready]) 1 = Inr [typing ! k]"
    using kb k by (simp add: keyboard_def)
  then have "console_read E irqs 1 (Suc n) s = (Inr (Inr [typing ! k]), ?t)"
    using assms(2,3) by (simp add: runs os_ready_def)
  with k(1) assms(2) handled_traced [of s] show ?thesis
    by (intro exI [of _ ?t]) (simp add: os_ready_traced gather_snoc2)
qed

lemma console_read_types:
  assumes ok: "console_ok E" and kb: "keyboard E typing w"
    and "os_ready E s" and "answered E pending s"
    and "trace s = h @ es" and "reads es = 0" and "reads h < length typing" and "w \<le> sleeps es + n"
  shows "\<exists>t. console_read E (take_irq E b pending) 1 (Suc n) s = (Inr (Inr [typing ! reads h]), t) \<and> handled s t \<and>
    os_ready E t \<and> reads (trace t) = Suc (reads h) \<and> gather written (trace t) = gather written (trace s)"
  using assms(3-8)
proof (induction n arbitrary: s es)
  case 0
  then have "read_ready_reply E (trace s) = Inr True" using kb by (simp add: keyboard_def)
  with 0 show ?case by (intro console_read_now [OF kb]) simp_all
next
  case (Suc n)
  obtain r where r: "read_ready_reply E (trace s) = Inr r" using kb unfolding keyboard_def by blast
  show ?case
  proof (cases r)
    case True
    with r Suc.prems show ?thesis by (intro console_read_now [OF kb]) simp_all
  next
    case False
    let ?s = "s\<lparr>trace := trace s @ [Con Uart_read_ready]\<rparr>"
    have s: "os_ready E ?s" "answered E pending ?s" "handled s ?s"
      using Suc.prems(1,2) by (simp_all add: os_ready_traced handled_traced answered_handled [OF handled_traced])
    from wait_for_irq_returns [OF ok s(1,2), of b] obtain t fs where
      t: "wait_for_irq (take_irq E b pending) ?s = (Inr (), t)" "handled ?s t" "os_ready E t"
      and fs: "trace t = trace ?s @ Cpu Wfi # fs" "reads fs = 0"
      and out: "gather written (trace t) = gather written (trace ?s)" by blast
    let ?es = "es @ Con Uart_read_ready # Cpu Wfi # fs"
    have "\<exists>u. console_read E (take_irq E b pending) 1 (Suc n) t = (Inr (Inr [typing ! reads h]), u) \<and> handled t u \<and>
        os_ready E u \<and> reads (trace u) = Suc (reads h) \<and> gather written (trace u) = gather written (trace t)"
      using Suc.prems s(2) fs by (intro Suc.IH [of t ?es] t(3)) (simp_all add: answered_handled [OF t(2)])
    moreover have "console_read E (take_irq E b pending) 1 (Suc (Suc n)) s = console_read E (take_irq E b pending) 1 (Suc n) t"
      using r False Suc.prems(1) t(1) by (subst console_read.simps(2)) (simp add: runs os_ready_def del: console_read.simps)
    moreover have "gather written (trace t) = gather written (trace s)" using out by (simp add: gather_snoc)
    ultimately show ?thesis using handled_trans [OF handled_trans [OF s(3) t(2)]] by auto
  qed
qed

section \<open>A line that is typed is read\<close>

text \<open>The shell is waiting for the rest \<open>cs\<close> of what is typed.\<close>

definition listening ::
  "'e irq_env_scheme \<Rightarrow> u8 list \<Rightarrow> (event list \<Rightarrow> bool) \<Rightarrow> u8 list \<Rightarrow> ('h, 's) alarm_state_scheme \<Rightarrow> bool" where
  "listening E typing pending cs s \<longleftrightarrow>
     os_ready E s \<and> answered E pending s \<and> drop (reads (trace s)) typing = cs"

lemma listening_handled:
  assumes "listening E typing pending cs s" and "handled s t" and "drop (reads (trace t)) typing = ds"
  shows "listening E typing pending ds t"
  using assms by (auto simp: listening_def answered_handled intro: os_ready_handled)

lemma read_char_types:
  assumes "console_ok E" and "keyboard E typing w" and "w < waits" and "listening E typing pending (c # cs) s"
  shows "\<exists>t. read_char E (take_irq E b pending) waits s = (Inr c, t) \<and> handled s t \<and>
    listening E typing pending cs t \<and> gather written (trace t) = gather written (trace s)"
proof -
  let ?k = "reads (trace s)"
  from assms(4) have s: "os_ready E s" "answered E pending s" and d: "drop ?k typing = c # cs"
    by (simp_all add: listening_def)
  have k: "?k < length typing" using d by (metis drop_all leI list.distinct(1))
  have c: "typing ! ?k = c" and cs: "drop (Suc ?k) typing = cs"
    using d k by (simp_all add: Cons_nth_drop_Suc [symmetric])
  from assms(3) obtain n where n: "waits = Suc n" "w \<le> n" by (cases waits) auto
  then have "\<exists>t. console_read E (take_irq E b pending) 1 (Suc n) s = (Inr (Inr [typing ! ?k]), t) \<and> handled s t \<and>
      os_ready E t \<and> reads (trace t) = Suc ?k \<and> gather written (trace t) = gather written (trace s)"
    by (intro console_read_types [OF assms(1,2) s, where es = "[]"]) (simp_all add: k)
  then obtain t where t: "console_read E (take_irq E b pending) 1 (Suc n) s = (Inr (Inr [c]), t)" "handled s t"
    "reads (trace t) = Suc ?k" "gather written (trace t) = gather written (trace s)" unfolding c by blast
  moreover from t(1) have "read_char E (take_irq E b pending) waits s = (Inr c, t)"
    unfolding n by (simp add: read_char_def runs del: console_read.simps)
  ultimately show ?thesis using listening_handled [OF assms(4), of t] cs by auto
qed

lemma con_bytes_types:
  assumes "console_ok E" and "listening E typing pending cs s"
  shows "\<exists>t. con_bytes E bs s = (Inr (), t) \<and> handled s t \<and> listening E typing pending cs t \<and>
    gather written (trace t) = gather written (trace s) @ bs"
proof -
  let ?t = "s\<lparr>trace := trace s @ [Con (Con_bytes bs)]\<rparr>"
  have "con_bytes E bs s = (Inr (), ?t)"
    using assms by (intro con_bytes_run) (simp_all add: listening_def os_ready_def)
  moreover have "listening E typing pending cs ?t"
    using assms(2) by (rule listening_handled [OF _ handled_traced]) (use assms(2) in \<open>simp add: listening_def\<close>)
  ultimately show ?thesis by (auto simp: handled_traced gather_snoc)
qed

text \<open>A line of the text, before its line break, as the rest of a line that has begun with \<open>line\<close>.\<close>

definition line_body :: "u8 list \<Rightarrow> u8 list \<Rightarrow> bool" where
  "line_body line body \<longleftrightarrow>
     0x0D \<notin> set body \<and> 0x0A \<notin> set body \<and> (line = [] \<longrightarrow> EOF \<notin> set (takeWhile is_ascii_control body)) \<and>
     length line + length (printable body) \<le> LINE_CAPACITY"

lemma line_body_Cons:
  assumes "line_body line (c # body)"
  shows "c \<noteq> 0x0D" "c \<noteq> 0x0A" "\<not> (c = EOF \<and> line = [])"
    "is_ascii_control c \<Longrightarrow> line_body line body"
    "\<not> is_ascii_control c \<Longrightarrow> length line < LINE_CAPACITY \<and> line_body (line @ [c]) body"
  using assms by (auto simp: line_body_def printable_def)

lemma read_line_types:
  assumes ok: "console_ok E" and kb: "keyboard E typing w" and w: "w < waits" and nl: "nl = 0x0D \<or> nl = 0x0A"
    and "listening E typing pending (body @ nl # rest) s" and "line_body line body" and "length body < n"
  shows "\<exists>t. read_line E (take_irq E b pending) waits n line s = (Inr (line @ printable body), t) \<and> handled s t \<and>
    listening E typing pending rest t \<and>
    gather written (trace t) = gather written (trace s) @ printable body @ [0x0D, 0x0A]"
  using assms(5-7)
proof (induction body arbitrary: n line s)
  case Nil
  then obtain m where n: "n = Suc m" by (cases n) auto
  from Nil read_char_types [OF ok kb w] obtain t where
    t: "read_char E (take_irq E b pending) waits s = (Inr nl, t)" "handled s t" "listening E typing pending rest t"
      "gather written (trace t) = gather written (trace s)" by fastforce
  from con_bytes_types [OF ok t(3), of "[0x0D, 0x0A]"] obtain u where
    "con_bytes E [0x0D, 0x0A] t = (Inr (), u)" "handled t u" "listening E typing pending rest u"
      "gather written (trace u) = gather written (trace t) @ [0x0D, 0x0A]" by blast
  with t nl show ?case unfolding n by (auto simp: runs printable_def intro: handled_trans)
next
  case (Cons c body)
  then obtain m where n: "n = Suc m" "length body < m" by (cases n) auto
  note c = line_body_Cons [OF Cons.prems(2)]
  from Cons.prems(1) read_char_types [OF ok kb w] obtain t where
    t: "read_char E (take_irq E b pending) waits s = (Inr c, t)" "handled s t"
      "listening E typing pending (body @ nl # rest) t" "gather written (trace t) = gather written (trace s)" by fastforce
  show ?case
  proof (cases "is_ascii_control c")
    case True
    from Cons.IH [OF t(3) c(4) [OF True] n(2)] t c(1-3) True show ?thesis
      unfolding n by (auto simp: runs printable_def intro: handled_trans)
  next
    case False
    from con_bytes_types [OF ok t(3), of "[c]"] obtain u where
      u: "con_bytes E [c] t = (Inr (), u)" "handled t u" "listening E typing pending (body @ nl # rest) u"
        "gather written (trace u) = gather written (trace t) @ [c]" by blast
    note h = handled_trans [OF t(2) u(2)]
    from Cons.IH [OF u(3) _ n(2), of "line @ [c]"] t u c(1-3) c(5) [OF False] False show ?thesis
      unfolding n by (auto simp: runs printable_def array_push_def intro: handled_trans [OF h])
  qed
qed


section \<open>Lines that are too long\<close>

lemma read_line_overflows:
  assumes ok: "console_ok E" and kb: "keyboard E typing w" and w: "w < waits"
    and "listening E typing pending (body @ rest) s" and "0x0D \<notin> set body" and "0x0A \<notin> set body"
    and "line = [] \<longrightarrow> EOF \<notin> set (takeWhile is_ascii_control body)" and "length line \<le> LINE_CAPACITY"
    and "LINE_CAPACITY < length line + length (printable body)" and "length body \<le> n"
  shows "\<exists>t. read_line E (take_irq E b pending) waits n line s = (Inl (Panic Capacity_exceeded), t) \<and> handled s t \<and>
    os_ready E t \<and>
    gather written (trace t) = gather written (trace s) @ take (Suc LINE_CAPACITY - length line) (printable body)"
  using assms(4-)
proof (induction body arbitrary: n line s)
  case Nil
  then show ?case by (simp add: printable_def)
next
  case (Cons c body)
  then obtain m where n: "n = Suc m" "length body \<le> m" by (cases n) auto
  from Cons.prems(2,3) have c: "c \<noteq> 0x0D" "c \<noteq> 0x0A" by auto
  have eof: "\<not> (c = EOF \<and> line = [])" using Cons.prems(4) by (auto simp: is_ascii_control_def EOF_def)
  from Cons.prems(1) read_char_types [OF ok kb w] obtain t where
    t: "read_char E (take_irq E b pending) waits s = (Inr c, t)" "handled s t"
      "listening E typing pending (body @ rest) t" "gather written (trace t) = gather written (trace s)" by fastforce
  show ?case
  proof (cases "is_ascii_control c")
    case True
    have "printable (c # body) = printable body" using True by (simp add: printable_def)
    with Cons.IH [OF t(3) _ _ _ _ _ n(2), of line] Cons.prems t c eof True show ?thesis
      unfolding n by (auto simp: runs intro: handled_trans)
  next
    case False
    have p: "printable (c # body) = c # printable body" using False by (simp add: printable_def)
    from con_bytes_types [OF ok t(3), of "[c]"] obtain u where
      u: "con_bytes E [c] t = (Inr (), u)" "handled t u" "listening E typing pending (body @ rest) u"
        "gather written (trace u) = gather written (trace t) @ [c]" by blast
    note h = handled_trans [OF t(2) u(2)]
    have step: "read_line E (take_irq E b pending) waits n line s =
        bind_io (lift_io (array_push LINE_CAPACITY line c)) (read_line E (take_irq E b pending) waits m) u"
      using t(1) u(1) c eof False unfolding n by (auto simp: runs)
    show ?thesis
    proof (cases "length line < LINE_CAPACITY")
      case True
      with Cons.IH [OF u(3) _ _ _ _ _ n(2), of "line @ [c]"] Cons.prems step t(4) u(4) p show ?thesis
        by (auto simp: runs array_push_def Suc_diff_le intro: handled_trans [OF h])
    next
      case False
      with Cons.prems(5) have "length line = LINE_CAPACITY" by simp
      with step u(3) h t(4) u(4) p show ?thesis
        by (auto simp: bind_io_def lift_io_def array_push_def listening_def)
    qed
  qed
qed

text \<open>C37: a line of more than 128 printable characters is not refused but ends the system. If the text that is typed goes
  on with characters without a line break of which more than 128 are printable, \<^verbatim>\<open>read_line\<close> echoes 129 of them and then
  panics, whatever interrupts came in; and the panic handler writes the panic and powers the machine off, over the
  conduit of the device tree. Assumed: each byte arrives after \<open>w\<close> waits at most, the console writes, every interrupt
  has a handler, an end of file character does not come first, and the firmware switches off when told to.\<close>

theorem long_line_panics:
  assumes "console_ok E" and "keyboard E typing w" and "w < waits" and "os_ready E s" and "answered E pending s"
    and "drop (reads (trace s)) typing = body @ rest" and "0x0D \<notin> set body" and "0x0A \<notin> set body"
    and "EOF \<notin> set (takeWhile is_ascii_control body)" and "128 < length (printable body)" and "length body \<le> n"
    and off: "\<And>h. system_off_reply E h (off_conduit s) = None"
  shows "\<exists>t u. read_line E (take_irq E b pending) waits n [] s = (Inl (Panic Capacity_exceeded), t) \<and>
    gather written (trace t) = gather written (trace s) @ take 129 (printable body) \<and>
    run_with_panic E (read_line E (take_irq E b pending) waits n []) s = (Inl Powered_off, u) \<and>
    trace u = trace t @ [Con (Panic_line Capacity_exceeded), Psci (Psci_system_off (off_conduit s))]"
proof -
  have "listening E typing pending (body @ rest) s" using assms(4-6) by (simp add: listening_def)
  from read_line_overflows [OF assms(1-3) this assms(7,8), of "[]" n b] assms(9-11) obtain t where
    t: "read_line E (take_irq E b pending) waits n [] s = (Inl (Panic Capacity_exceeded), t)" "handled s t" "os_ready E t"
      "gather written (trace t) = gather written (trace s) @ take 129 (printable body)"
    by (auto simp: LINE_CAPACITY_def)
  let ?u = "t\<lparr>trace := trace t @ [Con (Panic_line Capacity_exceeded)]\<rparr>"
  have c: "off_conduit ?u = off_conduit s" using handled_same [OF t(2)] by (simp add: off_conduit_def)
  have "console_set t" "CONSOLE_lock \<notin> set (held t)" using t(3) by (simp_all add: os_ready_def)
  then have "run_with_panic E (read_line E (take_irq E b pending) waits n []) s = power_off E ?u"
    using t(1) by (simp add: run_with_panic_def panic_handler_run)
  also have "\<dots> = (Inl Powered_off, ?u\<lparr>trace := trace ?u @ [Psci (Psci_system_off (off_conduit ?u))]\<rparr>)"
    by (rule power_off_powered) (simp add: c [simplified] off)
  finally show ?thesis using t c by (auto simp: append_assoc)
qed

section \<open>A session\<close>

text \<open>Calls that leave the shell listening.\<close>

lemma listening_traced:
  assumes "listening E typing pending cs s" and "reads es = 0"
  shows "listening E typing pending cs (s\<lparr>trace := trace s @ es\<rparr>)"
  by (rule listening_handled [OF assms(1) handled_traced]) (use assms in \<open>simp add: listening_def\<close>)

lemma listening_free: "listening E typing pending cs s \<Longrightarrow> CONSOLE_lock \<notin> set (held s)"
  by (simp add: listening_def os_ready_def)

lemma listening_con_fmt:
  assumes "console_ok E" and "listening E typing pending cs s"
  shows "wpre (con_fmt E l as) (\<lambda>_. listening E typing pending cs) (\<lambda>_ _. False) s"
  using assms listening_free [OF assms(2)] by (simp add: wp console_okD listening_traced)

lemma listening_log:
  assumes "console_ok E" and "listening E typing pending cs s"
  shows "wpre (log E lvl l as) (\<lambda>_. listening E typing pending cs) (\<lambda>_ _. False) s"
  using assms listening_free [OF assms(2)] by (simp add: wpre_log console_okD listening_traced)

lemma listening_for_each:
  assumes "\<And>x s. x \<in> set xs \<Longrightarrow> listening E typing pending cs s \<Longrightarrow>
      wpre (f x) (\<lambda>_. listening E typing pending cs) (\<lambda>_ _. False) s"
    and "listening E typing pending cs s"
  shows "wpre (for_each xs f) (\<lambda>_. listening E typing pending cs) (\<lambda>_ _. False) s"
  using assms
proof (induction xs arbitrary: s)
  case (Cons x xs)
  have "wpre (for_each xs f) (\<lambda>_. listening E typing pending cs) (\<lambda>_ _. False) t"
    if "listening E typing pending cs t" for t
    by (rule Cons.IH [OF _ that], rule Cons.prems(1)) simp_all
  with Cons.prems(1) [of x, OF _ Cons.prems(2)] show ?case
    by (auto simp: wpre_bind elim!: wpre_mono)
qed (simp add: wp)

text \<open>Lines that only print: those that are not text, those that name no command, and \<^verbatim>\<open>date\<close>, \<^verbatim>\<open>dtdump\<close> and \<^verbatim>\<open>help\<close>.\<close>

definition prints_only :: "u8 list \<Rightarrow> bool" where
  "prints_only line \<longleftrightarrow>
     utf8_valid line \<longrightarrow>
       hd (split_on 0x20 line) \<notin> set (map ascii
         [''alarm'', ''exit'', ''sgi'', ''lsdev'', ''lspci'', ''vcat'', ''cpus'', ''start_cpu''])"

lemma run_line_prints:
  assumes ok: "console_ok E" and s: "listening E typing pending cs s" and "line \<noteq> [EOF]" and "prints_only line"
  shows "wpre (run_line E A irqs n line) (\<lambda>goes t. goes \<and> listening E typing pending cs t) (\<lambda>_ _. False) s"
proof -
  have fmt: "wpre (bind_io (con_fmt E l as) (\<lambda>_. return_io True))
      (\<lambda>goes t. goes \<and> listening E typing pending cs t) (\<lambda>_ _. False) s"
    if "listening E typing pending cs s" for l as s
    using listening_con_fmt [OF ok that] by (auto simp: wp elim!: wpre_mono)
  have "listening E typing pending cs (s\<lparr>trace := trace s @ [Rtc Rtc_get_time]\<rparr>)"
    using s by (rule listening_traced) simp
  from fmt [OF this] have date: "wpre (bind_io (date E R) (\<lambda>_. return_io True))
      (\<lambda>goes t. goes \<and> listening E typing pending cs t) (\<lambda>_ _. False) s" for R
    by (simp add: date_def rtc_get_time_def wpre_bind wpre_call)
  have usage: "wpre (bind_io (shell_help E) (\<lambda>_. return_io True))
      (\<lambda>goes t. goes \<and> listening E typing pending cs t) (\<lambda>_ _. False) s"
    using listening_for_each [OF listening_con_fmt [OF ok] s, of help_lines "\<lambda>l. l" "\<lambda>_. []"]
    by (auto simp: shell_help_def wp elim!: wpre_mono)
  obtain c args where sp: "split_on 0x20 line = c # args"
    using split_on_nonempty by (cases "split_on 0x20 line") auto
  show ?thesis
    using assms(3,4) fmt [OF s] date usage s
    by (auto simp: run_line_def sp run_command_def prints_only_def dtdump_def Let_def wpre_return)
qed

lemma read_line_listens:
  assumes "console_ok E" and "keyboard E typing w" and "w < waits" and "nl = 0x0D \<or> nl = 0x0A"
    and "listening E typing pending (body @ nl # rest) s" and "line_body [] body" and "length body < n"
  shows "wpre (read_line E (take_irq E b pending) waits n [])
    (\<lambda>r t. r = printable body \<and> listening E typing pending rest t) (\<lambda>_ _. False) s"
  using read_line_types [OF assms, of b] by (auto simp: wpre_def)

lemma printable_not_EOF: "printable body \<noteq> [EOF]"
proof
  assume "printable body = [EOF]"
  then have "EOF \<in> set (printable body)" by simp
  then show False by (simp add: printable_def)
qed

text \<open>A session: lines that only print, then \<^verbatim>\<open>exit\<close>.\<close>

definition session_line :: "nat \<Rightarrow> u8 list \<Rightarrow> bool" where
  "session_line n body \<longleftrightarrow> line_body [] body \<and> prints_only (printable body) \<and> length body < n"

definition session_text :: "u8 list list \<Rightarrow> u8 list" where
  "session_text bodies = concat (map (\<lambda>body. body @ [0x0D]) (bodies @ [ascii ''exit'']))"

lemma exit_line:
  "line_body [] (ascii ''exit'')" "printable (ascii ''exit'') = ascii ''exit''" "length (ascii ''exit'') = 4"
  "run_line E A irqs n (ascii ''exit'') = return_io False"
  by (simp_all add: line_body_def printable_def is_ascii_control_def LINE_CAPACITY_def EOF_def run_line_def
      run_command_def ascii_def)

text \<open>One turn of the loop.\<close>

lemma shell_turn:
  assumes ok: "console_ok E" and kb: "keyboard E typing w" and "w < n"
    and s: "listening E typing pending (body @ 0x0D # rest) s" and body: "line_body [] body" "length body < n"
    and run: "\<And>t. listening E typing pending rest t \<Longrightarrow>
      wpre (bind_io (run_line E A (take_irq E b pending) n (printable body))
        (\<lambda>goes. if goes then shell_loop E A (take_irq E b pending) n k else return_io ())) Q (\<lambda>_ _. False) t"
  shows "wpre (shell_loop E A (take_irq E b pending) n (Suc k)) Q (\<lambda>_ _. False) s"
proof -
  have "wpre (bind_io (read_line E (take_irq E b pending) n n []) (\<lambda>line.
      bind_io (run_line E A (take_irq E b pending) n line)
        (\<lambda>goes. if goes then shell_loop E A (take_irq E b pending) n k else return_io ()))) Q (\<lambda>_ _. False) t"
    if "listening E typing pending (body @ 0x0D # rest) t" for t
    unfolding wpre_bind [of "read_line E (take_irq E b pending) n n []"]
    by (rule wpre_mono [OF read_line_listens [OF ok kb assms(3) _ that body]]) (auto intro: run)
  then show ?thesis
    unfolding shell_loop.simps wpre_bind [of "con_fmt E _ _"]
    by (intro wpre_mono [OF listening_con_fmt [OF ok s]]) auto
qed

lemma shell_loop_ends:
  fixes s :: "(irq_handler, 's) sec_state_scheme"
  assumes ok: "console_ok E" and kb: "keyboard E typing w" and n: "w < n" "4 < n"
    and "listening E typing pending (session_text bodies @ rest) s" and "list_all (session_line n) bodies" and "length bodies < k"
  shows "wpre (shell_loop E A (take_irq E b pending) n k) (\<lambda>_. listening E typing pending rest) (\<lambda>_ _. False) s"
  using assms(5-7)
proof (induction bodies arbitrary: k s)
  case Nil
  then obtain m where k: "k = Suc m" by (cases k) auto
  show ?case
    unfolding k
  proof (rule shell_turn [OF ok kb n(1) _ exit_line(1)])
    show "listening E typing pending (ascii ''exit'' @ 0x0D # rest) s"
      using Nil by (simp add: session_text_def)
  qed (simp_all add: exit_line n wp)
next
  case (Cons body bodies)
  then obtain m where k: "k = Suc m" "length bodies < m" by (cases k) auto
  have body: "line_body [] body" "prints_only (printable body)" "length body < n" and bodies: "list_all (session_line n) bodies"
    using Cons.prems(2) by simp_all (simp_all add: session_line_def)
  show ?case
    unfolding k
  proof (rule shell_turn [OF ok kb n(1) _ body(1,3)])
    show "listening E typing pending (body @ 0x0D # session_text bodies @ rest) s"
      using Cons.prems(1) by (simp add: session_text_def)
  next
    fix t :: "(irq_handler, 's) sec_state_scheme"
    assume t: "listening E typing pending (session_text bodies @ rest) t"
    show "wpre (bind_io (run_line E A (take_irq E b pending) n (printable body))
        (\<lambda>goes. if goes then shell_loop E A (take_irq E b pending) n m else return_io ()))
        (\<lambda>_. listening E typing pending rest) (\<lambda>_ _. False) t"
      unfolding wpre_bind
      by (rule wpre_mono [OF run_line_prints [OF ok t printable_not_EOF body(2)]]) (auto intro: Cons.IH bodies k)
  qed
qed

text \<open>Before the loop, the alarm's handler is registered; after it, it is removed.\<close>

lemma irq_setup_listens:
  assumes "gic_ok E" and "gic_set s" and "GIC_lock \<notin> set (held s)" and "my_private E s (RTC_IRQ b) = None"
    and s: "os_ready E s" "drop (reads (trace s)) typing = cs"
    and ack: "\<And>h. pending h \<Longrightarrow> \<exists>k. ack_reply E h = Some k \<and>
      (k = RTC_IRQ b \<or> my_private E s k \<noteq> None \<or> shared_irq_handlers s k \<noteq> None)"
  shows "wpre (irq_setup E b) (\<lambda>_. listening E typing pending cs) (\<lambda>_ _. False) (s :: (irq_handler, 's) alarm_state_scheme)"
proof -
  obtain tables i where at: "core_at E s tables i" and ready: "irq_ready E s"
    using s(1) by (auto simp: os_ready_def irq_ready_def)
  note mine = my_private_core_at [OF at]
  have none: "(tables ! i) (RTC_IRQ b) = None" using assms(4) mine by simp
  let ?g = "s\<lparr>held := GIC_lock # held s\<rparr>"
  let ?t = "\<lambda>h. s\<lparr>private_irq_handlers := Some tables,
    shared_irq_handlers := (shared_irq_handlers s)(RTC_IRQ b \<mapsto> Alarm_irq_handle), trace := h\<rparr>"
  have g: "core_at E ?g tables i" "irq_ready E ?g" and t: "core_at E (?t h) tables i" for h
    using at ready by (simp_all add: core_at_def irq_ready_def)
  have "os_ready E (?t h)" for h using s(1) t [of h] by (auto simp: os_ready_def irq_ready_def logs_def)
  moreover have "answered E pending (?t h)" for h
    using ack my_private_core_at [OF t] unfolding answered_def mine by fastforce
  ultimately have "listening E typing pending cs (?t h)" if "reads h = reads (trace s)" for h
    using s(2) that by (simp add: listening_def)
  moreover have "gic_reply E h ev = Inr ()" for h ev using assms(1) by (auto simp: gic_ok_def)
  ultimately show ?thesis
    using assms(2,3) none by (simp add: irq_setup_def wp set_shared_run [OF g(2,1)])
qed

lemma log_run_traced:
  assumes "console_ok E" and "CONSOLE_lock \<notin> set (held s)"
  shows "\<exists>es. log E lvl l as s = (Inr (), s\<lparr>trace := trace s @ es\<rparr>) \<and> reads es = 0"
proof (cases "logs lvl s")
  case True
  with assms have "log E lvl l as s = (Inr (), s\<lparr>trace := trace s @ [Con (Log_line lvl l as)]\<rparr>)"
    by (intro wpre_eqI) (simp add: wpre_log console_okD)
  then show ?thesis by (intro exI [of _ "[Con (Log_line lvl l as)]"]) simp
next
  case False
  with assms have "log E lvl l as s = (Inr (), s)" by (intro wpre_eqI) (simp add: wpre_log)
  then show ?thesis by (intro exI [of _ "[]"]) simp
qed

lemma irq_ready_shared: "irq_ready E (s\<lparr>shared_irq_handlers := m\<rparr>) = irq_ready E s"
  by (simp add: irq_ready_def core_at_def private_table_def logs_def)

lemma shell_session:
  fixes s :: "(irq_handler, 's) sec_state_scheme"
  assumes ok: "console_ok E" and gic: "gic_ok E" and kb: "keyboard E typing w"
    and n: "w < n" "4 < n" "length bodies < n" and lines: "list_all (session_line n) bodies"
    and s: "os_ready E s" "gic_set s" "GIC_lock \<notin> set (held s)" "my_private E s (RTC_IRQ (arg_board A)) = None"
    and typed: "drop (reads (trace s)) typing = session_text bodies @ rest"
    and ack: "\<And>h. pending h \<Longrightarrow> \<exists>k. ack_reply E h = Some k \<and>
      (k = RTC_IRQ (arg_board A) \<or> my_private E s k \<noteq> None \<or> shared_irq_handlers s k \<noteq> None)"
  shows "\<exists>t. shell_main E A (take_irq E b pending) n s = (Inr (), t) \<and> drop (reads (trace t)) typing = rest \<and>
    os_ready E t"
proof -
  let ?L = "listening E typing pending"
  obtain es where log: "log E Info ''Configuring IRQs...'' [] s = (Inr (), s\<lparr>trace := trace s @ es\<rparr>)" "reads es = 0"
    using log_run_traced [OF ok] s(1) by (fastforce simp: os_ready_def)
  let ?l = "s\<lparr>trace := trace s @ es\<rparr>"
  let ?s = "?l\<lparr>trace := trace ?l @ [Gic (Gicc_set_priority_mask 0xff)]\<rparr>"
  have begins: "wpre (irq_setup E (arg_board A)) (\<lambda>_. ?L (session_text bodies @ rest)) (\<lambda>_ _. False) ?s"
    using s typed log(2) ack by (intro irq_setup_listens [OF gic]) (simp_all)
  have en: "wpre irq_enable (\<lambda>_. ?L cs) (\<lambda>_ _. False) t" if "?L cs t" for cs and t :: "(irq_handler, 's) sec_state_scheme"
    using that by (simp add: irq_enable_def wp listening_def answered_def)
  have rem: "wpre (irq_remove E (arg_board A)) (\<lambda>_ u. drop (reads (trace u)) typing = rest \<and> os_ready E u) (\<lambda>_ _. False) t"
    if "?L rest t" for t :: "(irq_handler, 's) sec_state_scheme"
    using that by (simp add: irq_remove_def wp remove_shared_run listening_def os_ready_def irq_ready_shared)
  have "wpre (shell_main E A (take_irq E b pending) n) (\<lambda>_ u. drop (reads (trace u)) typing = rest \<and> os_ready E u) (\<lambda>_ _. False) s"
    unfolding shell_main_def wpre_block_Cons
    by (simp only: wpre_def [of "log E _ _ _"] log(1) sum.case prod.case Let_def wpre_emit)
      (rule wpre_then [OF begins], rule wpre_then [OF en], assumption,
        rule wpre_then [OF shell_loop_ends [OF ok kb n(1,2) _ lines n(3)]], assumption,
        rule wpre_then [OF rem], assumption, simp add: wp)
  then show ?thesis by (auto elim!: wpre_cases)
qed

text \<open>C11: a session ends. If what is typed after the prompt is any number of lines that only print, then \<^verbatim>\<open>exit\<close>,
  \<^verbatim>\<open>main\<close> of the shell returns: it has registered its interrupt handler, read and run all lines, and taken the handler
  away again, and nothing that was typed after \<^verbatim>\<open>exit\<close> has been consumed. Interrupts may come in at any wait, as long as each
  is the alarm's or has a handler already. Assumed: writes to the console and calls of the interrupt controller's driver
  succeed, each byte arrives after \<open>w\<close> waits at most, and at the start console, handler tables and controller can be used
  and the alarm's interrupt has no private handler.\<close>

theorem shell_session_ends:
  fixes s :: "(irq_handler, 's) sec_state_scheme"
  assumes ok: "console_ok E" and gic: "gic_ok E" and kb: "keyboard E typing w"
    and n: "w < n" "4 < n" "length bodies < n" and lines: "list_all (session_line n) bodies"
    and s: "os_ready E s" "gic_set s" "GIC_lock \<notin> set (held s)" "my_private E s (RTC_IRQ (arg_board A)) = None"
    and typed: "drop (reads (trace s)) typing = session_text bodies @ rest"
    and ack: "\<And>h. pending h \<Longrightarrow> \<exists>k. ack_reply E h = Some k \<and>
      (k = RTC_IRQ (arg_board A) \<or> my_private E s k \<noteq> None \<or> shared_irq_handlers s k \<noteq> None)"
  shows "\<exists>t. shell_main E A (take_irq E b pending) n s = (Inr (), t) \<and> drop (reads (trace t)) typing = rest \<and>
    shared_irq_handlers t = (shared_irq_handlers s)(RTC_IRQ (arg_board A) := None)"
  using shell_session [OF assms] shell_main_effect by metis

section \<open>Concrete runs\<close>

text \<open>A keyboard whose next byte is there once the core has slept since the last one, and the alarm's interrupt pending
  all the time.\<close>

definition ex_keys :: "u8 list \<Rightarrow> pci_env" where
  "ex_keys typing = ex_pci_env\<lparr>
     read_ready_reply := (\<lambda>h. Inr (Cpu Wfi \<in> set (takeWhile (\<lambda>e. reads [e] = 0) (rev h)))),
     read_reply := (\<lambda>h n. Inr (take n [typing ! reads h])),
     ack_reply := (\<lambda>_. Some (RTC_IRQ Qemu))\<rparr>"

lemma reads_none: "reads es = 0 \<longleftrightarrow> (\<forall>e \<in> set es. reads [e] = 0)"
  by (auto simp: reads_def filter_empty_conv)

lemma ex_keys_ok:
  "keyboard (ex_keys typing) typing 1" "console_ok (ex_keys typing)" "gic_ok (ex_keys typing)"
  "ack_reply (ex_keys typing) h = Some (RTC_IRQ Qemu)"
proof -
  have "Cpu Wfi \<in> set (takeWhile (\<lambda>e. reads [e] = 0) (rev (h @ es)))" if es: "reads es = 0" "1 \<le> sleeps es" for h es
  proof -
    have "Cpu Wfi \<in> set es" using es(2) by (auto simp: sleeps_def Suc_le_eq filter_empty_conv)
    moreover have "\<forall>e \<in> set es. reads [e] = 0" using es(1) reads_none [of es] by simp
    ultimately show ?thesis by (simp add: takeWhile_append)
  qed
  then show "keyboard (ex_keys typing) typing 1" by (simp add: keyboard_def ex_keys_def)
qed (simp_all add: console_ok_def gic_ok_def ex_keys_def ex_pci_env_def)

lemma ex_keys_ready: "os_ready (ex_keys typing) ex_sec_state" "my_private (ex_keys typing) ex_sec_state = Map.empty"
proof -
  have "core_at (ex_keys typing) ex_sec_state [Map.empty, Map.empty] 0"
    by (simp add: core_at_def private_table_def ex_sec_state_def cpu_count_in_def fdt_cpu_nodes_def
        ex_fdt_def numeral_2_eq_2 current_cpu_index_in_def mpidr_to_cpu_index_def cpu_id_def
        mpidr_affinity_def MPIDR_AFFINITY_MASK_def ex_keys_def ex_pci_env_def)
  then show "os_ready (ex_keys typing) ex_sec_state" "my_private (ex_keys typing) ex_sec_state = Map.empty"
    by (auto simp: os_ready_def irq_ready_def ex_sec_state_def logs_def less_eq_level_def dest: my_private_core_at)
qed


definition ex_long :: "u8 list" where
  "ex_long = replicate 200 0x61"

theorem long_line_panics_witness:
  "\<exists>t u. read_line (ex_keys ex_long) (take_irq (ex_keys ex_long) Qemu (\<lambda>_. True)) 2 200 []
      (ex_sec_state\<lparr>shared_irq_handlers := [RTC_IRQ Qemu \<mapsto> Alarm_irq_handle]\<rparr>) = (Inl (Panic Capacity_exceeded), t) \<and>
    gather written (trace t) = replicate 129 0x61 \<and>
    run_with_panic (ex_keys ex_long) (read_line (ex_keys ex_long) (take_irq (ex_keys ex_long) Qemu (\<lambda>_. True)) 2 200 [])
      (ex_sec_state\<lparr>shared_irq_handlers := [RTC_IRQ Qemu \<mapsto> Alarm_irq_handle]\<rparr>) = (Inl Powered_off, u) \<and>
    trace u = trace t @ [Con (Panic_line Capacity_exceeded), Psci (Psci_system_off Hvc)]"
proof -
  let ?E = "ex_keys ex_long"
  let ?s = "ex_sec_state\<lparr>shared_irq_handlers := [RTC_IRQ Qemu \<mapsto> Alarm_irq_handle]\<rparr>"
  have s: "os_ready ?E ?s" "answered ?E (\<lambda>_. True) ?s"
    using ex_keys_ready(1) by (simp_all add: os_ready_def irq_ready_def answered_def ex_keys_ok(4))
  have d: "drop (reads (trace ?s)) ex_long = ex_long @ []" by (simp add: ex_sec_state_def)
  have p: "printable ex_long = ex_long" by (simp add: printable_def ex_long_def is_ascii_control_def)
  have c: "(1 :: nat) < 2" "0x0D \<notin> set ex_long" "0x0A \<notin> set ex_long" "EOF \<notin> set (takeWhile is_ascii_control ex_long)"
    "128 < length (printable ex_long)" "length ex_long \<le> 200"
    unfolding p by (simp_all add: ex_long_def is_ascii_control_def EOF_def)
  have o: "off_conduit ?s = Hvc"
    by (simp add: off_conduit_def ex_sec_state_def psci_conduit_def smc_for_psci_fdt_def ex_fdt_def)
  have off: "system_off_reply ?E h (off_conduit ?s) = None" for h by (simp add: ex_keys_def ex_pci_env_def)
  have g: "gather written (trace ?s) = []" "take 129 ex_long = replicate 129 0x61"
    by (simp_all add: ex_sec_state_def gather_def ex_long_def)
  from long_line_panics [OF ex_keys_ok(2,1) c(1) s d c(2-6) off, of Qemu] show ?thesis
    unfolding p g o by simp
qed

theorem shell_session_ends_witness:
  "\<exists>t. shell_main (ex_keys (session_text [ascii ''help'', ascii ''hello''] @ [0x78])) ex_shell_args
      (take_irq (ex_keys (session_text [ascii ''help'', ascii ''hello''] @ [0x78])) Qemu (\<lambda>_. True)) 10 ex_sec_state = (Inr (), t)"
proof -
  let ?bodies = "[ascii ''help'', ascii ''hello'']"
  let ?E = "ex_keys (session_text ?bodies @ [0x78])"
  have lines: "list_all (session_line 10) ?bodies"
    by (simp add: session_line_def line_body_def printable_def is_ascii_control_def LINE_CAPACITY_def EOF_def prints_only_def
        ascii_def)
  have s: "gic_set ex_sec_state" "GIC_lock \<notin> set (held ex_sec_state)"
    "my_private ?E ex_sec_state (RTC_IRQ (arg_board ex_shell_args)) = None"
    "drop (reads (trace ex_sec_state)) (session_text ?bodies @ [0x78]) = session_text ?bodies @ [0x78]"
    by (simp_all add: ex_keys_ready(2)) (simp_all add: ex_sec_state_def)
  have "ack_reply ?E h = Some (RTC_IRQ (arg_board ex_shell_args))" for h
    using ex_keys_ok(4) by (simp add: ex_shell_args_def)
  then have ack: "\<exists>k. ack_reply ?E h = Some k \<and> (k = RTC_IRQ (arg_board ex_shell_args) \<or>
      my_private ?E ex_sec_state k \<noteq> None \<or> shared_irq_handlers ex_sec_state k \<noteq> None)" for h by blast
  have n: "1 < (10 :: nat)" "4 < (10 :: nat)" "length ?bodies < 10" by simp_all
  from shell_session_ends [OF ex_keys_ok(2,3,1) n lines ex_keys_ready(1) s, where pending = "\<lambda>_. True", OF ack, of Qemu]
  show ?thesis by blast
qed

end
