(* ===== verification/Ready.thy ===== *)
theory Ready
  imports Boot Typing
begin

text \<open>
  What booting establishes: the state that everything after it relies on. Each of the phases of \<^verbatim>\<open>main\<close> is shown to
  change exactly the statics that it is there to set, so the state in which the shell starts is known field by
  field from the state at reset.
\<close>

section \<open>Operations that leave every static alone\<close>

text \<open>The whole state but the trace. Finding devices, setting BARs and mapping memory keep it.\<close>

definition statics :: "'s io_state_scheme \<Rightarrow> 's io_state_scheme" where
  "statics s = s\<lparr>trace := []\<rparr>"

lemma statics_eq: "statics t = statics s \<longleftrightarrow> t = s\<lparr>trace := trace t\<rparr>"
  by (cases s rule: io_state.cases_scheme, cases t rule: io_state.cases_scheme) (auto simp: statics_def)

interpretation whole: map_view "\<lambda>_. True" statics
proof unfold_locales
  fix s t :: "'s io_state_scheme" and l
  show "statics t = statics (s\<lparr>held := l # held s\<rparr>) \<Longrightarrow> statics (t\<lparr>held := remove1 l (held t)\<rparr>) = statics s"
    by (cases s rule: io_state.cases_scheme, cases t rule: io_state.cases_scheme) (auto simp: statics_def)
  show "statics t = statics (s\<lparr>masked := True\<rparr>) \<Longrightarrow> statics (t\<lparr>masked := masked s\<rparr>) = statics s"
    by (cases s rule: io_state.cases_scheme, cases t rule: io_state.cases_scheme) (auto simp: statics_def)
qed (simp_all add: statics_def)

lemma whole_kept:
  assumes "returns (stays (\<lambda>_. True) statics) m" and "m s = (Inr x, t)"
  obtains h where "t = s\<lparr>trace := h\<rparr>"
  using whole.field_kept [OF assms] by (auto simp: statics_eq)

section \<open>The phases\<close>

lemma main_console_sets:
  assumes "main_console E B b x0 s = (Inr (fdt, rtc), t)" and "FDT s = None"
  obtains h where "t = s\<lparr>trace := h, console_set := True, logger := Some LOG_LEVEL, FDT := Some fdt\<rparr>"
proof -
  let ?first = "Con_fmt ''DemoOS starting at EL{}...'' [A_nat (unat (current_el E))]"
  from assms(1) obtain platform a1 a2 a3 a4 a5 a6 a7 a8 r where
    1: "platform_create E b s = (Inr platform, a1)"
    and 2: "call (\<lambda>h. write_reply E h ?first) (Con ?first) a1 = (Inr r, a2)"
    and 3: "console_init a2 = (Inr (), a3)" "logger_init LOG_LEVEL a3 = (Inr (Inr ()), a4)"
    and 4: "log E Info ''FDT address: {fdt_address:?}'' [A_u64 x0] a4 = (Inr (), a5)"
    and 5: "log E Info ''FDT size: {} bytes'' [A_nat (fdt_data_len B x0)] a5 = (Inr (), a6)"
    and 6: "log E Debug ''FDT: {fdt}'' [] a6 = (Inr (), a7)"
    and 7: "for_each [0 ..< fdt_reservations B x0] (\<lambda>i.
      log E Info ''Reserved memory: {reserved:?}'' [A_token i]) a7 = (Inr (), a8)"
    and 8: "fdt_call_once fdt a8 = (Inr (), t)"
    by (auto simp: main_console_def rets_bind rets_return rets_lift)
  have create: "returns (stays (\<lambda>_. True) statics) (platform_create E b)"
    by (cases b) (auto simp: qemu_create_def crosvm_create_def intro!: whole.find_rules)
  obtain h1 where h1: "a1 = s\<lparr>trace := h1\<rparr>" by (rule whole_kept [OF create 1])
  obtain h2 where h2: "a2 = a1\<lparr>trace := h2\<rparr>" by (rule whole_kept [OF whole.stays_call 2]) simp
  have a4: "a4 = a2\<lparr>console_set := True, logger := Some LOG_LEVEL\<rparr>"
    using 3 by (auto simp: console_init_def logger_init_def rets split: option.splits)
  obtain h5 h6 h7 h8 where "a5 = a4\<lparr>trace := h5\<rparr>" "a6 = a5\<lparr>trace := h6\<rparr>" "a7 = a6\<lparr>trace := h7\<rparr>" "a8 = a7\<lparr>trace := h8\<rparr>"
    by (rule whole_kept [OF whole.stays_log 4], rule whole_kept [OF whole.stays_log 5],
        rule whole_kept [OF whole.stays_log 6], rule whole_kept [OF sty.returns_for_each [OF whole.stays_log] 7]) blast
  with h1 h2 a4 8 assms(2) that [of h8] show thesis by (simp add: fdt_call_once_def rets)
qed

lemma main_pagetable_sets:
  fixes s :: "('h, 's) pt_state_scheme"
  assumes "main_pagetable E B fdt s = (Inr infos, t)" and "PAGETABLE s = None"
  obtains h m where "t = s\<lparr>trace := h, held := PAGE_HEAP_lock # HEAP_lock # held s, PAGETABLE := Some m\<rparr>"
proof -
  from assms(1) obtain a1 a2 a3 a4 a5 a6 m s1 s2 u u1 u2 u3 where
    pre: "init_heap B s = (Inr (), a1)" "log E Info ''Initialising page table...'' [] a1 = (Inr (), a2)"
      "leak_lock PAGE_HEAP_lock a2 = (Inr (), a3)"
      "add_to_heap (Page_heap_init (PAGE_HEAP_address B) (PAGE_HEAP_SIZE B)) a3 = (Inr (), a4)"
      "idmap_new E a4 = (Inr m, a5)"
      "log E Info ''IdMap size is {} GiB'' [A_u64 (idmap_size E m div (1024 * 1024 * 1024))] a5 = (Inr (), a6)"
      "map_fdt_regions E fdt m a6 = (Inr (), s1)"
    and roots: "find_pci_roots E fdt (idmap_size E m) s1 = (Inr infos, s2)"
    and maps: "for_each infos (map_ranges E m) s2 = (Inr (), u)"
    and logs: "log E Debug ''Page table: {idmap:?}'' [] u = (Inr (), u1)"
      "log E Info ''Activating page table...'' [] u1 = (Inr (), u2)"
    and act: "activate m u2 = (Inr (), u3)" and once: "pagetable_call_once m u3 = (Inr (), t)"
    by (auto simp: main_pagetable_def rets_bind rets_return)
  obtain h1 where a1: "a1 = s\<lparr>trace := h1, held := HEAP_lock # held s\<rparr>"
    using pre(1) by (auto simp: init_heap_def leak_lock_def add_to_heap_def rets)
  obtain h2 where a2: "a2 = a1\<lparr>trace := h2\<rparr>" by (rule whole_kept [OF whole.stays_log pre(2)])
  have a3: "a3 = a2\<lparr>held := PAGE_HEAP_lock # held a2\<rparr>" using pre(3) by (auto simp: leak_lock_def rets)
  obtain h4 h5 h6 h7 where pre': "a4 = a3\<lparr>trace := h4\<rparr>" "a5 = a4\<lparr>trace := h5\<rparr>" "a6 = a5\<lparr>trace := h6\<rparr>" "s1 = a6\<lparr>trace := h7\<rparr>"
    by (rule whole_kept [OF whole.stays_maps(5) pre(4)], rule whole_kept [OF whole.stays_maps(4) pre(5)],
        rule whole_kept [OF whole.stays_log pre(6)], rule whole_kept [OF whole.stays_map_fdt_regions pre(7)]) blast
  obtain h8 h9 g1 g2 h where "s2 = s1\<lparr>trace := h8\<rparr>" "u = s2\<lparr>trace := h9\<rparr>" "u1 = u\<lparr>trace := g1\<rparr>" "u2 = u1\<lparr>trace := g2\<rparr>"
    "u3 = u2\<lparr>trace := h\<rparr>"
    by (rule whole_kept [OF whole.stays_find_pci_roots roots],
        rule whole_kept [OF sty.returns_for_each [OF whole.stays_map_ranges] maps],
        rule whole_kept [OF whole.stays_log logs(1)], rule whole_kept [OF whole.stays_log logs(2)],
        rule whole_kept [OF whole.stays_maps(3) act]) blast
  with a1 a2 a3 pre' have u3: "u3 = s\<lparr>trace := h, held := PAGE_HEAP_lock # HEAP_lock # held s\<rparr>" by simp
  with once assms(2) have "t = s\<lparr>trace := h, held := PAGE_HEAP_lock # HEAP_lock # held s, PAGETABLE := Some m\<rparr>"
    by (simp add: pagetable_call_once_def rets)
  then show thesis by (rule that)
qed

lemma set_shared_sets:
  assumes "set_shared_irq_handler E k f s = (Inr r, t)"
    and "SHARED_IRQ_HANDLERS_lock \<notin> set (held s)" and "\<not> private_borrowed s" and "\<not> logs Trace s"
  obtains tables i where "core_at E s tables i" "(tables ! i) k = None"
    "t = s\<lparr>private_irq_handlers := Some tables, shared_irq_handlers := (shared_irq_handlers s)(k \<mapsto> f)\<rparr>"
proof -
  from set_shared_returned [OF assms(1)] obtain tables i where at: "core_at E s tables i" and none: "(tables ! i) k = None"
    by (auto simp: core_at_def)
  then have "irq_ready E s" using assms(2-4) by (auto simp: irq_ready_def)
  from set_shared_run [OF this at, of k f "\<lambda>_ u. u = s\<lparr>private_irq_handlers := Some tables,
      shared_irq_handlers := (shared_irq_handlers s)(k \<mapsto> f)\<rparr>" "\<lambda>_ _. True"] none
  have "wpre (set_shared_irq_handler E k f) (\<lambda>_ u. u = s\<lparr>private_irq_handlers := Some tables,
      shared_irq_handlers := (shared_irq_handlers s)(k \<mapsto> f)\<rparr>) (\<lambda>_ _. True) s" by simp
  from wpre_runs [OF this assms(1)] at none that show thesis by blast
qed

lemma setup_gic_registers:
  assumes "setup_gic E b s = (Inr u, t)"
  obtains h r where "set_shared_irq_handler E (CONSOLE_IRQ b) Console_handle_irq (s\<lparr>trace := h\<rparr>) = (Inr r, t)"
  using assms by (cases b) (auto simp: qemu_setup_gic_def crosvm_setup_gic_def gic_call_def rets_bind rets_call rets_lift rets_return)

lemma init_gic_sets:
  assumes "init_gic E (setup_gic E b) fdt s = (Inr u, t)" and "\<not> gic_set s"
    and "SHARED_IRQ_HANDLERS_lock \<notin> set (held s)" and "\<not> private_borrowed s" and "\<not> logs Trace s"
  obtains h tables i where "core_at E s tables i" "(tables ! i) (CONSOLE_IRQ b) = None"
    "t = s\<lparr>trace := h, private_irq_handlers := Some tables,
       shared_irq_handlers := (shared_irq_handlers s)(CONSOLE_IRQ b \<mapsto> Console_handle_irq), gic_set := True\<rparr>"
proof -
  have routing: "returns (stays (\<lambda>_. True) statics) (init_irq_routing E)"
    unfolding init_irq_routing_def by (auto intro!: whole.find_rules)
  have make: "returns (stays (\<lambda>_. True) statics) (make_gic E fdt)"
    unfolding make_gic_def by (auto intro!: whole.find_rules split: option.split)
  from assms(1) obtain a1 where a1: "init_irq_routing E s = (Inr (), a1)"
    and rest: "(if gic_set a1 then return_io () else
       bind_io (make_gic E fdt) (\<lambda>gic.
       bind_io (lift_io (expect_opt ''No GIC found in FDT'' gic)) (\<lambda>_.
       block_io [
         log E Debug ''gic.setup...'' [],
         emit (Gic (Gic_setup 0)),
         log E Debug ''Platform GIC setup'' [],
         setup_gic E b,
         modify_io (\<lambda>s. s\<lparr>gic_set := True\<rparr>)]))) a1 = (Inr u, t)"
    by (auto simp: init_gic_def rets_bind rets_gets)
  obtain h1 where h1: "a1 = s\<lparr>trace := h1\<rparr>" by (rule whole_kept [OF routing a1])
  with rest assms(2) obtain gic a2 a3 a4 a5 a6 where a: "make_gic E fdt a1 = (Inr gic, a2)"
    "log E Debug ''gic.setup...'' [] a2 = (Inr (), a3)" "emit (Gic (Gic_setup 0)) a3 = (Inr (), a4)"
    "log E Debug ''Platform GIC setup'' [] a4 = (Inr (), a5)" "setup_gic E b a5 = (Inr (), a6)" "t = a6\<lparr>gic_set := True\<rparr>"
    by (auto simp: rets_bind rets_lift rets_return rets_modify)
  obtain h2 h3 h4 h5 where "a2 = a1\<lparr>trace := h2\<rparr>" "a3 = a2\<lparr>trace := h3\<rparr>" "a4 = a3\<lparr>trace := h4\<rparr>" "a5 = a4\<lparr>trace := h5\<rparr>"
    by (rule whole_kept [OF make a(1)], rule whole_kept [OF whole.stays_log a(2)],
        rule whole_kept [OF whole.stays_emit [OF TrueI] a(3)], rule whole_kept [OF whole.stays_log a(4)]) blast
  with h1 have a5: "a5 = s\<lparr>trace := h5\<rparr>" by simp
  obtain h r where "set_shared_irq_handler E (CONSOLE_IRQ b) Console_handle_irq (s\<lparr>trace := h\<rparr>) = (Inr r, a6)"
    using a(5) unfolding a5 by (rule setup_gic_registers) simp
  then obtain tables i where "core_at E (s\<lparr>trace := h\<rparr>) tables i" "(tables ! i) (CONSOLE_IRQ b) = None"
    "a6 = s\<lparr>trace := h, private_irq_handlers := Some tables,
       shared_irq_handlers := (shared_irq_handlers s)(CONSOLE_IRQ b \<mapsto> Console_handle_irq)\<rparr>"
    by (rule set_shared_sets) (use assms in \<open>simp_all add: logs_def\<close>)
  with a(6) that [of tables i h] show thesis by (simp add: core_at_def private_table_def split: option.splits)
qed

lemma main_devices_sets:
  assumes "main_devices E V A32 A64 b fdt rtc infos s = (Inr r, t)" and "\<not> gic_set s"
    and "SHARED_IRQ_HANDLERS_lock \<notin> set (held s)" and "\<not> private_borrowed s" and "\<not> logs Trace s"
  obtains h tables i where "core_at E s tables i" "(tables ! i) (CONSOLE_IRQ b) = None"
    "t = s\<lparr>trace := h, private_irq_handlers := Some tables,
       shared_irq_handlers := (shared_irq_handlers s)(CONSOLE_IRQ b \<mapsto> Console_handle_irq), gic_set := True\<rparr>"
proof -
  from assms(1) obtain a1 a2 a3 a4 d d' roots where
    a: "log E Info ''Initialising GIC...'' [] s = (Inr (), a1)" "init_gic E (setup_gic E b) fdt a1 = (Inr (), a2)"
      "find_virtio_mmio_devices E V fdt (devices_new rtc) a2 = (Inr d, a3)"
      "map_io (init_pci E A32 A64) infos a3 = (Inr roots, a4)" "find_devices_on E V roots d a4 = (Inr d', t)"
    by (auto simp: main_devices_def rets_bind rets_return)
  obtain h1 where h1: "a1 = s\<lparr>trace := h1\<rparr>" by (rule whole_kept [OF whole.stays_log a(1)])
  obtain h2 tables i where g: "core_at E a1 tables i" "(tables ! i) (CONSOLE_IRQ b) = None"
    "a2 = a1\<lparr>trace := h2, private_irq_handlers := Some tables,
       shared_irq_handlers := (shared_irq_handlers a1)(CONSOLE_IRQ b \<mapsto> Console_handle_irq), gic_set := True\<rparr>"
    using a(2) by (rule init_gic_sets) (use assms h1 in \<open>simp_all add: logs_def\<close>)
  obtain h3 h4 h5 where "a3 = a2\<lparr>trace := h3\<rparr>" "a4 = a3\<lparr>trace := h4\<rparr>" "t = a4\<lparr>trace := h5\<rparr>"
    by (rule whole_kept [OF whole.stays_find_virtio_mmio a(3)],
        rule whole_kept [OF sty.returns_map_io [OF whole.stays_init_pci] a(4)],
        rule whole_kept [OF whole.stays_find_devices_on a(5)]) blast
  with h1 g that [of tables i h5] show thesis by (simp add: core_at_def private_table_def split: option.splits)
qed

section \<open>The state that booting establishes\<close>

text \<open>The statics when the first instruction of \<^verbatim>\<open>main\<close> runs.\<close>

definition reset_state :: "(irq_handler, 's) sec_state_scheme \<Rightarrow> bool" where
  "reset_state s \<longleftrightarrow>
     held s = [] \<and> FDT s = None \<and> PAGETABLE s = None \<and> shared_irq_handlers s = Map.empty \<and>
     private_irq_handlers s = None \<and> \<not> private_borrowed s \<and> \<not> gic_set s \<and> SECONDARY_STACKS s = Map.empty"

lemma private_table_fresh:
  assumes "core_at E s tables i" and "private_irq_handlers s = None"
  shows "tables ! i = Map.empty"
  using assms by (auto simp: core_at_def private_table_def cpu_count_in_def elim!: rbind.elims)

lemma boot_sets:
  fixes s :: "(irq_handler, 's) sec_state_scheme"
  assumes "reset_state s" and "main_console E B b x0 s = (Inr (fdt, rtc), s1)"
    and "main_pagetable E B fdt s1 = (Inr infos, s2)"
    and "main_devices E V A32 A64 b fdt rtc infos s2 = (Inr r, t)"
  shows "os_ready E t \<and> gic_set t \<and> held t = [PAGE_HEAP_lock, HEAP_lock] \<and> FDT t = Some fdt \<and> PAGETABLE t \<noteq> None \<and>
    shared_irq_handlers t = [CONSOLE_IRQ b \<mapsto> Console_handle_irq] \<and> my_private E t = Map.empty \<and>
    SECONDARY_STACKS t = Map.empty"
proof -
  obtain h1 where s1: "s1 = s\<lparr>trace := h1, console_set := True, logger := Some LOG_LEVEL, FDT := Some fdt\<rparr>"
    by (rule main_console_sets [OF assms(2)]) (use assms(1) in \<open>simp add: reset_state_def\<close>)
  obtain h2 m where s2: "s2 = s1\<lparr>trace := h2, held := PAGE_HEAP_lock # HEAP_lock # held s1, PAGETABLE := Some m\<rparr>"
    by (rule main_pagetable_sets [OF assms(3)]) (use assms(1) s1 in \<open>simp add: reset_state_def\<close>)
  have "\<not> gic_set s2" "SHARED_IRQ_HANDLERS_lock \<notin> set (held s2)" "\<not> private_borrowed s2" "\<not> logs Trace s2"
    using assms(1) s1 s2 by (simp_all add: reset_state_def logs_def LOG_LEVEL_def less_eq_level_def)
  from main_devices_sets [OF assms(4) this] obtain h tables i where at: "core_at E s2 tables i"
    and t: "t = s2\<lparr>trace := h, private_irq_handlers := Some tables,
       shared_irq_handlers := (shared_irq_handlers s2)(CONSOLE_IRQ b \<mapsto> Console_handle_irq), gic_set := True\<rparr>" by blast
  have "core_at E t tables i" using at t by (simp add: core_at_def private_table_def)
  moreover have "tables ! i = Map.empty"
    using private_table_fresh [OF at] assms(1) s1 s2 by (simp add: reset_state_def)
  ultimately have "my_private E t = Map.empty" "\<exists>tables i. core_at E t tables i"
    using my_private_core_at by fastforce+
  with assms(1) s1 s2 t show ?thesis
    by (simp add: reset_state_def os_ready_def irq_ready_def logs_def LOG_LEVEL_def less_eq_level_def)
qed

text \<open>C4: booting establishes what the rest of the program relies on. When the three phases before the shell have
  returned, from the state at reset, the console and the handler tables can be used, the interrupt controller
  and the page table are there, the device tree is the one found at the address given, the only locks still held are
  the two that guard the heaps' memory, the console's interrupt has its shared handler and no other interrupt has one,
  the core that booted has no private handlers, and no core has been given a stack.\<close>

theorem boot_ready:
  fixes s :: "(irq_handler, 's) sec_state_scheme"
  assumes "reset_state s" and "main_console E B b x0 s = (Inr (fdt, rtc), s1)"
    and "main_pagetable E B fdt s1 = (Inr infos, s2)"
    and "main_devices E V A32 A64 b fdt rtc infos s2 = (Inr r, t)"
  shows "os_ready E t \<and> gic_set t \<and> held t = [PAGE_HEAP_lock, HEAP_lock] \<and>
    FDT t = Some fdt \<and> fdt_from_raw B x0 = Inr fdt \<and> PAGETABLE t \<noteq> None \<and>
    shared_irq_handlers t = [CONSOLE_IRQ b \<mapsto> Console_handle_irq] \<and> my_private E t = Map.empty \<and>
    SECONDARY_STACKS t = Map.empty"
  using boot_sets [OF assms] main_console_fdt [OF assms(2)] assms(1) by (simp add: reset_state_def)

text \<open>A boot of QEMU's board, up to the shell.\<close>

lemma ex_boot:
  obtains s1 s2 s3 where
    "main_console (ex_typing keys) ex_boot_ops Qemu 0x40000000 ex_reset = (Inr (ex_boot_fdt, PL031_BASE_ADDRESS), s1)"
    "main_pagetable (ex_typing keys) ex_boot_ops ex_boot_fdt s1 = (Inr [ex_root], s2)"
    "main_devices (ex_typing keys) ex_virtio bump_ops bump_ops Qemu ex_boot_fdt PL031_BASE_ADDRESS [ex_root] s2 =
      (Inr (devices_new PL031_BASE_ADDRESS, [0x72000000]), s3)"
    "silent (trace s3)" "s3 = ex_up True (trace s3)"
proof -
  let ?E = "ex_typing keys"
  obtain h1 where h1: "silent h1" "main_console ?E ex_boot_ops Qemu 0x40000000 ex_reset =
     (Inr (ex_boot_fdt, PL031_BASE_ADDRESS),
      ex_reset\<lparr>trace := h1, console_set := True, logger := Some Debug, FDT := Some ex_boot_fdt\<rparr>)" (is "_ = (_, ?s1)")
    using ex_main_console [of keys] by auto
  obtain h2 where h2: "silent h2" "main_pagetable ?E ex_boot_ops ex_boot_fdt ?s1 = (Inr [ex_root], ex_up False h2)"
    using ex_main_pagetable [of ?s1 keys] h1(1) by (auto simp: ex_reset_def ex_sec_state_def ex_up_def)
  obtain h3 where h3: "silent h3" "main_devices ?E ex_virtio bump_ops bump_ops Qemu
      ex_boot_fdt PL031_BASE_ADDRESS [ex_root] (ex_up False h2) =
    (Inr (devices_new PL031_BASE_ADDRESS, [0x72000000]), ex_up True h3)"
    using ex_main_devices [OF h2(1), of keys] by auto
  have "trace (ex_up True h3) = h3" by (simp add: ex_up_def)
  with that [OF h1(2) h2(2) h3(2)] h3(1) show thesis by simp
qed

lemma ex_reset_state: "reset_state ex_reset"
  by (simp add: reset_state_def ex_reset_def ex_sec_state_def)

theorem boot_ready_witness:
  "\<exists>t. os_ready (ex_typing ''x'') (ex_up True t) \<and> my_private (ex_typing ''x'') (ex_up True t) = Map.empty"
proof -
  obtain s1 s2 s3 where b:
    "main_console (ex_typing ''x'') ex_boot_ops Qemu 0x40000000 ex_reset = (Inr (ex_boot_fdt, PL031_BASE_ADDRESS), s1)"
    "main_pagetable (ex_typing ''x'') ex_boot_ops ex_boot_fdt s1 = (Inr [ex_root], s2)"
    "main_devices (ex_typing ''x'') ex_virtio bump_ops bump_ops Qemu ex_boot_fdt PL031_BASE_ADDRESS [ex_root] s2 =
      (Inr (devices_new PL031_BASE_ADDRESS, [0x72000000]), s3)"
    "s3 = ex_up True (trace s3)"
    by (rule ex_boot)
  from boot_ready [OF ex_reset_state b(1,2,3)] b(4) show ?thesis by metis
qed

end
