(* ===== verification/Alarm_Life.thy ===== *)
theory Alarm_Life
  imports Shell
begin

text \<open>
  The life of the alarm's interrupt, from its acknowledgement in interrupts.rs over its handler in apps/alarm.rs to its end
  in the next command \<^verbatim>\<open>alarm\<close>, while the shell runs any commands and other interrupts come in.
\<close>

section \<open>Active interrupts\<close>

text \<open>How often an interrupt was acknowledged in a history: the controller answered with its identifier.\<close>

definition acknowledged :: "'e irq_env_scheme \<Rightarrow> intid \<Rightarrow> event list \<Rightarrow> event \<Rightarrow> unit list" where
  "acknowledged E i h e = (if e = Gic Gicc_acknowledge \<and> ack_reply E h = Some i then [()] else [])"

definition acked :: "'e irq_env_scheme \<Rightarrow> intid \<Rightarrow> event list \<Rightarrow> nat" where
  "acked E i h = length (gather (acknowledged E i) h)"

text \<open>An interrupt is active from its acknowledgement until it is ended. The controller does not give an active interrupt
  out again.\<close>

definition active :: "'e irq_env_scheme \<Rightarrow> intid \<Rightarrow> event list \<Rightarrow> bool" where
  "active E i h \<longleftrightarrow> ended i h < acked E i h"

definition active_law :: "'e irq_env_scheme \<Rightarrow> intid \<Rightarrow> bool" where
  "active_law E i \<longleftrightarrow> (\<forall>h. ack_reply E h = Some i \<longrightarrow> \<not> active E i h)"

lemma acked_snoc: "acked E i (h @ [e]) = acked E i h + (if e = Gic Gicc_acknowledge \<and> ack_reply E h = Some i then 1 else 0)"
  by (simp add: acked_def gather_snoc acknowledged_def)

lemma acked_append:
  assumes "Gic Gicc_acknowledge \<notin> set es"
  shows "acked E i (h @ es) = acked E i h"
  unfolding acked_def by (rule arg_cong [of _ _ length], rule gather_silent) (use assms in \<open>auto simp: acknowledged_def\<close>)

lemma ended_other: "Gic (Gicc_end_interrupt i) \<notin> set es \<Longrightarrow> ended i es = 0"
  by (simp add: ended_def)

section \<open>The invariant\<close>

text \<open>The alarm's handler is registered, as a shared one, for its interrupt and for no other, and that interrupt has no
  private handler.\<close>

definition alarm_registered :: "'e irq_env_scheme \<Rightarrow> board \<Rightarrow> (irq_handler, 's) irq_state_scheme \<Rightarrow> bool" where
  "alarm_registered E b s \<longleftrightarrow>
     (\<forall>k. shared_irq_handlers s k = Some Alarm_irq_handle \<longleftrightarrow> k = RTC_IRQ b) \<and>
     my_private E s (RTC_IRQ b) = None \<and> Alarm_irq_handle \<notin> ran (my_private E s)"

text \<open>Moreover every interrupt of the alarm that was acknowledged has been ended, but for one exactly while \<^verbatim>\<open>ALARM_FIRED\<close>
  is set.\<close>

definition alarm_inv :: "'e irq_env_scheme \<Rightarrow> board \<Rightarrow> (irq_handler, 's) alarm_state_scheme \<Rightarrow> bool" where
  "alarm_inv E b s \<longleftrightarrow>
     alarm_registered E b s \<and>
     acked E (RTC_IRQ b) (trace s) = ended (RTC_IRQ b) (trace s) + (if ALARM_FIRED s then 1 else 0)"

definition keeps_alarm ::
  "'e irq_env_scheme \<Rightarrow> board \<Rightarrow> (irq_handler, 's) alarm_state_scheme \<Rightarrow> (irq_handler, 's) alarm_state_scheme \<Rightarrow> bool" where
  "keeps_alarm E b s t \<longleftrightarrow> (alarm_inv E b s \<longrightarrow> alarm_inv E b t)"

text \<open>What the invariant depends on besides the history.\<close>

definition alarm_part ::
  "(irq_handler, 's) alarm_state_scheme \<Rightarrow> (intid \<rightharpoonup> irq_handler) \<times> (intid \<rightharpoonup> irq_handler) list res \<times> fdt option \<times> bool" where
  "alarm_part s = (shared_irq_handlers s, private_table s, FDT s, ALARM_FIRED s)"

lemma stays_keeps_alarm:
  assumes "stays (\<lambda>e. \<not> irq_event e) alarm_part s t"
  shows "keeps_alarm E b s t"
proof -
  from assms obtain es where es: "trace t = trace s @ es" "list_all (\<lambda>e. \<not> irq_event e) es" and p: "alarm_part t = alarm_part s"
    by (auto simp: stays_def)
  have none: "\<not> irq_event e" if "e \<in> set es" for e using es(2) that by (simp add: list_all_iff)
  then have "Gic Gicc_acknowledge \<notin> set es" "Gic (Gicc_end_interrupt (RTC_IRQ b)) \<notin> set es"
    by (fastforce simp: irq_event_def)+
  with es(1) p show ?thesis
    by (simp add: keeps_alarm_def alarm_inv_def alarm_registered_def alarm_part_def my_private_def acked_append ended_other)
qed

interpretation alm: command_frame "\<lambda>e. \<not> irq_event e" alarm_part "keeps_alarm E b" for E b
proof unfold_locales
  show "keeps_alarm E b s t" if "stays (\<lambda>e. \<not> irq_event e) alarm_part s t" for s t :: "(irq_handler, 's) sec_state_scheme"
    using that by (rule stays_keeps_alarm)
qed (simp_all add: keeps_alarm_def alarm_part_def irq_event_def)

lemma my_private_kept [simp]:
  "my_private E (s\<lparr>ALARM_FIRED := f\<rparr>) = my_private E s" "my_private E (u\<lparr>private_borrowed := f\<rparr>) = my_private E u"
  by (simp_all add: my_private_def)

section \<open>Taking interrupts\<close>

text \<open>Dispatch that returns has run a handler, of the private table or else of the shared one, and given back what it took.\<close>

lemma handle_irq_returned:
  fixes s t :: "('h, 's) irq_state_scheme"
  assumes "handle_irq E run s = (Inr u, t)"
  obtains k h tables es t1 where "ack_reply E (trace s) = Some k" and "private_table s = Inr tables"
    and "my_private E s k = Some h \<and>
        run h k (s\<lparr>trace := trace s @ Gic Gicc_acknowledge # map Con es, masked := True,
          private_irq_handlers := Some tables, private_borrowed := True\<rparr>) = (Inr (), t1) \<and>
        t = t1\<lparr>private_borrowed := private_borrowed s, masked := masked s\<rparr> \<or>
      my_private E s k = None \<and> shared_irq_handlers s k = Some h \<and>
        run h k (s\<lparr>trace := trace s @ Gic Gicc_acknowledge # map Con es, masked := True,
          private_irq_handlers := Some tables, held := SHARED_IRQ_HANDLERS_lock # held s\<rparr>) = (Inr (), t1) \<and>
        t = t1\<lparr>held := remove1 SHARED_IRQ_HANDLERS_lock (held t1), masked := masked s\<rparr>"
proof -
  from assms obtain k s1 where ack: "ack_reply E (trace s) = Some k"
    and log: "log E Trace ''IRQ: {intid:?}'' [A_intid k] (s\<lparr>trace := trace s @ [Gic Gicc_acknowledge]\<rparr>) = (Inr (), s1)"
    and rest: "exception_free (bind_io (private_get E) (\<lambda>(i, p). case p k of
         Some handler \<Rightarrow> with_borrow (run handler k)
       | None \<Rightarrow>
           bind_io (acquire SHARED_IRQ_HANDLERS_lock) (\<lambda>_. bind_io (gets_io shared_irq_handlers) (\<lambda>m. case m k of
             Some handler \<Rightarrow> bind_io (run handler k) (\<lambda>_. release SHARED_IRQ_HANDLERS_lock)
           | None \<Rightarrow> bind_io (release SHARED_IRQ_HANDLERS_lock) (\<lambda>_.
               abort_io (Panic (Explicit ''Unexpected IRQ {:?} with no handler''))))))) s1 = (Inr u, t)"
    by (auto simp: handle_irq_def rets_bind rets_call rets_lift)
  from log obtain es where s1: "s1 = s\<lparr>trace := trace s @ Gic Gicc_acknowledge # map Con es\<rparr>" by (auto elim: log_state)
  let ?m = "\<lambda>tables. s\<lparr>trace := trace s @ Gic Gicc_acknowledge # map Con es, masked := True, private_irq_handlers := Some tables\<rparr>"
  from rest obtain tables i v where tab: "private_table s = Inr tables" "current_cpu_index_in E (FDT s) = Inr i"
    and body: "(case (tables ! i) k of
         Some handler \<Rightarrow> with_borrow (run handler k)
       | None \<Rightarrow>
           bind_io (acquire SHARED_IRQ_HANDLERS_lock) (\<lambda>_. bind_io (gets_io shared_irq_handlers) (\<lambda>m. case m k of
             Some handler \<Rightarrow> bind_io (run handler k) (\<lambda>_. release SHARED_IRQ_HANDLERS_lock)
           | None \<Rightarrow> bind_io (release SHARED_IRQ_HANDLERS_lock) (\<lambda>_.
               abort_io (Panic (Explicit ''Unexpected IRQ {:?} with no handler''))))))
        (?m tables) = (Inr u, v)" and t: "t = v\<lparr>masked := masked s\<rparr>"
    unfolding s1 by (auto simp: rets_exception_free rets_bind rets_lift rets_gets rets_modify rets_return private_get_def
        private_force_def core_index_def current_cpu_index_def)
  have mine: "my_private E s = tables ! i" using tab by (simp add: my_private_def)
  show thesis
  proof (cases "(tables ! i) k")
    case None
    with body obtain h t1 where "shared_irq_handlers s k = Some h"
      "run h k ((?m tables)\<lparr>held := SHARED_IRQ_HANDLERS_lock # held s\<rparr>) = (Inr (), t1)"
      "v = t1\<lparr>held := remove1 SHARED_IRQ_HANDLERS_lock (held t1)\<rparr>"
      by (auto simp: rets split: option.splits if_splits)
    with None mine t show thesis by (intro that [OF ack tab(1)]) auto
  next
    case (Some h)
    with body obtain t1 where "run h k ((?m tables)\<lparr>private_borrowed := True\<rparr>) = (Inr (), t1)"
      "v = t1\<lparr>private_borrowed := private_borrowed s\<rparr>"
      by (auto simp: with_borrow_def rets)
    with Some mine t show thesis by (intro that [OF ack tab(1)]) auto
  qed
qed

text \<open>What a handler does: only the alarm's sets the flag, and only that of the console ends an interrupt, the one it was
  run for.\<close>

lemma run_handler_returned:
  assumes "run_handler E b h k s = (Inr u, t)"
  shows "\<exists>es. t = s\<lparr>trace := trace s @ es, ALARM_FIRED := h = Alarm_irq_handle \<or> ALARM_FIRED s\<rparr> \<and>
    Gic Gicc_acknowledge \<notin> set es \<and>
    (\<forall>i. Gic (Gicc_end_interrupt i) \<in> set es \<longrightarrow> h = Console_handle_irq \<and> i = k)"
proof (cases h)
  case Console_handle_irq
  with assms show ?thesis
    by (cases b) (auto simp: console_handle_irq_def pl011_handle_irq_def uart16550_handle_irq_def rets)
next
  case Alarm_irq_handle
  with assms obtain es where "t = s\<lparr>trace := trace s @ map Con es, ALARM_FIRED := True\<rparr>"
    by (auto elim: irq_handle_returned)
  with Alarm_irq_handle show ?thesis by (intro exI [of _ "map Con es"]) auto
next
  case Secondary_irq_handler
  with assms have "\<exists>es. t = s\<lparr>trace := trace s @ map Con es\<rparr>"
    by (auto simp: secondary_irq_handler_def log_lazy_def rets_bind rets_return rets_lift rets_gets elim!: log_state
        intro: exI [of _ "[]"] split: option.splits if_splits)
  then obtain es where "t = s\<lparr>trace := trace s @ map Con es\<rparr>" by blast
  with Secondary_irq_handler show ?thesis by (intro exI [of _ "map Con es"]) auto
qed

text \<open>From the state in which an interrupt comes in to the one after its handler.\<close>

lemma alarm_inv_handler:
  assumes law: "active_law E (RTC_IRQ b)" and inv: "alarm_inv E b s"
    and ack: "ack_reply E (trace s) = Some k"
    and h: "my_private E s k = Some h \<or> my_private E s k = None \<and> shared_irq_handlers s k = Some h"
    and run: "run_handler E b h k s1 = (Inr u, t1)"
    and s1: "trace s1 = trace s @ Gic Gicc_acknowledge # map Con es" "shared_irq_handlers s1 = shared_irq_handlers s"
      "my_private E s1 = my_private E s" "ALARM_FIRED s1 = ALARM_FIRED s"
  shows "alarm_inv E b t1"
proof -
  from run_handler_returned [OF run] obtain fs where
    t1: "t1 = s1\<lparr>trace := trace s1 @ fs, ALARM_FIRED := h = Alarm_irq_handle \<or> ALARM_FIRED s1\<rparr>"
    and fs: "Gic Gicc_acknowledge \<notin> set fs" "\<And>i. Gic (Gicc_end_interrupt i) \<in> set fs \<Longrightarrow> h = Console_handle_irq \<and> i = k"
    by auto
  have same: "shared_irq_handlers t1 = shared_irq_handlers s" "my_private E t1 = my_private E s"
    using s1 by (simp_all add: t1)
  have "acked E i ((trace s @ [Gic Gicc_acknowledge]) @ map Con es @ fs) = acked E i (trace s @ [Gic Gicc_acknowledge])" for i
    by (rule acked_append) (use fs(1) in auto)
  then have acks: "acked E (RTC_IRQ b) (trace t1) = acked E (RTC_IRQ b) (trace s) + (if k = RTC_IRQ b then 1 else 0)"
    using ack by (simp add: t1 s1 acked_snoc)
  have alarm: "h = Alarm_irq_handle" if "k = RTC_IRQ b"
    using that inv h unfolding alarm_inv_def alarm_registered_def by (metis option.inject option.distinct(1))
  have "Gic (Gicc_end_interrupt (RTC_IRQ b)) \<notin> set fs" using fs(2) alarm by fastforce
  moreover have "ended i (Gic Gicc_acknowledge # es) = ended i es" for i es by (simp add: ended_def)
  ultimately have ends: "ended (RTC_IRQ b) (trace t1) = ended (RTC_IRQ b) (trace s)"
    by (simp add: t1 s1 ended_other)
  show ?thesis
  proof (cases "k = RTC_IRQ b")
    case True
    then have "\<not> active E (RTC_IRQ b) (trace s)" using law ack by (simp add: active_law_def)
    then have "\<not> ALARM_FIRED s" using inv by (auto simp: alarm_inv_def active_def)
    moreover have "ALARM_FIRED t1" using alarm [OF True] by (simp add: t1)
    ultimately show ?thesis using inv acks ends same True by (simp add: alarm_inv_def alarm_registered_def)
  next
    case False
    then have "h \<noteq> Alarm_irq_handle"
      using inv h by (auto simp: alarm_inv_def alarm_registered_def ran_def)
    with False inv acks ends same s1(4) show ?thesis by (simp add: alarm_inv_def alarm_registered_def t1)
  qed
qed


lemma keeps_alarm_take_irq:
  assumes "active_law E (RTC_IRQ b)"
  shows "returns (keeps_alarm E b) (take_irq E b pending :: ((irq_handler, 's) sec_state_scheme, unit) io)"
proof -
  have "returns (keeps_alarm E b) (handle_irq E (run_handler E b) :: ((irq_handler, 's) sec_state_scheme, unit) io)"
  proof (rule returnsI)
    fix s t :: "(irq_handler, 's) sec_state_scheme" and u
    assume "handle_irq E (run_handler E b) s = (Inr u, t)"
    then obtain k h tables es t1 where ack: "ack_reply E (trace s) = Some k" and p: "private_table s = Inr tables"
      and run: "my_private E s k = Some h \<and>
        run_handler E b h k (s\<lparr>trace := trace s @ Gic Gicc_acknowledge # map Con es, masked := True,
          private_irq_handlers := Some tables, private_borrowed := True\<rparr>) = (Inr (), t1) \<and>
        t = t1\<lparr>private_borrowed := private_borrowed s, masked := masked s\<rparr> \<or>
      my_private E s k = None \<and> shared_irq_handlers s k = Some h \<and>
        run_handler E b h k (s\<lparr>trace := trace s @ Gic Gicc_acknowledge # map Con es, masked := True,
          private_irq_handlers := Some tables, held := SHARED_IRQ_HANDLERS_lock # held s\<rparr>) = (Inr (), t1) \<and>
        t = t1\<lparr>held := remove1 SHARED_IRQ_HANDLERS_lock (held t1), masked := masked s\<rparr>"
      by (rule handle_irq_returned)
    from run show "keeps_alarm E b s t"
    proof (elim disjE conjE)
      assume h: "my_private E s k = Some h" and r: "run_handler E b h k (s\<lparr>trace := trace s @ Gic Gicc_acknowledge # map Con es,
          masked := True, private_irq_handlers := Some tables, private_borrowed := True\<rparr>) = (Inr (), t1)"
        and t: "t = t1\<lparr>private_borrowed := private_borrowed s, masked := masked s\<rparr>"
      have "alarm_inv E b t1" if "alarm_inv E b s"
        by (rule alarm_inv_handler [OF assms that ack disjI1 [OF h] r]) (simp_all add: my_private_def p)
      then show ?thesis by (simp add: keeps_alarm_def alarm_inv_def alarm_registered_def t)
    next
      assume h: "my_private E s k = None" "shared_irq_handlers s k = Some h"
        and r: "run_handler E b h k (s\<lparr>trace := trace s @ Gic Gicc_acknowledge # map Con es, masked := True,
          private_irq_handlers := Some tables, held := SHARED_IRQ_HANDLERS_lock # held s\<rparr>) = (Inr (), t1)"
        and t: "t = t1\<lparr>held := remove1 SHARED_IRQ_HANDLERS_lock (held t1), masked := masked s\<rparr>"
      have "alarm_inv E b t1" if "alarm_inv E b s"
        by (rule alarm_inv_handler [OF assms that ack disjI2 [OF conjI [OF h]] r]) (simp_all add: my_private_def p)
      then show ?thesis by (simp add: keeps_alarm_def alarm_inv_def alarm_registered_def t)
    qed
  qed
  then show ?thesis
    unfolding take_irq_def irq_current_def
    by (intro alm.returns_bind alm.frame_basic returns_if alm.in_frame [OF alm.stays_log])
qed

section \<open>Commands\<close>

lemma keeps_alarm_finish: "returns (keeps_alarm E b) (irq_finish E' b)"
proof (rule returnsI)
  fix s t :: "(irq_handler, 's) alarm_state_scheme" and u
  assume "irq_finish E' b s = (Inr u, t)"
  then obtain es where t: "t = (if ALARM_FIRED s
    then s\<lparr>ALARM_FIRED := False, trace := trace s @ [Rtc Rtc_clear_interrupt, Gic (Gicc_end_interrupt (RTC_IRQ b))] @ map Con es\<rparr>
    else s\<lparr>ALARM_FIRED := False\<rparr>)"
    by (rule irq_finish_returned)
  have "acked E i (trace s @ [Rtc Rtc_clear_interrupt, Gic (Gicc_end_interrupt (RTC_IRQ b))] @ map Con es) = acked E i (trace s)" for i
    by (rule acked_append) auto
  with t show "keeps_alarm E b s t"
    by (simp add: keeps_alarm_def alarm_inv_def alarm_registered_def)
qed

lemma keeps_alarm_alarm:
  "returns (keeps_alarm E b) (alarm E' R b args :: ((irq_handler, 's) sec_state_scheme, unit) io)"
proof -
  have call: "returns (keeps_alarm E b) (call f (Rtc e) :: ((irq_handler, 's) sec_state_scheme, 'r) io)"
    "returns (keeps_alarm E b) (emit (Rtc e) :: ((irq_handler, 's) sec_state_scheme, unit) io)"
    for f :: "event list \<Rightarrow> 'r" and e
    by (rule alm.in_frame, intro alm.stays_rules alm.P_events)+
  show ?thesis
    unfolding alarm_def rtc_get_time_def
    by (auto intro!: alm.returns_bind alm.frame_basic keeps_alarm_finish call alm.in_frame [OF alm.stays_con_fmt]
        split: option.split)
qed

lemma keeps_alarm_start_cpu: "returns (keeps_alarm E b) (start_cpu E' heap fdt args)"
proof -
  have "returns (stays (\<lambda>e. \<not> irq_event e) alarm_part) (start_core_with_stack E' heap m)" for m
    by (rule returnsI, erule start_core_with_stack_returned)
      (auto simp: stays_def alarm_part_def irq_event_def dest!: get_secondary_stack_returned)
  then show ?thesis
    unfolding start_cpu_def start_cpu_usage_def cpu_state_def
    by (intro alm.in_frame)
      (auto intro!: alm.stays_rules alm.stays_smc alm.stays_affinity split: option.split)
qed

text \<open>Whatever is typed, and whatever interrupts come in while a command waits.\<close>

lemma keeps_alarm_run_command:
  assumes "active_law E (RTC_IRQ (arg_board A))"
  shows "returns (keeps_alarm E (arg_board A)) (run_command E A (take_irq E (arg_board A) pending) n command args)"
  unfolding run_command_def Let_def
  by (intro returns_if alm.returns_bind alm.frame_basic keeps_alarm_alarm keeps_alarm_start_cpu
      alm.frame_vcat keeps_alarm_take_irq [OF assms]
      alm.in_frame [OF alm.stays_printing(1)] alm.in_frame [OF alm.stays_printing(2)] alm.in_frame [OF alm.stays_printing(3)]
      alm.in_frame [OF alm.stays_sgi] alm.in_frame [OF alm.stays_lsdev] alm.in_frame [OF alm.stays_lspci]
      alm.in_frame [OF alm.stays_cpus] alm.in_frame [OF alm.stays_con_fmt])

lemma keeps_alarm_run_line:
  assumes "active_law E (RTC_IRQ (arg_board A))"
  shows "returns (keeps_alarm E (arg_board A)) (run_line E A (take_irq E (arg_board A) pending) n line)"
  unfolding run_line_def
  by (cases "split_on 0x20 line")
    (simp_all add: alm.returns_bind alm.frame_basic alm.in_frame [OF alm.stays_con_fmt] keeps_alarm_run_command assms)

section \<open>Every alarm is ended once\<close>

text \<open>What the shell does, one interrupt, line read or command at a time.\<close>

inductive shell_steps ::
  "'e pci_env_scheme \<Rightarrow> shell_args \<Rightarrow> (event list \<Rightarrow> bool) \<Rightarrow> nat \<Rightarrow> (irq_handler, 's) sec_state_scheme \<Rightarrow>
   (irq_handler, 's) sec_state_scheme \<Rightarrow> bool"
  for E A pending n s where
  no_step: "shell_steps E A pending n s s"
| step_irq: "shell_steps E A pending n s t \<Longrightarrow> take_irq E (arg_board A) pending t = (Inr (), u) \<Longrightarrow>
    shell_steps E A pending n s u"
| step_read: "shell_steps E A pending n s t \<Longrightarrow>
    read_line E (take_irq E (arg_board A) pending) n n [] t = (Inr line, u) \<Longrightarrow> shell_steps E A pending n s u"
| step_line: "shell_steps E A pending n s t \<Longrightarrow>
    run_line E A (take_irq E (arg_board A) pending) n line t = (Inr goes, u) \<Longrightarrow> shell_steps E A pending n s u"

lemma shell_steps_alarm:
  assumes law: "active_law E (RTC_IRQ (arg_board A))" and "shell_steps E A pending n s t" and "alarm_inv E (arg_board A) s"
  shows "alarm_inv E (arg_board A) t"
  using assms(2,3)
proof induction
  case (step_irq t u)
  with returnsD [OF keeps_alarm_take_irq [OF law] step_irq.hyps(2)] show ?case by (simp add: keeps_alarm_def)
next
  case (step_read t line u)
  with returnsD [OF alm.frame_read_line [OF keeps_alarm_take_irq [OF law]] step_read.hyps(2)] show ?case
    by (simp add: keeps_alarm_def)
next
  case (step_line t line goes u)
  with returnsD [OF keeps_alarm_run_line [OF law] step_line.hyps(2)] show ?case by (simp add: keeps_alarm_def)
qed simp

text \<open>C17: every alarm interrupt is ended exactly once. Let the alarm's handler be registered for its interrupt and no other,
  the running core have no private handler for that interrupt, as many alarm interrupts be ended as acknowledged, and
  \<^verbatim>\<open>ALARM_FIRED\<close> not be set. However many lines are read and run from then on, with any commands, and whatever
  interrupts are taken in between and while a command waits: the number of alarm interrupts acknowledged is the number
  of those ended, plus one exactly while \<^verbatim>\<open>ALARM_FIRED\<close> is set. Assumed: the interrupt controller does not give out an
  interrupt again that is active, which is acknowledged and not yet ended.\<close>

theorem alarm_interrupts_balanced:
  assumes "active_law E (RTC_IRQ (arg_board A))" and "shell_steps E A pending n s t"
    and "alarm_registered E (arg_board A) s" and "\<not> ALARM_FIRED s"
    and "acked E (RTC_IRQ (arg_board A)) (trace s) = ended (RTC_IRQ (arg_board A)) (trace s)"
  shows "alarm_registered E (arg_board A) t \<and>
    acked E (RTC_IRQ (arg_board A)) (trace t) =
      ended (RTC_IRQ (arg_board A)) (trace t) + (if ALARM_FIRED t then 1 else 0)"
  using shell_steps_alarm [OF assms(1,2)] assms(3-) by (simp add: alarm_inv_def)

section \<open>An example\<close>

text \<open>A controller that gives out the alarm's interrupt whenever as many interrupts have been ended as acknowledged.\<close>

definition ex_gic :: pci_env where
  "ex_gic = (ex_typing ''x'')\<lparr>ack_reply := \<lambda>h. if count_list h (Gic Gicc_acknowledge) \<le> ended (RTC_IRQ Qemu) h
     then Some (RTC_IRQ Qemu) else None\<rparr>"

lemma acked_le: "acked E i h \<le> count_list h (Gic Gicc_acknowledge)"
proof (induction h rule: rev_induct)
  case Nil
  show ?case by (simp add: acked_def gather_def)
next
  case (snoc e h)
  then show ?case by (simp add: acked_snoc)
qed

lemma ex_gic_law: "active_law ex_gic (RTC_IRQ Qemu)"
  using acked_le [of ex_gic "RTC_IRQ Qemu"]
  by (auto simp: active_law_def active_def not_less ex_gic_def split: if_splits intro: order_trans)

definition ex_registered :: "irq_handler sec_state" where
  "ex_registered = ex_sec_state\<lparr>shared_irq_handlers := [RTC_IRQ Qemu \<mapsto> Alarm_irq_handle]\<rparr>"

lemma ex_gic_simps [simp]:
  "write_reply ex_gic h ev = Inr ()" "mpidr_el1 ex_gic = 0"
  "ack_reply ex_gic h = (if count_list h (Gic Gicc_acknowledge) \<le> ended (RTC_IRQ Qemu) h then Some (RTC_IRQ Qemu) else None)"
  by (simp_all add: ex_gic_def)

definition ex_alarmed :: "irq_handler sec_state" where
  "ex_alarmed = snd (take_irq ex_gic Qemu (\<lambda>_. True) ex_registered)"

definition ex_ended :: "irq_handler sec_state" where
  "ex_ended = snd (run_line ex_gic ex_shell_args (take_irq ex_gic Qemu (\<lambda>_. True)) 1 (ascii ''alarm 9'') ex_alarmed)"

lemmas ex_core_defs = private_get_def private_force_def private_table_def core_index_def current_cpu_index_def
  current_cpu_index_in_def mpidr_to_cpu_index_def cpu_id_def mpidr_affinity_def MPIDR_AFFINITY_MASK_def fdt_cpu_nodes_def
  cpu_count_in_def ex_fdt_def numeral_2_eq_2

lemma ex_alarmed_run:
  "take_irq ex_gic Qemu (\<lambda>_. True) ex_registered = (Inr (), ex_alarmed)"
  "ALARM_FIRED ex_alarmed" "held ex_alarmed = []" "logger ex_alarmed = Some Debug"
  by (simp_all add: ex_alarmed_def take_irq_def irq_current_def handle_irq_def irq_handle_def ex_core_defs
      exception_free_def acquire_def release_def runs logs_def less_eq_level_def ex_registered_def ex_sec_state_def)

lemma ex_ended_run:
  "run_line ex_gic ex_shell_args (take_irq ex_gic Qemu (\<lambda>_. True)) 1 (ascii ''alarm 9'') ex_alarmed = (Inr True, ex_ended)"
  "\<not> ALARM_FIRED ex_ended"
  using ex_alarmed_run(2-4)
  by (simp_all add: ex_ended_def run_line_def run_command_def alarm_def irq_finish_def rtc_get_time_def ascii_def EOF_def runs
      parse_i64_def parse_digits_def is_digit_def ex_shell_args_def ex_rtc_def logs_def less_eq_level_def)

theorem alarm_interrupts_balanced_witness:
  "take_irq ex_gic Qemu (\<lambda>_. True) ex_registered = (Inr (), ex_alarmed) \<and>
   ALARM_FIRED ex_alarmed \<and> acked ex_gic (RTC_IRQ Qemu) (trace ex_alarmed) = Suc (ended (RTC_IRQ Qemu) (trace ex_alarmed)) \<and>
   run_line ex_gic ex_shell_args (take_irq ex_gic Qemu (\<lambda>_. True)) 1 (ascii ''alarm 9'') ex_alarmed = (Inr True, ex_ended) \<and>
   \<not> ALARM_FIRED ex_ended \<and> acked ex_gic (RTC_IRQ Qemu) (trace ex_ended) = ended (RTC_IRQ Qemu) (trace ex_ended)"
proof -
  have b: "arg_board ex_shell_args = Qemu" by (simp add: ex_shell_args_def)
  have steps: "shell_steps ex_gic ex_shell_args (\<lambda>_. True) 1 ex_registered ex_alarmed"
    by (rule step_irq [OF no_step]) (simp add: b ex_alarmed_run)
  then have steps': "shell_steps ex_gic ex_shell_args (\<lambda>_. True) 1 ex_registered ex_ended"
    by (rule step_line) (simp only: b, rule ex_ended_run)
  have "my_private ex_gic ex_registered = Map.empty"
    by (simp add: my_private_def ex_core_defs ex_registered_def ex_sec_state_def)
  then have reg: "alarm_registered ex_gic (arg_board ex_shell_args) ex_registered"
    by (simp add: alarm_registered_def b) (simp add: ex_registered_def ex_sec_state_def)
  have start: "\<not> ALARM_FIRED ex_registered"
    "acked ex_gic (RTC_IRQ (arg_board ex_shell_args)) (trace ex_registered) = ended (RTC_IRQ (arg_board ex_shell_args)) (trace ex_registered)"
    by (simp_all add: ex_registered_def ex_sec_state_def acked_def gather_def)
  note law = ex_gic_law [folded b]
  show ?thesis
    using alarm_interrupts_balanced [OF law steps reg start] alarm_interrupts_balanced [OF law steps' reg start]
      ex_alarmed_run(1,2) ex_ended_run by (simp only: b) simp
qed

end
