(* ===== verification/Registry.thy ===== *)
theory Registry
  imports Interrupts
begin

text \<open>
  The handler tables as an abstract registry: one table that all cores share and one per core, with the
  operations of interrupts.rs as total functions that either answer or refuse. The operations of the program,
  run one after the other by any cores in any order, implement it.
\<close>

section \<open>Sequences of operations\<close>

text \<open>An abstract specification gives for each operation and state an answer and the next state, or refuses.\<close>

fun spec_run :: "('x \<Rightarrow> 'g \<Rightarrow> ('r \<times> 'g) option) \<Rightarrow> 'x list \<Rightarrow> 'g \<Rightarrow> ('r list \<times> 'g) option" where
  "spec_run spec [] g = Some ([], g)"
| "spec_run spec (x # xs) g =
     (case spec x g of
        None \<Rightarrow> None
      | Some (r, g') \<Rightarrow> map_option (\<lambda>(rs, g''). (r # rs, g'')) (spec_run spec xs g'))"

text \<open>The contract of an implementation: where an operation can be used, it answers as specified and moves to a
  state that stands for the specified one, in which whatever could be used before still can; or the specification
  refuses and it aborts, in a way that is known.\<close>

locale implements =
  fixes step :: "'x \<Rightarrow> ('s, 'r) io"
    and spec :: "'x \<Rightarrow> 'g \<Rightarrow> ('r \<times> 'g) option"
    and abst :: "'s \<Rightarrow> 'g"
    and usable :: "'s \<Rightarrow> 'x \<Rightarrow> bool"
    and refusal :: "abort \<Rightarrow> bool"
  assumes answers: "usable s x \<Longrightarrow> spec x (abst s) = Some (r, g) \<Longrightarrow>
      wpre (step x) (\<lambda>r' t. r' = r \<and> abst t = g \<and> (\<forall>y. usable s y \<longrightarrow> usable t y)) (\<lambda>_ _. False) s"
    and refuses: "usable s x \<Longrightarrow> spec x (abst s) = None \<Longrightarrow>
      wpre (step x) (\<lambda>_ _. False) (\<lambda>e t. refusal e \<and> abst t = abst s) s"
begin

lemma sequence_answers:
  assumes "list_all (usable s) xs" and "spec_run spec xs (abst s) = Some (rs, g)"
  shows "wpre (map_io step xs) (\<lambda>rs' t. rs' = rs \<and> abst t = g \<and> (\<forall>y. usable s y \<longrightarrow> usable t y)) (\<lambda>_ _. False) s"
  using assms
proof (induction xs arbitrary: s rs)
  case Nil
  then show ?case by (simp add: wp)
next
  case (Cons x xs)
  from Cons.prems obtain r g1 rs1 where x: "usable s x" "spec x (abst s) = Some (r, g1)"
    and xs: "list_all (usable s) xs" "spec_run spec xs g1 = Some (rs1, g)" "rs = r # rs1"
    by (auto split: option.splits)
  have "wpre (map_io step xs) (\<lambda>rs' t. rs' = rs1 \<and> abst t = g \<and> (\<forall>y. usable s y \<longrightarrow> usable t y)) (\<lambda>_ _. False) u"
    if u: "abst u = g1" "\<forall>y. usable s y \<longrightarrow> usable u y" for u
  proof -
    have "list_all (usable u) xs" using xs(1) u(2) by (simp add: list_all_iff)
    then have "wpre (map_io step xs) (\<lambda>rs' t. rs' = rs1 \<and> abst t = g \<and> (\<forall>y. usable u y \<longrightarrow> usable t y)) (\<lambda>_ _. False) u"
      by (rule Cons.IH) (simp add: u(1) xs(2))
    then show ?thesis by (rule wpre_mono) (use u(2) in auto)
  qed
  then show ?case
    using answers [OF x] by (auto simp: wp xs(3) elim!: wpre_mono)
qed

lemma sequence_refuses:
  assumes "list_all (usable s) xs" and "spec_run spec xs (abst s) = None"
  shows "wpre (map_io step xs) (\<lambda>_ _. False) (\<lambda>e _. refusal e) s"
  using assms
proof (induction xs arbitrary: s)
  case Nil
  then show ?case by simp
next
  case (Cons x xs)
  show ?case
  proof (cases "spec x (abst s)")
    case None
    with refuses [of s x] Cons.prems(1) show ?thesis by (auto simp: wp elim!: wpre_mono)
  next
    case (Some a)
    then obtain r g where spec: "spec x (abst s) = Some (r, g)" by (cases a) auto
    have "wpre (map_io step xs) (\<lambda>_ _. False) (\<lambda>e _. refusal e) u"
      if u: "abst u = g" "\<forall>y. usable s y \<longrightarrow> usable u y" for u
      by (rule Cons.IH) (use Cons.prems spec u in \<open>auto simp: list_all_iff\<close>)
    then show ?thesis
      using answers [OF _ spec] Cons.prems(1) by (auto simp: wp elim!: wpre_mono)
  qed
qed

end

section \<open>The abstract registry\<close>

record 'h registry =
  reg_shared :: "intid \<rightharpoonup> 'h"
  reg_private :: "(intid \<rightharpoonup> 'h) list"

datatype 'h reg_op =
    Set_shared intid 'h
  | Remove_shared intid
  | Set_private intid 'h
  | Remove_private intid

text \<open>An operation of core \<open>i\<close>: the handler that was registered before and the new registry, or a refusal.\<close>

fun reg_apply :: "nat \<Rightarrow> 'h reg_op \<Rightarrow> 'h registry \<Rightarrow> ('h option \<times> 'h registry) option" where
  "reg_apply i (Set_shared k h) g =
     (if (reg_private g ! i) k = None
      then Some (reg_shared g k, g\<lparr>reg_shared := (reg_shared g)(k \<mapsto> h)\<rparr>) else None)"
| "reg_apply i (Remove_shared k) g =
     Some (reg_shared g k, g\<lparr>reg_shared := (reg_shared g)(k := None)\<rparr>)"
| "reg_apply i (Set_private k h) g =
     (if reg_shared g k = None
      then Some ((reg_private g ! i) k, g\<lparr>reg_private := (reg_private g)[i := (reg_private g ! i)(k \<mapsto> h)]\<rparr>)
      else None)"
| "reg_apply i (Remove_private k) g =
     Some ((reg_private g ! i) k, g\<lparr>reg_private := (reg_private g)[i := (reg_private g ! i)(k := None)]\<rparr>)"

section \<open>The program's registry\<close>

fun perform :: "'e irq_env_scheme \<Rightarrow> 'h reg_op \<Rightarrow> (('h, 's) irq_state_scheme, 'h option) io" where
  "perform E (Set_shared k h) = set_shared_irq_handler E k h"
| "perform E (Remove_shared k) = remove_shared_irq_handler E k"
| "perform E (Set_private k h) = set_private_irq_handler E k h"
| "perform E (Remove_private k) = remove_private_irq_handler E k"

text \<open>A sequence of operations, each by the core with the given affinity.\<close>

definition perform_all ::
  "'e irq_env_scheme \<Rightarrow> (u64 \<times> 'h reg_op) list \<Rightarrow> (('h, 's) irq_state_scheme, 'h option list) io" where
  "perform_all E xs = map_io (\<lambda>(m, x). perform (E\<lparr>mpidr_el1 := m\<rparr>) x) xs"

definition registry_of :: "('h, 's) irq_state_scheme \<Rightarrow> 'h registry" where
  "registry_of s = \<lparr>reg_shared = shared_irq_handlers s,
     reg_private = (case private_table s of Inl _ \<Rightarrow> [] | Inr tables \<Rightarrow> tables)\<rparr>"

text \<open>The core with affinity \<open>m\<close> is core \<open>i\<close>, and it can use the tables.\<close>

definition core_ready :: "'e irq_env_scheme \<Rightarrow> ('h, 's) irq_state_scheme \<Rightarrow> u64 \<Rightarrow> nat \<Rightarrow> bool" where
  "core_ready E s m i \<longleftrightarrow>
     irq_ready (E\<lparr>mpidr_el1 := m\<rparr>) s \<and> core_at (E\<lparr>mpidr_el1 := m\<rparr>) s (reg_private (registry_of s)) i"

section \<open>Simulation\<close>

lemma registry_of_at:
  assumes "core_at E s tables i"
  shows "reg_private (registry_of s) = tables" "reg_shared (registry_of s) = shared_irq_handlers s"
  using assms by (simp_all add: registry_of_def core_at_def)

text \<open>What an operation changes of the state: the tables, and nothing that decides which cores can use them.\<close>

definition same_machine :: "('h, 's) irq_state_scheme \<Rightarrow> ('h, 's) irq_state_scheme \<Rightarrow> bool" where
  "same_machine s t \<longleftrightarrow> FDT t = FDT s \<and> held t = held s \<and> masked t = masked s \<and> trace t = trace s \<and>
     private_borrowed t = private_borrowed s \<and> logs Trace t = logs Trace s \<and>
     (\<exists>p q. private_table s = Inr p \<and> private_table t = Inr q \<and> length q = length p)"

lemma same_machine_ready:
  assumes "same_machine s t" and "core_ready E s m i"
  shows "core_ready E t m i"
  using assms
  by (auto simp: core_ready_def same_machine_def irq_ready_def core_at_def registry_of_def)

lemma perform_refines:
  assumes "core_ready E s m i"
  shows "case reg_apply i x (registry_of s) of
      Some (r, g) \<Rightarrow> wpre (perform (E\<lparr>mpidr_el1 := m\<rparr>) x)
        (\<lambda>r' t. r' = r \<and> registry_of t = g \<and> same_machine s t) (\<lambda>_ _. False) s
    | None \<Rightarrow> wpre (perform (E\<lparr>mpidr_el1 := m\<rparr>) x) (\<lambda>_ _. False)
        (\<lambda>e t. (\<exists>msg. e = Panic (Assert_failed msg)) \<and> registry_of t = registry_of s) s"
proof -
  let ?E = "E\<lparr>mpidr_el1 := m\<rparr>"
  obtain tables where at: "core_at ?E s tables i" and ready: "irq_ready ?E s"
    using assms by (auto simp: core_ready_def)
  note runs = set_shared_run [OF ready at] set_private_run [OF ready at] remove_shared_run [OF ready]
    remove_private_run [OF ready at]
  have p: "private_table s = Inr tables" using at by (simp add: core_at_def)
  show ?thesis
    by (cases x) (simp_all add: runs registry_of_def p same_machine_def)
qed

text \<open>The registry that a step names by affinity and by core, and the program's step.\<close>

interpretation rgy: implements
  "\<lambda>(m, i, x). perform (E\<lparr>mpidr_el1 := m\<rparr>) x" "\<lambda>(m, i, x). reg_apply i x" registry_of
  "\<lambda>s (m, i, x). core_ready E s m i" "\<lambda>e. \<exists>msg. e = Panic (Assert_failed msg)"
  for E :: "'e irq_env_scheme"
proof unfold_locales
  fix s :: "('h, 's) irq_state_scheme" and x :: "u64 \<times> nat \<times> 'h reg_op" and r g
  obtain m i y where x: "x = (m, i, y)" by (cases x)
  let ?ready = "\<lambda>s (m, i, _ :: 'h reg_op). core_ready E s m i"
  assume "?ready s x" and "(case x of (m, i, x) \<Rightarrow> reg_apply i x) (registry_of s) = Some (r, g)"
  then have "wpre (perform (E\<lparr>mpidr_el1 := m\<rparr>) y) (\<lambda>r' t. r' = r \<and> registry_of t = g \<and> same_machine s t) (\<lambda>_ _. False) s"
    using perform_refines [of E s m i y] by (simp add: x)
  then have "wpre (perform (E\<lparr>mpidr_el1 := m\<rparr>) y) (\<lambda>r' t. r' = r \<and> registry_of t = g \<and> (\<forall>z. ?ready s z \<longrightarrow> ?ready t z)) (\<lambda>_ _. False) s"
    by (rule wpre_mono) (auto intro: same_machine_ready)
  then show "wpre (case x of (m, i, x) \<Rightarrow> perform (E\<lparr>mpidr_el1 := m\<rparr>) x)
      (\<lambda>r' t. r' = r \<and> registry_of t = g \<and> (\<forall>z. ?ready s z \<longrightarrow> ?ready t z)) (\<lambda>_ _. False) s"
    by (simp add: x)
next
  fix s :: "('h, 's) irq_state_scheme" and x :: "u64 \<times> nat \<times> 'h reg_op"
  obtain m i y where x: "x = (m, i, y)" by (cases x)
  assume "case x of (m, i, x) \<Rightarrow> core_ready E s m i" and "(case x of (m, i, x) \<Rightarrow> reg_apply i x) (registry_of s) = None"
  then show "wpre (case x of (m, i, x) \<Rightarrow> perform (E\<lparr>mpidr_el1 := m\<rparr>) x) (\<lambda>_ _. False)
      (\<lambda>e t. (\<exists>msg. e = Panic (Assert_failed msg)) \<and> registry_of t = registry_of s) s"
    using perform_refines [of E s m i y] by (simp add: x)
qed

text \<open>C6: the handler tables implement the registry. Whatever sequence of registrations and removals the cores
  make, in whatever order they come, each operation gives back the handler that the registry had and leaves the
  tables as the registry then is; a sequence fails exactly when the registry refuses one of its operations, and then
  by an assertion of the program. Assumed: at the start each of the cores can use the tables. It is one that the device
  tree lists, the lock of the shared table is free, and no handler is running out of the private one; and the
  trace level is not logged.\<close>

theorem registry_refines:
  assumes "\<forall>(m, i, x) \<in> set xs. core_ready E s m i"
  shows "case spec_run (\<lambda>(m, i, x). reg_apply i x) xs (registry_of s) of
      Some (rs, g) \<Rightarrow> \<exists>t. perform_all E (map (\<lambda>(m, i, x). (m, x)) xs) s = (Inr rs, t) \<and> registry_of t = g \<and>
        (\<forall>m i. core_ready E s m i \<longrightarrow> core_ready E t m i)
    | None \<Rightarrow> \<exists>msg t. perform_all E (map (\<lambda>(m, i, x). (m, x)) xs) s = (Inl (Panic (Assert_failed msg)), t)"
proof -
  have all: "perform_all E (map (\<lambda>(m, i, x). (m, x)) xs) = map_io (\<lambda>(m, i, x). perform (E\<lparr>mpidr_el1 := m\<rparr>) x) xs"
    unfolding perform_all_def by (induction xs) auto
  have ready: "list_all (\<lambda>(m, i, x). core_ready E s m i) xs" using assms by (simp add: list_all_iff)
  show ?thesis
  proof (cases "spec_run (\<lambda>(m, i, x). reg_apply i x) xs (registry_of s)")
    case None
    with rgy.sequence_refuses [OF ready] show ?thesis by (auto simp: all wpre_aborted)
  next
    case (Some a)
    then obtain rs g where "spec_run (\<lambda>(m, i, x). reg_apply i x) xs (registry_of s) = Some (rs, g)" by (cases a) auto
    with rgy.sequence_answers [OF ready] show ?thesis by (auto simp: all wpre_returned)
  qed
qed

lemma ex_registry: "registry_of ex_irq_state = \<lparr>reg_shared = Map.empty, reg_private = [Map.empty, Map.empty]\<rparr>"
  using registry_of_at [OF ex_core_at(1)] by (simp add: registry_of_def ex_irq_state_def)

lemma ex_core_ready: "core_ready (ex_irq_env 0) ex_irq_state 0 0" "core_ready (ex_irq_env 0) ex_irq_state 1 1"
  using ex_core_at ex_irq_ready by (simp_all add: core_ready_def ex_registry ex_env_core)

theorem registry_refines_witness:
  "\<exists>t. perform_all (ex_irq_env 0) [(0, Set_shared (Spi 1) 7), (1, Set_private (Spi 2) 8), (0, Remove_shared (Spi 1)),
       (1, Set_private (Spi 1) 9)] ex_irq_state = (Inr [None, None, Some 7, None], t) \<and>
     registry_of t = \<lparr>reg_shared = Map.empty, reg_private = [Map.empty, [Spi 2 \<mapsto> 8, Spi 1 \<mapsto> 9]]\<rparr>"
proof -
  let ?xs = "[(0, 0, Set_shared (Spi 1) 7), (1, 1, Set_private (Spi 2) 8), (0, 0, Remove_shared (Spi 1)),
       (1, 1, Set_private (Spi 1) 9)] :: (u64 \<times> nat \<times> nat reg_op) list"
  have "\<forall>(m, i, x) \<in> set ?xs. core_ready (ex_irq_env 0) ex_irq_state m i" using ex_core_ready by simp
  from registry_refines [OF this] show ?thesis by (auto simp: ex_registry)
qed

end
