(* ===== verification/Discipline.thy ===== *)
theory Discipline
  imports Shell
begin

text \<open>
  Disciplines: what holds of every way a computation can end, whether it returns, panics or waits for ever. A
  discipline is given by what the primitive operations do to locks and interrupt mask; that every program of
  every core keeps it then follows from how the programs are composed, once for all disciplines.
\<close>

section \<open>The ways to end\<close>

text \<open>\<open>R s r t\<close>: from \<open>s\<close> a computation may end in \<open>t\<close> with \<open>r\<close>, of which only is seen whether it is a value or why it is none.\<close>

definition obeys :: "('s \<Rightarrow> unit res \<Rightarrow> 's \<Rightarrow> bool) \<Rightarrow> ('s, 'a) io \<Rightarrow> bool" where
  "obeys R m \<longleftrightarrow> (\<forall>s r t. m s = (r, t) \<longrightarrow> R s (map_sum id (\<lambda>_. ()) r) t)"

lemma obeysI: "(\<And>s r t. m s = (r, t) \<Longrightarrow> R s (map_sum id (\<lambda>_. ()) r) t) \<Longrightarrow> obeys R m"
  unfolding obeys_def by blast

lemma obeysD: "obeys R m \<Longrightarrow> m s = (r, t) \<Longrightarrow> R s (map_sum id (\<lambda>_. ()) r) t"
  unfolding obeys_def by blast

text \<open>Results that are not a wait.\<close>

definition spinless :: "'a res \<Rightarrow> bool" where
  "spinless r \<longleftrightarrow> (\<forall>l. r \<noteq> Inl (Spin l))"

lemma spinless_basic [simp]:
  "spinless (Inr x)" "spinless (unwrap e)" "spinless (unwrap_opt y)" "spinless (expect_opt msg y)"
  "spinless (require p b)" "spinless (Inl (Panic p))"
  by (cases e; cases y; simp add: spinless_def require_def)+

lemma spinless_shape: "spinless (map_sum id f r) \<longleftrightarrow> spinless r"
  by (cases r) (auto simp: spinless_def)

lemma spinless_rbind [intro]: "spinless r \<Longrightarrow> (\<And>x. spinless (k x)) \<Longrightarrow> spinless (rbind r k)"
  by (cases r) (auto simp: spinless_def)

lemma spinless_position: "spinless (position_cpu m nodes)"
  by (induction nodes) (auto simp: cpu_id_def intro!: spinless_rbind)

lemma spinless_code [simp]:
  "spinless (checked_add a b)" "spinless (cpu_id c)" "spinless (int_id_sgi E i)" "spinless (array_push cap xs x)"
  "spinless (cpu_count_in f)" "spinless (current_cpu_index_in E f)" "spinless (private_table s)"
  by (auto simp: checked_add_def cpu_id_def int_id_sgi_def array_push_def cpu_count_in_def fdt_cpu_nodes_def
      mpidr_to_cpu_index_def current_cpu_index_in_def private_table_def spinless_position
      intro!: spinless_rbind split: option.split)

text \<open>Computations that neither take nor wait for a lock.\<close>

definition still :: "('s io_state_scheme, 'a) io \<Rightarrow> bool" where
  "still m \<longleftrightarrow> (\<forall>s r t. m s = (r, t) \<longrightarrow> held t = held s \<and> spinless r)"

lemma stillD: "still m \<Longrightarrow> m s = (r, t) \<Longrightarrow> held t = held s" "still m \<Longrightarrow> m s = (r, t) \<Longrightarrow> spinless r"
  unfolding still_def by blast+

lemma still_basic:
  "still (return_io x)" "still (gets_io f)" "still (abort_io (Panic p))" "still (abort_io Halt)"
  "still (abort_io Powered_off)" "still (abort_io Still_running)"
  by (auto simp: still_def return_io_def gets_io_def abort_io_def spinless_def)

lemma still_lift: "spinless r \<Longrightarrow> still (lift_io r)"
  by (auto simp: still_def lift_io_def)

lemma still_modify: "(\<And>s. held (f s) = held s) \<Longrightarrow> still (modify_io f)"
  by (auto simp: still_def modify_io_def)

lemma still_bind:
  assumes "still m" and "\<And>x. still (k x)"
  shows "still (bind_io m k)"
  unfolding still_def
proof (intro allI impI)
  fix s r t
  assume run: "bind_io m k s = (r, t)"
  obtain r1 u where m: "m s = (r1, u)" by fastforce
  show "held t = held s \<and> spinless r"
  proof (cases r1)
    case (Inl e)
    with run m stillD [OF assms(1) m] show ?thesis by (auto simp: bind_io_def spinless_def)
  next
    case (Inr x)
    with run m have "k x u = (r, t)" by (simp add: bind_io_def)
    with stillD [OF assms(2)] stillD(1) [OF assms(1) m] show ?thesis by auto
  qed
qed

lemma still_gets_bind: "(\<And>s. still (k (f s))) \<Longrightarrow> still (bind_io (gets_io f) k)"
  by (auto simp: still_def bind_io_def gets_io_def)

lemma still_emit: "still (emit ev)"
  unfolding emit_def by (rule still_modify) simp

lemma still_call: "still (call f ev)"
  unfolding call_def by (intro still_bind still_basic still_emit)

lemma still_for_each: "(\<And>x. still (f x)) \<Longrightarrow> still (for_each xs f)"
  by (induction xs) (auto intro: still_bind still_basic)

lemmas still_rules = still_bind still_basic still_lift still_emit still_call still_for_each

lemma still_gic_call: "still (gic_call E ev)"
  unfolding gic_call_def by (intro still_rules) simp_all

lemma still_private_get: "still (private_get E)"
  unfolding private_get_def private_force_def core_index_def current_cpu_index_def
  by (rule still_bind, rule still_gets_bind) (auto intro!: still_rules still_modify)

lemma still_private_update: "still (private_update E f)"
  unfolding private_update_def by (auto intro!: still_rules still_modify still_private_get split: prod.split)

lemma still_psci:
  "still smc_for_psci" "still (affinity_info E c m lvl)" "still (psci_version E c)" "still (cpu_off E c)"
  unfolding smc_for_psci_def affinity_info_def psci_version_def cpu_off_def
  by (auto intro!: still_rules split: option.split)

section \<open>What cores run\<close>

text \<open>The shell on the first core, the program of another core from its first instruction in Rust, and an interrupt
  taken on any core.\<close>

datatype core_program = Run_shell shell_args nat | Run_secondary u64 | Run_interrupt

fun core_run ::
  "'e pci_env_scheme \<Rightarrow> board \<Rightarrow> (event list \<Rightarrow> bool) \<Rightarrow> core_program \<Rightarrow> ((irq_handler, 's) sec_state_scheme, unit) io" where
  "core_run E b pending (Run_shell A n) = shell_main E A (take_irq E b pending) n"
| "core_run E b pending (Run_secondary arg) = secondary_boot E (take_irq E b pending) arg"
| "core_run E b pending Run_interrupt = take_irq E b pending"

section \<open>Disciplines of the primitive operations\<close>

text \<open>A relation that composes, and then one that every primitive operation is in.\<close>

locale transitions =
  fixes R :: "'s io_state_scheme \<Rightarrow> unit res \<Rightarrow> 's io_state_scheme \<Rightarrow> bool"
  assumes R_quiet: "held t = held s \<Longrightarrow> spinless r \<Longrightarrow> R s r t"
    and R_trans: "R s (Inr ()) u \<Longrightarrow> R u r t \<Longrightarrow> R s r t"
begin

lemma obeys_still: "still m \<Longrightarrow> obeys R m"
  by (rule obeysI) (auto dest: stillD intro!: R_quiet simp: spinless_shape)

lemma obeys_bind:
  assumes "obeys R m" and "\<And>x. obeys R (k x)"
  shows "obeys R (bind_io m k)"
proof (rule obeysI)
  fix s r t
  assume run: "bind_io m k s = (r, t)"
  obtain r1 u where m: "m s = (r1, u)" by fastforce
  show "R s (map_sum id (\<lambda>_. ()) r) t"
  proof (cases r1)
    case (Inl e)
    with run m have "r = Inl e" "t = u" by (auto simp: bind_io_def)
    with obeysD [OF assms(1) m] Inl show ?thesis by simp
  next
    case (Inr x)
    with run m have "k x u = (r, t)" by (simp add: bind_io_def)
    from R_trans [OF _ obeysD [OF assms(2) this]] obeysD [OF assms(1) m] Inr show ?thesis by simp
  qed
qed

lemma obeys_for_each: "(\<And>x. obeys R (f x)) \<Longrightarrow> obeys R (for_each xs f)"
  by (induction xs) (auto intro: obeys_bind obeys_still still_basic)

lemma obeys_if: "obeys R a \<Longrightarrow> obeys R b \<Longrightarrow> obeys R (if c then a else b)"
  by simp

lemmas obeys_basic = still_basic [THEN obeys_still] still_emit [THEN obeys_still] still_call [THEN obeys_still]
  still_lift [THEN obeys_still]

lemma obeys_modify: "(\<And>s. held (f s) = held s) \<Longrightarrow> obeys R (modify_io f)"
  by (rule obeys_still, rule still_modify)

end

locale discipline = transitions R
  for R :: "(irq_handler, 's) sec_state_scheme \<Rightarrow> unit res \<Rightarrow> (irq_handler, 's) sec_state_scheme \<Rightarrow> bool" +
  fixes E :: "'e pci_env_scheme"
  assumes obeys_write: "obeys R (shared_write E ev)"
    and obeys_record: "obeys R (log_record E lvl lit args)"
    and obeys_look: "obeys R (try_read E k)"
    and obeys_ready: "obeys R (console_read_ready E)"
    and obeys_set_shared: "obeys R (set_shared_irq_handler E i h)"
    and obeys_remove_shared: "obeys R (remove_shared_irq_handler E i)"
    and obeys_set_private: "obeys R (set_private_irq_handler E i h)"
    and obeys_remove_private: "obeys R (remove_private_irq_handler E i)"
    and obeys_stack: "obeys R (get_secondary_stack heap m)"
    and obeys_gic: "still op \<Longrightarrow> obeys R (with_gic (op :: ((irq_handler, 's) sec_state_scheme, unit) io))"
    and obeys_setup: "obeys R (irq_setup E b)"
    and obeys_irq: "obeys R (take_irq E b pending)"
begin

lemmas obeys_calls = still_psci [THEN obeys_still] still_gic_call [THEN obeys_still]

lemma obeys_output:
  "obeys R (con_fmt E lit args)" "obeys R (con_bytes E bs)" "obeys R (log E lvl lit args)"
  unfolding con_fmt_def con_bytes_def console_write_def log_def
  by (auto intro!: obeys_bind obeys_basic obeys_write obeys_record split: option.split)

lemma obeys_log_lazy: "spinless args \<Longrightarrow> obeys R (log_lazy E lvl lit args)"
  unfolding log_lazy_def by (auto intro!: obeys_bind obeys_basic obeys_output split: option.split)

lemmas obeys_rules = obeys_bind obeys_basic obeys_calls obeys_for_each obeys_output

lemma obeys_console_read:
  assumes "obeys R irqs"
  shows "obeys R (console_read E irqs k n)"
proof (induction n)
  case 0
  show ?case by (simp add: obeys_basic)
next
  case (Suc n)
  with assms show ?case
    by (auto simp: wait_for_irq_def intro!: obeys_rules obeys_look split: sum.split option.split)
qed

subsection \<open>Commands\<close>

lemma obeys_alarm: "obeys R (alarm E S b args)"
  unfolding alarm_def irq_finish_def rtc_get_time_def
  by (auto intro!: obeys_rules obeys_modify split: option.split)

lemma obeys_start_cpu: "obeys R (start_cpu E heap fdt args)"
  unfolding start_cpu_def start_cpu_usage_def cpu_state_def start_core_with_stack_def start_core_def
  by (auto intro!: obeys_rules obeys_stack split: option.split)

lemma obeys_cpus: "obeys R (cpus E fdt)"
  unfolding cpus_def cpu_levels_def Let_def by (auto intro!: obeys_rules)

lemma obeys_sgi: "obeys R (sgi E args)"
  unfolding sgi_def by (auto intro!: obeys_rules split: option.split)

lemma obeys_prints:
  "obeys R (date E S)" "obeys R (dtdump E fdt)" "obeys R (shell_help E)"
  unfolding date_def dtdump_def shell_help_def rtc_get_time_def by (auto intro!: obeys_rules)

lemma obeys_block: "(\<And>m. m \<in> set ms \<Longrightarrow> obeys R m) \<Longrightarrow> obeys R (block_io ms)"
  by (induction ms) (auto intro: obeys_bind obeys_basic)

lemma obeys_lsdev: "obeys R (lsdev E S d)"
  unfolding lsdev_def lsdev_block_def
  by (auto intro!: obeys_block obeys_rules split: sum.split prod.split)

lemma obeys_lspci: "obeys R (lspci E V S roots)"
  unfolding lspci_def lspci_function_def
  by (auto intro!: obeys_rules split: option.split prod.split)

lemma obeys_vcat:
  assumes "obeys R irqs"
  shows "obeys R (vcat E S irqs n args vs)"
proof -
  have receive: "obeys R (vcat_receive E S v cid port k)" for v cid port k
    by (induction k) (auto intro!: obeys_rules)
  have event: "obeys R (vcat_event E S v cid port k ev)" for v cid port k ev
    unfolding vcat_event_def by (auto intro!: obeys_rules receive split: vsock_event_type.split)
  have send: "obeys R (vcat_send E S irqs w v cid port)" for w v cid port
    unfolding vcat_send_def by (auto intro!: obeys_rules obeys_ready obeys_console_read assms)
  have "obeys R (vcat_loop E S irqs w v cid port k)" for w v cid port k
    by (induction k) (auto intro!: obeys_rules send event split: option.split)
  then show ?thesis
    unfolding vcat_def by (auto intro!: obeys_rules split: option.split)
qed

lemma obeys_read_line:
  assumes "obeys R irqs"
  shows "obeys R (read_line E irqs w n line)"
proof -
  have "obeys R (read_char E irqs w)"
    unfolding read_char_def by (auto intro!: obeys_rules obeys_console_read assms split: list.split)
  then show ?thesis
    by (induction n arbitrary: line) (auto intro!: obeys_rules)
qed

lemma obeys_run_command:
  assumes "obeys R irqs"
  shows "obeys R (run_command E A irqs n command args)"
  unfolding run_command_def Let_def
  by (intro obeys_if obeys_bind obeys_basic(1) obeys_alarm obeys_start_cpu obeys_cpus obeys_sgi
      obeys_prints obeys_lsdev obeys_lspci obeys_vcat assms obeys_output)

lemma obeys_run_line:
  assumes "obeys R irqs"
  shows "obeys R (run_line E A irqs n line)"
  unfolding run_line_def
  by (simp add: obeys_basic obeys_bind obeys_output obeys_run_command [OF assms] split: list.split)

lemma obeys_shell_loop:
  assumes "obeys R irqs"
  shows "obeys R (shell_loop E A irqs n k)"
proof (induction k)
  case 0
  show ?case by (simp add: obeys_basic)
next
  case (Suc k)
  show ?case unfolding shell_loop.simps
    by (intro obeys_bind obeys_read_line obeys_run_line obeys_if obeys_basic(1) Suc assms obeys_output)
qed

subsection \<open>Whole programs\<close>

lemma obeys_start: "obeys R (irq_remove E b)" "obeys R irq_enable" "obeys R (enable_sgis E cpu)"
  unfolding irq_remove_def irq_enable_def enable_sgis_def
  by (auto intro!: obeys_gic still_rules still_gic_call obeys_rules obeys_remove_shared obeys_modify)

lemma obeys_shell_main: "obeys R (shell_main E A (take_irq E b pending) n)"
  unfolding shell_main_def block_io.simps
  by (intro obeys_bind obeys_basic(1,7) obeys_setup obeys_start obeys_shell_loop obeys_irq obeys_output)

lemma obeys_secondary_boot: "obeys R (secondary_boot E (take_irq E b pending) arg)"
proof -
  have "obeys R (activate m)" for m by (cases m) (simp_all add: obeys_basic)
  then have "obeys R (secondary_init E)"
    unfolding secondary_init_def activate_secondary_def secondary_init_gic_def init_irq_routing_def current_cpu_index_def
      block_io.simps
    by (auto intro!: obeys_rules obeys_gic still_emit)
  moreover have "obeys R (secondary_entry E (take_irq E b pending) arg)"
    unfolding secondary_entry_def block_io.simps current_cpu_index_def wait_for_irq_def
    by (intro obeys_bind obeys_for_each obeys_if obeys_start obeys_set_private obeys_remove_private obeys_basic
        obeys_calls obeys_irq obeys_output) simp_all
  ultimately show ?thesis unfolding secondary_boot_def by (rule obeys_bind)
qed

lemma obeys_core_run: "obeys R (core_run E b pending p)"
  by (cases p) (simp_all add: obeys_shell_main obeys_secondary_boot obeys_irq)

end

end
