(* ===== verification/Locks.thy ===== *)
theory Locks
  imports Discipline
begin

text \<open>
  The order of the spin locks, and locks and interrupts. Cores that run at the same time exclude each other by spin
  locks, and a core can wait for a lock while it holds others. Every path through the program takes its locks in one
  order, so cores cannot wait for each other in a circle, and no core waits for a lock that it holds itself. The locks
  that interrupt handlers take are waited for, and kept, with interrupts masked only, so no interrupt waits for a lock
  of the waiting code that it has interrupted. Both are disciplines in the sense of \<^verbatim>\<open>Discipline\<close>, and need to be shown for
  the primitive operations only.

  The locks that a state has as held when an operation starts are those of other cores (and those leaked at boot);
  \<^verbatim>\<open>Spin l\<close> is waiting for one of them. The heaps' own locks are taken by the allocator crate, around code of that
  crate only, and are not part of this.
\<close>

section \<open>Taking locks in order\<close>

fun lock_rank :: "lock \<Rightarrow> nat" where
  "lock_rank GIC_lock = 0"
| "lock_rank SECONDARY_STACKS_lock = 1"
| "lock_rank SHARED_IRQ_HANDLERS_lock = 2"
| "lock_rank CONSOLE_lock = 3"
| "lock_rank _ = 4"

text \<open>\<open>lock_step n s r t\<close>: a run from \<open>s\<close> to \<open>t\<close> with result \<open>r\<close> that returns has given back the locks it took; one
  that waits for a lock waits for one that was taken before it began, of rank \<open>n\<close> at least, and holds only locks of
  lower rank meanwhile.\<close>

definition lock_step :: "nat \<Rightarrow> 's io_state_scheme \<Rightarrow> 'a res \<Rightarrow> 's io_state_scheme \<Rightarrow> bool" where
  "lock_step n s r t \<longleftrightarrow>
     (\<exists>own. held t = own @ held s \<and> ((\<exists>x. r = Inr x) \<longrightarrow> own = []) \<and>
        (\<forall>l. r = Inl (Spin l) \<longrightarrow>
           n \<le> lock_rank l \<and> l \<in> set (held s) \<and> (\<forall>k \<in> set own. lock_rank k < lock_rank l)))"

definition ordered :: "nat \<Rightarrow> ('s io_state_scheme, 'a) io \<Rightarrow> bool" where
  "ordered n m \<longleftrightarrow> (\<forall>s r t. m s = (r, t) \<longrightarrow> lock_step n s r t)"

lemma orderedI: "(\<And>s r t. m s = (r, t) \<Longrightarrow> lock_step n s r t) \<Longrightarrow> ordered n m"
  unfolding ordered_def by blast

lemma orderedD: "ordered n m \<Longrightarrow> m s = (r, t) \<Longrightarrow> lock_step n s r t"
  unfolding ordered_def by blast

lemma lock_step_returned: "lock_step n s (Inr x) t \<longleftrightarrow> held t = held s"
  by (auto simp: lock_step_def)

lemma ordered_less: "ordered n m \<Longrightarrow> k \<le> n \<Longrightarrow> ordered k m"
  by (rule orderedI) (drule (1) orderedD, auto simp: lock_step_def intro: order_trans)

lemma lock_step_shape: "lock_step n s (map_sum id f r) t \<longleftrightarrow> lock_step n s r t"
  by (cases r) (auto simp: lock_step_def)

lemma ordered_obeys: "ordered n m \<longleftrightarrow> obeys (lock_step n) m"
  by (simp add: ordered_def obeys_def lock_step_shape)

interpretation lock_step: transitions "lock_step n" for n
proof
  fix s t u :: "'s io_state_scheme" and r :: "unit res"
  show "held t = held s \<Longrightarrow> spinless r \<Longrightarrow> lock_step n s r t" by (simp add: lock_step_def spinless_def)
  show "lock_step n s (Inr ()) u \<Longrightarrow> lock_step n u r t \<Longrightarrow> lock_step n s r t" by (simp add: lock_step_def)
qed

lemmas ordered_still = lock_step.obeys_still [folded ordered_obeys]
lemmas ordered_bind = lock_step.obeys_bind [folded ordered_obeys]
lemmas ordered_modify = lock_step.obeys_modify [folded ordered_obeys]
lemmas ordered_basic = lock_step.obeys_basic [folded ordered_obeys] still_gic_call [THEN ordered_still]
  still_private_get [THEN ordered_still] still_private_update [THEN ordered_still]

lemma ordered_gets_bind:
  assumes "\<And>s. ordered n (k (f s))"
  shows "ordered n (bind_io (gets_io f) k)"
  using assms by (auto simp: ordered_def bind_io_def gets_io_def)

lemma ordered_with_lock:
  assumes "ordered (Suc (lock_rank l)) m" and "n \<le> lock_rank l"
  shows "ordered n (with_lock l m)"
proof (rule orderedI)
  fix s r t
  assume run: "with_lock l m s = (r, t)"
  show "lock_step n s r t"
  proof (cases "l \<in> set (held s)")
    case True
    with run assms(2) show ?thesis by (auto simp: with_lock_def acquire_def bind_io_def lock_step_def)
  next
    case False
    obtain r1 u where m: "m (s\<lparr>held := l # held s\<rparr>) = (r1, u)" by fastforce
    from orderedD [OF assms(1) this] obtain own where own: "held u = own @ l # held s" "(\<exists>x. r1 = Inr x) \<longrightarrow> own = []"
      and spin: "\<forall>k. r1 = Inl (Spin k) \<longrightarrow> Suc (lock_rank l) \<le> lock_rank k \<and> k \<in> set (l # held s) \<and>
        (\<forall>j \<in> set own. lock_rank j < lock_rank k)"
      by (auto simp: lock_step_def)
    show ?thesis
    proof (cases r1)
      case (Inl e)
      with False run m have "r = Inl e" "t = u" by (auto simp: with_lock_def acquire_def bind_io_def)
      with own(1) spin Inl assms(2) show ?thesis unfolding lock_step_def by (intro exI [of _ "own @ [l]"]) auto
    next
      case (Inr x)
      with False run m own show ?thesis
        by (auto simp: lock_step_def with_lock_def acquire_def release_def bind_io_def modify_io_def return_io_def)
    qed
  qed
qed

lemma ordered_exception_free: "ordered n m \<Longrightarrow> ordered n (exception_free m)"
  unfolding exception_free_def by (intro ordered_bind ordered_basic ordered_modify) simp_all

lemma ordered_acquire_release:
  "bind_io (acquire l) (\<lambda>_. bind_io (gets_io f) (\<lambda>m. case g m of
       Some h \<Rightarrow> bind_io (k h) (\<lambda>_. release l)
     | None \<Rightarrow> bind_io (release l) (\<lambda>_. abort_io e))) =
   bind_io (with_lock l (bind_io (gets_io f) (\<lambda>m. case g m of
       Some h \<Rightarrow> bind_io (k h) (\<lambda>_. return_io True)
     | None \<Rightarrow> return_io False))) (\<lambda>found. if found then return_io () else abort_io e)"
  by (rule ext)
    (auto simp: with_lock_def acquire_def release_def bind_io_def gets_io_def modify_io_def return_io_def abort_io_def
      split: option.split prod.split sum.split)

lemmas ordered_rules = ordered_bind ordered_basic ordered_exception_free

section \<open>Locks of the primitive operations\<close>

lemma ordered_console:
  "n \<le> 3 \<Longrightarrow> ordered n (shared_write E ev)" "n \<le> 3 \<Longrightarrow> ordered n (log_record E lvl lit args)"
  "n \<le> 3 \<Longrightarrow> ordered n (try_read E k)" "n \<le> 3 \<Longrightarrow> ordered n (console_read_ready E)"
  unfolding shared_write_def log_record_def try_read_def console_read_ready_def uart_read_ready_def uart_read_def
  by (auto intro!: ordered_rules ordered_with_lock split: sum.split)

lemma ordered_log: "n \<le> 3 \<Longrightarrow> ordered n (log E lvl lit args)"
  unfolding log_def by (auto intro!: ordered_rules ordered_console split: option.split)

lemma ordered_log_lazy: "n \<le> 3 \<Longrightarrow> spinless args \<Longrightarrow> ordered n (log_lazy E lvl lit args)"
  unfolding log_lazy_def by (auto intro!: ordered_rules ordered_log split: option.split)

lemma ordered_registry:
  "n \<le> 2 \<Longrightarrow> ordered n (set_shared_irq_handler E k h)" "n \<le> 2 \<Longrightarrow> ordered n (remove_shared_irq_handler E k)"
  "n \<le> 2 \<Longrightarrow> ordered n (set_private_irq_handler E k h)" "n \<le> 2 \<Longrightarrow> ordered n (remove_private_irq_handler E k)"
  unfolding set_shared_irq_handler_def remove_shared_irq_handler_def set_private_irq_handler_def
    remove_private_irq_handler_def
  by (auto intro!: ordered_rules ordered_log ordered_with_lock ordered_modify split: prod.split)

lemma ordered_with_gic: "ordered 1 m \<Longrightarrow> ordered 0 (with_gic m)"
  unfolding with_gic_def by (auto intro!: ordered_rules ordered_with_lock)

lemma ordered_get_stack: "ordered 0 (get_secondary_stack heap m)"
  unfolding get_secondary_stack_def secondary_stack_default_def
  by (auto intro!: ordered_rules ordered_with_lock ordered_modify split: option.split)

lemma ordered_irq_setup: "ordered 0 (irq_setup E b)"
  unfolding irq_setup_def by (auto intro!: ordered_with_gic ordered_rules ordered_registry)

lemma ordered_run_handler: "ordered 3 (run_handler E b h i)"
proof (cases h)
  case Console_handle_irq
  then show ?thesis
    by (cases b) (auto simp: console_handle_irq_def pl011_handle_irq_def uart16550_handle_irq_def
        intro!: ordered_rules ordered_with_lock)
qed (auto simp: irq_handle_def secondary_irq_handler_def intro!: ordered_rules ordered_log ordered_log_lazy ordered_modify)

lemma ordered_with_borrow: "ordered n m \<Longrightarrow> ordered n (with_borrow m)"
  unfolding with_borrow_def by (auto intro!: ordered_rules ordered_modify)

text \<open>Dispatch, from the acknowledged interrupt on.\<close>

lemma ordered_dispatch:
  assumes run: "\<And>h i. ordered 3 (run h i)" and "n \<le> 2"
  shows "ordered n (bind_io (private_get E) (\<lambda>(i, p). case p k of
       Some h \<Rightarrow> with_borrow (run h k)
     | None \<Rightarrow> bind_io (acquire SHARED_IRQ_HANDLERS_lock) (\<lambda>_. bind_io (gets_io shared_irq_handlers) (\<lambda>m. case m k of
         Some h \<Rightarrow> bind_io (run h k) (\<lambda>_. release SHARED_IRQ_HANDLERS_lock)
       | None \<Rightarrow> bind_io (release SHARED_IRQ_HANDLERS_lock) (\<lambda>_. abort_io (Panic q))))))"
proof -
  have low: "ordered n (run h i)" for h i using run by (rule ordered_less) (use assms(2) in simp)
  have "ordered (Suc (lock_rank SHARED_IRQ_HANDLERS_lock)) (bind_io (gets_io shared_irq_handlers) (\<lambda>m. case m k of
       Some h \<Rightarrow> bind_io (run h k) (\<lambda>_. return_io True)
     | None \<Rightarrow> return_io False))"
    by (rule ordered_gets_bind) (auto intro!: ordered_bind ordered_basic simp: run numeral_3_eq_3 [symmetric] split: option.split)
  from ordered_with_lock [OF this, of n] assms(2) have "ordered n (bind_io (with_lock SHARED_IRQ_HANDLERS_lock
      (bind_io (gets_io shared_irq_handlers) (\<lambda>m. case m k of
         Some h \<Rightarrow> bind_io (run h k) (\<lambda>_. return_io True)
       | None \<Rightarrow> return_io False))) (\<lambda>found. if found then return_io () else abort_io (Panic q)))"
    by (intro ordered_bind) (simp_all add: ordered_basic)
  then have shared: "ordered n (bind_io (acquire SHARED_IRQ_HANDLERS_lock) (\<lambda>_. bind_io (gets_io shared_irq_handlers) (\<lambda>m. case m k of
         Some h \<Rightarrow> bind_io (run h k) (\<lambda>_. release SHARED_IRQ_HANDLERS_lock)
       | None \<Rightarrow> bind_io (release SHARED_IRQ_HANDLERS_lock) (\<lambda>_. abort_io (Panic q)))))"
    by (simp only: ordered_acquire_release [where g = "\<lambda>m. m k"])
  show ?thesis
    by (rule ordered_bind, rule ordered_basic, clarify) (simp split: option.split add: shared ordered_with_borrow low)
qed

lemma ordered_take_irq:
  assumes "n \<le> 2"
  shows "ordered n (take_irq E b pending)"
proof -
  have "ordered n (irq_current E (run_handler E b))"
    unfolding irq_current_def handle_irq_def using assms
    by (intro ordered_bind ordered_log ordered_basic ordered_exception_free ordered_dispatch ordered_run_handler) simp_all
  then show ?thesis
    unfolding take_irq_def by (intro ordered_bind ordered_basic) (auto intro: ordered_basic)
qed

interpretation order: discipline "lock_step 0" E for E :: "'e pci_env_scheme"
  by unfold_locales (simp_all flip: ordered_obeys
      add: ordered_console ordered_registry ordered_get_stack ordered_with_gic ordered_still ordered_irq_setup ordered_take_irq)

section \<open>Locks and interrupts\<close>

text \<open>The locks that the interrupt path can take. Code that keeps interrupts masked once they are masked is \<open>closed\<close>.\<close>

definition handler_lock :: "lock \<Rightarrow> bool" where
  "handler_lock l \<longleftrightarrow> 2 \<le> lock_rank l"

definition closed :: "('s io_state_scheme, 'a) io \<Rightarrow> bool" where
  "closed m \<longleftrightarrow> (\<forall>s r t. m s = (r, t) \<longrightarrow> masked s \<longrightarrow> masked t)"

lemma closed_basic:
  "closed (return_io x)" "closed (gets_io f)" "closed (abort_io e)" "closed (lift_io q)" "closed (emit ev)"
  "closed (call reply ev)" "closed (acquire l)" "closed (release l)"
  by (auto simp: closed_def runs emit_def call_def acquire_def release_def lift_io_def abort_io_def
      split: sum.splits option.splits if_splits)

lemma closed_modify: "(\<And>s. masked (f s) = masked s) \<Longrightarrow> closed (modify_io f)"
  by (auto simp: closed_def runs)

lemma closed_bind:
  assumes "closed m" and "\<And>x. closed (k x)"
  shows "closed (bind_io m k)"
  using assms unfolding closed_def bind_io_def by (fastforce split: prod.splits sum.splits)

lemma closed_with_lock: "closed m \<Longrightarrow> closed (with_lock l m)"
  unfolding with_lock_def by (intro closed_bind closed_basic)

lemma closed_exception_free: "closed m \<Longrightarrow> closed (exception_free m)"
  unfolding closed_def exception_free_def bind_io_def
  by (fastforce simp: runs split: prod.splits sum.splits)

text \<open>\<open>mask_step s r t\<close>: a run from \<open>s\<close> to \<open>t\<close> that has stopped holding, or waiting for, a lock that the interrupt
  path can take has interrupts masked.\<close>

definition mask_step :: "'s io_state_scheme \<Rightarrow> 'a res \<Rightarrow> 's io_state_scheme \<Rightarrow> bool" where
  "mask_step s r t \<longleftrightarrow>
     (\<exists>own. held t = own @ held s \<and> ((\<exists>x. r = Inr x) \<longrightarrow> own = []) \<and>
        (\<forall>l. handler_lock l \<and> (l \<in> set own \<or> r = Inl (Spin l)) \<longrightarrow> masked t))"

lemma mask_step_shape: "mask_step s (map_sum id f r) t \<longleftrightarrow> mask_step s r t"
  by (cases r) (auto simp: mask_step_def)


interpretation mask_step: transitions mask_step
proof
  fix s t u :: "'s io_state_scheme" and r :: "unit res"
  show "held t = held s \<Longrightarrow> spinless r \<Longrightarrow> mask_step s r t" by (simp add: mask_step_def spinless_def)
  show "mask_step s (Inr ()) u \<Longrightarrow> mask_step u r t \<Longrightarrow> mask_step s r t" by (simp add: mask_step_def)
qed

lemma obeys_maskI: "(\<And>s r t. m s = (r, t) \<Longrightarrow> mask_step s r t) \<Longrightarrow> obeys mask_step m"
  by (simp add: obeys_def mask_step_shape)

lemma obeys_maskD: "obeys mask_step m \<Longrightarrow> m s = (r, t) \<Longrightarrow> mask_step s r t"
  by (simp add: obeys_def mask_step_shape)

lemma masked_exception_free:
  assumes "ordered n m" and "closed m"
  shows "obeys mask_step (exception_free m)"
proof (rule obeys_maskI)
  fix s r t
  assume run: "exception_free m s = (r, t)"
  obtain r1 u where m: "m (s\<lparr>masked := True\<rparr>) = (r1, u)" by fastforce
  with assms(2) have "masked u" by (auto simp: closed_def)
  moreover from orderedD [OF assms(1) m] obtain own where "held u = own @ held s" "(\<exists>x. r1 = Inr x) \<longrightarrow> own = []"
    by (auto simp: lock_step_def)
  ultimately show "mask_step s r t"
    using run m by (cases r1) (auto simp: exception_free_def mask_step_def runs bind_io_def)
qed

lemma masked_with_lock:
  assumes "obeys mask_step m" and "\<not> handler_lock l"
  shows "obeys mask_step (with_lock l m)"
proof (rule obeys_maskI)
  fix s r t
  assume run: "with_lock l m s = (r, t)"
  show "mask_step s r t"
  proof (cases "l \<in> set (held s)")
    case True
    with run assms(2) show ?thesis by (auto simp: with_lock_def acquire_def bind_io_def mask_step_def)
  next
    case False
    obtain r1 u where m: "m (s\<lparr>held := l # held s\<rparr>) = (r1, u)" by fastforce
    from obeys_maskD [OF assms(1) this] obtain own where own: "held u = own @ l # held s" "(\<exists>x. r1 = Inr x) \<longrightarrow> own = []"
      and mask: "\<forall>k. handler_lock k \<and> (k \<in> set own \<or> r1 = Inl (Spin k)) \<longrightarrow> masked u"
      by (auto simp: mask_step_def)
    show ?thesis
    proof (cases r1)
      case (Inl e)
      with False run m have "r = Inl e" "t = u" by (auto simp: with_lock_def acquire_def bind_io_def)
      with own(1) mask Inl assms(2) show ?thesis unfolding mask_step_def by (intro exI [of _ "own @ [l]"]) auto
    next
      case (Inr x)
      with False run m own show ?thesis
        by (auto simp: mask_step_def with_lock_def acquire_def release_def bind_io_def modify_io_def return_io_def)
    qed
  qed
qed

subsection \<open>Primitive operations with interrupts masked\<close>

lemmas closed_rules = closed_bind closed_basic closed_with_lock closed_exception_free closed_modify

lemma closed_console:
  "closed (shared_write E ev)" "closed (log_record E lvl lit args)" "closed (log E lvl lit args)"
  "closed (private_get E)" "closed (private_update E f)"
  unfolding shared_write_def log_record_def log_def private_update_def private_get_def private_force_def core_index_def
    current_cpu_index_def
  by (auto intro!: closed_rules split: sum.split option.split prod.split)

lemma closed_run_handler: "closed (run_handler E b h i)"
proof (cases h)
  case Console_handle_irq
  then show ?thesis
    by (cases b) (auto simp: console_handle_irq_def pl011_handle_irq_def uart16550_handle_irq_def intro!: closed_rules)
qed (auto simp: irq_handle_def secondary_irq_handler_def log_lazy_def intro!: closed_rules closed_console split: option.split)

lemmas masked_rules = mask_step.obeys_bind mask_step.obeys_basic still_gic_call [THEN mask_step.obeys_still]
  still_private_get [THEN mask_step.obeys_still]

lemma masked_console:
  "obeys mask_step (shared_write E ev)" "obeys mask_step (log_record E lvl lit args)" "obeys mask_step (try_read E k)"
  "obeys mask_step (console_read_ready E)"
  unfolding shared_write_def log_record_def try_read_def console_read_ready_def uart_read_ready_def uart_read_def
  by (auto intro!: masked_rules masked_exception_free [of 0] ordered_rules ordered_with_lock closed_rules split: sum.split)

lemma masked_log: "obeys mask_step (log E lvl lit args)"
  unfolding log_def by (auto intro!: masked_rules masked_console split: option.split)

lemma masked_registry:
  "obeys mask_step (set_shared_irq_handler E k h)" "obeys mask_step (remove_shared_irq_handler E k)"
  "obeys mask_step (set_private_irq_handler E k h)" "obeys mask_step (remove_private_irq_handler E k)"
  unfolding set_shared_irq_handler_def remove_shared_irq_handler_def set_private_irq_handler_def
    remove_private_irq_handler_def
  by (auto intro!: masked_rules masked_log masked_exception_free [of 0] ordered_rules ordered_with_lock ordered_modify
      closed_rules closed_console split: prod.split)

lemma masked_with_gic: "obeys mask_step m \<Longrightarrow> obeys mask_step (with_gic m)"
  unfolding with_gic_def by (auto intro!: masked_rules masked_with_lock simp: handler_lock_def)

lemma masked_get_stack: "obeys mask_step (get_secondary_stack heap m)"
  unfolding get_secondary_stack_def secondary_stack_default_def
  by (auto intro!: masked_rules masked_with_lock mask_step.obeys_modify simp: handler_lock_def split: option.split)

lemma masked_irq_setup: "obeys mask_step (irq_setup E b)"
  unfolding irq_setup_def by (auto intro!: masked_with_gic masked_rules masked_registry)

lemma masked_take_irq: "obeys mask_step (take_irq E b pending)"
proof -
  have "obeys mask_step (irq_current E (run_handler E b))"
    unfolding irq_current_def handle_irq_def with_borrow_def
    by (intro masked_rules masked_log masked_exception_free [of 0] ordered_dispatch [unfolded with_borrow_def] ordered_run_handler)
      (auto intro!: closed_rules closed_console closed_run_handler split: option.split)
  then show ?thesis
    unfolding take_irq_def by (intro masked_rules) (auto intro: masked_rules)
qed

interpretation mask: discipline mask_step E for E :: "'e pci_env_scheme"
  by unfold_locales
    (simp_all add: masked_console masked_registry masked_get_stack masked_with_gic mask_step.obeys_still masked_irq_setup
      masked_take_irq)

lemma ordered_core_run: "ordered 0 (core_run E b pending p)"
  by (simp add: ordered_obeys order.obeys_core_run)

section \<open>An example\<close>

text \<open>A shell that waits for the shared table, and a core that handles the alarm's interrupt and waits for the console.\<close>

lemma ex_shell_waits:
  "\<exists>t. core_run (ex_typing ''x'') Qemu (\<lambda>_. True) (Run_shell ex_shell_args 1)
       (ex_sec_state\<lparr>held := [SHARED_IRQ_HANDLERS_lock]\<rparr>) = (Inl (Spin SHARED_IRQ_HANDLERS_lock), t) \<and>
     held t = [GIC_lock] @ [SHARED_IRQ_HANDLERS_lock]"
  by (simp add: shell_main_def irq_setup_def with_gic_def gic_call_def set_shared_irq_handler_def private_get_def
      private_force_def private_table_def core_index_def current_cpu_index_def current_cpu_index_in_def
      mpidr_to_cpu_index_def cpu_id_def mpidr_affinity_def MPIDR_AFFINITY_MASK_def fdt_cpu_nodes_def cpu_count_in_def
      ex_fdt_def numeral_2_eq_2 exception_free_def with_lock_def acquire_def release_def runs logs_def less_eq_level_def
      ex_sec_state_def ex_shell_args_def)

lemma ex_ack: "ack_reply (ex_typing ''x'') h = Some (Sgi 0)"
  by (simp add: ex_typing_def ex_pci_env_def)

lemma ex_log_waits:
  fixes s :: "irq_handler sec_state"
  assumes "logger s = Some Debug" and "CONSOLE_lock \<in> set (held s)"
  shows "log (ex_typing ''x'') Info lit args s = (Inl (Spin CONSOLE_lock), s\<lparr>masked := True\<rparr>)"
  using assms
  by (simp add: log_def log_record_def exception_free_def with_lock_def acquire_def runs log_enabled_def less_eq_level_def)

lemma ex_interrupt_waits:
  "\<exists>t. core_run (ex_typing ''x'') Qemu (\<lambda>_. True) Run_interrupt
       (ex_sec_state\<lparr>held := [CONSOLE_lock], shared_irq_handlers := [Sgi 0 \<mapsto> Alarm_irq_handle]\<rparr>) =
       (Inl (Spin CONSOLE_lock), t) \<and>
     held t = [SHARED_IRQ_HANDLERS_lock] @ [CONSOLE_lock]"
  by (simp add: take_irq_def irq_current_def handle_irq_def irq_handle_def private_get_def ex_ack ex_log_waits
      private_force_def private_table_def core_index_def current_cpu_index_def current_cpu_index_in_def
      mpidr_to_cpu_index_def cpu_id_def mpidr_affinity_def MPIDR_AFFINITY_MASK_def fdt_cpu_nodes_def cpu_count_in_def
      ex_fdt_def numeral_2_eq_2 exception_free_def acquire_def release_def runs logs_def less_eq_level_def
      ex_sec_state_def)

text \<open>A shell that waits for the interrupt controller with interrupts enabled, and the interrupt that comes in then.\<close>

lemma ex_shell_interrupted:
  "\<exists>t u. core_run (ex_typing ''x'') Qemu (\<lambda>_. True) (Run_shell ex_shell_args 1)
       (ex_sec_state\<lparr>held := [GIC_lock, SHARED_IRQ_HANDLERS_lock]\<rparr>) = (Inl (Spin GIC_lock), t) \<and> \<not> masked t \<and>
     take_irq (ex_typing ''x'') Qemu (\<lambda>_. True) t = (Inl (Spin SHARED_IRQ_HANDLERS_lock), u)"
  by (simp add: shell_main_def irq_setup_def with_gic_def with_lock_def take_irq_def irq_current_def handle_irq_def
      private_get_def private_force_def private_table_def core_index_def current_cpu_index_def current_cpu_index_in_def
      mpidr_to_cpu_index_def cpu_id_def mpidr_affinity_def MPIDR_AFFINITY_MASK_def fdt_cpu_nodes_def cpu_count_in_def
      ex_fdt_def numeral_2_eq_2 exception_free_def acquire_def release_def runs logs_def less_eq_level_def
      ex_sec_state_def ex_shell_args_def ex_ack)

section \<open>Properties\<close>

text \<open>C15: every core takes its locks in one order, and no interrupt waits for waiting code that it interrupts. Whatever a core runs,
  the shell with any of its commands, another core's program or an interrupt, and in whatever state: if it returns it
  has given back every lock it took; if it waits for a lock, then for one that something else had taken before, never
  for one that it took itself, and meanwhile it holds only locks that come before it in the order of the interrupt
  controller, the stacks, the table of shared handlers and the console. And if it has stopped (waiting, or after a
  panic) with interrupts enabled, then an interrupt that comes in while it waits may wait for a lock, but for none that
  the stopped code took.\<close>

theorem locks_ordered:
  assumes run: "core_run E b pending p s = (r, t)"
  shows "\<exists>own. held t = own @ held s \<and> (r = Inr () \<longrightarrow> own = []) \<and>
    (\<forall>l. r = Inl (Spin l) \<longrightarrow> l \<in> set (held s) \<and> (\<forall>k \<in> set own. lock_rank k < lock_rank l)) \<and>
    (\<forall>now l u. \<not> masked t \<longrightarrow> take_irq E b now t = (Inl (Spin l), u) \<longrightarrow> l \<in> set (held s) - set own)"
proof -
  from orderedD [OF ordered_core_run run] obtain own where own: "held t = own @ held s" "r = Inr () \<longrightarrow> own = []"
    "\<forall>l. r = Inl (Spin l) \<longrightarrow> l \<in> set (held s) \<and> (\<forall>k \<in> set own. lock_rank k < lock_rank l)"
    by (auto simp: lock_step_def)
  moreover have "l \<in> set (held s) - set own" if "\<not> masked t" "take_irq E b now t = (Inl (Spin l), u)" for now l u
  proof -
    from orderedD [OF ordered_take_irq [of 2] that(2)] have "handler_lock l" "l \<in> set (held t)"
      by (auto simp: lock_step_def handler_lock_def)
    moreover from obeys_maskD [OF mask.obeys_core_run run] own(1) that(1) have "\<forall>l \<in> set own. \<not> handler_lock l"
      by (auto simp: mask_step_def)
    ultimately show ?thesis using own(1) by auto
  qed
  ultimately show ?thesis by blast
qed

theorem locks_ordered_witness:
  "(\<exists>t own. core_run (ex_typing ''x'') Qemu (\<lambda>_. True) (Run_shell ex_shell_args 1)
       (ex_sec_state\<lparr>held := [SHARED_IRQ_HANDLERS_lock]\<rparr>) = (Inl (Spin SHARED_IRQ_HANDLERS_lock), t) \<and>
     own = [GIC_lock] \<and> held t = own @ [SHARED_IRQ_HANDLERS_lock] \<and>
     (\<forall>k \<in> set own. lock_rank k < lock_rank SHARED_IRQ_HANDLERS_lock)) \<and>
   (\<exists>t u. core_run (ex_typing ''x'') Qemu (\<lambda>_. True) (Run_shell ex_shell_args 1)
       (ex_sec_state\<lparr>held := [GIC_lock, SHARED_IRQ_HANDLERS_lock]\<rparr>) = (Inl (Spin GIC_lock), t) \<and> \<not> masked t \<and>
     take_irq (ex_typing ''x'') Qemu (\<lambda>_. True) t = (Inl (Spin SHARED_IRQ_HANDLERS_lock), u) \<and>
     (\<exists>own. held t = own @ [GIC_lock, SHARED_IRQ_HANDLERS_lock] \<and> SHARED_IRQ_HANDLERS_lock \<notin> set own))"
proof -
  obtain t where t: "core_run (ex_typing ''x'') Qemu (\<lambda>_. True) (Run_shell ex_shell_args 1)
       (ex_sec_state\<lparr>held := [SHARED_IRQ_HANDLERS_lock]\<rparr>) = (Inl (Spin SHARED_IRQ_HANDLERS_lock), t)"
     "held t = [GIC_lock] @ [SHARED_IRQ_HANDLERS_lock]"
    using ex_shell_waits by blast
  obtain v u where v: "core_run (ex_typing ''x'') Qemu (\<lambda>_. True) (Run_shell ex_shell_args 1)
       (ex_sec_state\<lparr>held := [GIC_lock, SHARED_IRQ_HANDLERS_lock]\<rparr>) = (Inl (Spin GIC_lock), v)" "\<not> masked v"
     "take_irq (ex_typing ''x'') Qemu (\<lambda>_. True) v = (Inl (Spin SHARED_IRQ_HANDLERS_lock), u)"
    using ex_shell_interrupted by blast
  from locks_ordered [OF v(1)] v(2,3)
  have "\<exists>own. held v = own @ [GIC_lock, SHARED_IRQ_HANDLERS_lock] \<and> SHARED_IRQ_HANDLERS_lock \<notin> set own" by auto
  with v have second: "\<exists>t u. core_run (ex_typing ''x'') Qemu (\<lambda>_. True) (Run_shell ex_shell_args 1)
       (ex_sec_state\<lparr>held := [GIC_lock, SHARED_IRQ_HANDLERS_lock]\<rparr>) = (Inl (Spin GIC_lock), t) \<and> \<not> masked t \<and>
     take_irq (ex_typing ''x'') Qemu (\<lambda>_. True) t = (Inl (Spin SHARED_IRQ_HANDLERS_lock), u) \<and>
     (\<exists>own. held t = own @ [GIC_lock, SHARED_IRQ_HANDLERS_lock] \<and> SHARED_IRQ_HANDLERS_lock \<notin> set own)"
    by blast
  from locks_ordered [OF t(1)] t(2)
  have "\<forall>k \<in> set [GIC_lock]. lock_rank k < lock_rank SHARED_IRQ_HANDLERS_lock" by auto
  with t second show ?thesis by blast
qed

text \<open>C7: cores never deadlock on the program's locks. Take any cores, each running the shell, the program of the other
  cores or an interrupt, in any state, and each waiting for a lock: at least one of them waits for a lock that none of them has
  taken in that run. A core that has panicked is not among them: a lock it held stays taken. Nor is the first core while it
  boots, when no other core runs.\<close>

theorem cores_never_deadlock:
  assumes "finite C" and "C \<noteq> {}"
    and "\<forall>c \<in> C. core_run (E c) b (pending c) (p c) (s c) = (Inl (Spin (w c)), t c)"
    and "\<forall>c \<in> C. held (t c) = own c @ held (s c)"
  shows "\<exists>c \<in> C. \<forall>d \<in> C. w c \<notin> set (own d)"
proof -
  let ?rank = "\<lambda>c. lock_rank (w c)"
  obtain c where c: "c \<in> C" "?rank c = Max (?rank ` C)"
    using Max_in [of "?rank ` C"] assms(1,2) by fastforce
  have "w c \<notin> set (own d)" if d: "d \<in> C" for d
  proof
    assume "w c \<in> set (own d)"
    moreover have "lock_step 0 (s d) (Inl (Spin (w d)) :: unit res) (t d)"
      using orderedD [OF ordered_core_run] assms(3) d by blast
    with assms(4) d have "\<forall>k \<in> set (own d). lock_rank k < ?rank d" by (simp add: lock_step_def)
    ultimately have "?rank c < ?rank d" by blast
    moreover have "?rank d \<le> Max (?rank ` C)" using assms(1) d by simp
    ultimately show False using c(2) by simp
  qed
  with c(1) show ?thesis by blast
qed

theorem cores_never_deadlock_witness:
  "\<exists>t u. core_run (ex_typing ''x'') Qemu (\<lambda>_. True) (Run_shell ex_shell_args 1)
       (ex_sec_state\<lparr>held := [SHARED_IRQ_HANDLERS_lock]\<rparr>) = (Inl (Spin SHARED_IRQ_HANDLERS_lock), t) \<and>
     held t = [GIC_lock] @ [SHARED_IRQ_HANDLERS_lock] \<and>
     core_run (ex_typing ''x'') Qemu (\<lambda>_. True) Run_interrupt
       (ex_sec_state\<lparr>held := [CONSOLE_lock], shared_irq_handlers := [Sgi 0 \<mapsto> Alarm_irq_handle]\<rparr>) = (Inl (Spin CONSOLE_lock), u) \<and>
     held u = [SHARED_IRQ_HANDLERS_lock] @ [CONSOLE_lock] \<and>
     (\<exists>c \<in> {0, 1 :: nat}. \<forall>d \<in> {0, 1 :: nat}.
     (if c = 0 then SHARED_IRQ_HANDLERS_lock else CONSOLE_lock) \<notin> set (if d = 0 then [GIC_lock] else [SHARED_IRQ_HANDLERS_lock]))"
proof -
  obtain t u where
    t: "core_run (ex_typing ''x'') Qemu (\<lambda>_. True) (Run_shell ex_shell_args 1)
       (ex_sec_state\<lparr>held := [SHARED_IRQ_HANDLERS_lock]\<rparr>) = (Inl (Spin SHARED_IRQ_HANDLERS_lock), t)"
     "held t = [GIC_lock] @ [SHARED_IRQ_HANDLERS_lock]"
    and u: "core_run (ex_typing ''x'') Qemu (\<lambda>_. True) Run_interrupt
       (ex_sec_state\<lparr>held := [CONSOLE_lock], shared_irq_handlers := [Sgi 0 \<mapsto> Alarm_irq_handle]\<rparr>) =
       (Inl (Spin CONSOLE_lock), u)" "held u = [SHARED_IRQ_HANDLERS_lock] @ [CONSOLE_lock]"
    using ex_shell_waits ex_interrupt_waits by blast
  moreover have "\<exists>c \<in> {0, 1 :: nat}. \<forall>d \<in> {0, 1 :: nat}.
     (if c = 0 then SHARED_IRQ_HANDLERS_lock else CONSOLE_lock) \<notin> set (if d = 0 then [GIC_lock] else [SHARED_IRQ_HANDLERS_lock])"
    by (rule cores_never_deadlock [where E = "\<lambda>_. ex_typing ''x''" and b = Qemu and pending = "\<lambda>_ _. True" and
        p = "\<lambda>c. if c = 0 then Run_shell ex_shell_args 1 else Run_interrupt" and
        s = "\<lambda>c. if c = 0 then ex_sec_state\<lparr>held := [SHARED_IRQ_HANDLERS_lock]\<rparr>
          else ex_sec_state\<lparr>held := [CONSOLE_lock], shared_irq_handlers := [Sgi 0 \<mapsto> Alarm_irq_handle]\<rparr>" and
        t = "\<lambda>c. if c = 0 then t else u"])
      (use t u in \<open>simp_all add: ex_sec_state_def del: core_run.simps\<close>)
  ultimately show ?thesis by blast
qed

end
