(* ===== verification/Build.thy ===== *)
theory Build
  imports Platform
begin

text \<open>
  The build script and the linker scripts: which board an image is built for and where it is linked to run.
\<close>

section \<open>The build script\<close>

definition PLATFORMS :: "string list" where
  "PLATFORMS = [''crosvm'', ''qemu'']"

text \<open>\<^verbatim>\<open>[&str]::join\<close>.\<close>

fun join_strings :: "string \<Rightarrow> string list \<Rightarrow> string" where
  "join_strings sep [] = []"
| "join_strings sep [s] = s"
| "join_strings sep (s # t # ss) = s @ sep @ join_strings sep (t # ss)"

text \<open>\<^verbatim>\<open>main\<close> of \<^verbatim>\<open>build.rs\<close>, from the value of \<^verbatim>\<open>CARGO_CFG_PLATFORM\<close> to the lines printed for the build tool and the
  result.\<close>

definition build_main :: "string option \<Rightarrow> string list \<times> unit res" where
  "build_main var =
     (let check = ''cargo::rustc-check-cfg=cfg(platform, values('' @ [CHR 0x22] @
        join_strings ([CHR 0x22] @ '', '' @ [CHR 0x22]) PLATFORMS @ [CHR 0x22] @ ''))''
      in case var of
        None \<Rightarrow> ([check], Inl (Panic (Expect ''Missing platform name'')))
      | Some platform \<Rightarrow>
          if platform \<in> set PLATFORMS then
            ([check,
              ''cargo:rustc-link-arg=-Timage.ld'',
              ''cargo:rustc-link-arg=-Tlinker/'' @ platform @ ''.ld'',
              ''cargo:rerun-if-changed=linker/'' @ platform @ ''.ld''], Inr ())
          else ([check],
            Inl (Panic (Assert_failed ''Unexpected platform name {platform:?}. Supported platforms: {PLATFORMS:?}''))))"

section \<open>The platform and its memory\<close>

text \<open>The implementation of the platform that the configuration selects.\<close>

definition PlatformImpl :: "string \<Rightarrow> board option" where
  "PlatformImpl platform =
     (if platform = ''crosvm'' then Some Crosvm
      else if platform = ''qemu'' then Some Qemu
      else None)"

text \<open>The linker scripts: the memory the image is linked to.\<close>

record image_memory =
  mem_origin :: nat
  mem_length :: nat

definition qemu_ld :: image_memory where
  "qemu_ld = \<lparr>mem_origin = 0x40080000, mem_length = 2 * 1024 * 1024\<rparr>"

definition crosvm_ld :: image_memory where
  "crosvm_ld = \<lparr>mem_origin = 0x80200000, mem_length = 32 * 1024 * 1024\<rparr>"

definition linker_script :: "string \<Rightarrow> image_memory option" where
  "linker_script script =
     (if script = ''linker/crosvm.ld'' then Some crosvm_ld
      else if script = ''linker/qemu.ld'' then Some qemu_ld
      else None)"

text \<open>A build goes through exactly if the configuration selects an implementation, and then the script it hands to
  the linker is that board's.\<close>

lemma build_main_result: "(\<exists>lines. build_main (Some p) = (lines, Inr ())) \<longleftrightarrow> PlatformImpl p \<noteq> None"
  by (auto simp: build_main_def PlatformImpl_def PLATFORMS_def Let_def)

lemma build_main_script:
  assumes "build_main (Some p) = (lines, Inr ())" and "PlatformImpl p = Some b"
  shows "\<exists>script. ''cargo:rustc-link-arg=-T'' @ script \<in> set lines \<and>
    linker_script script = Some \<lparr>mem_origin = image_origin b, mem_length = image_length b\<rparr>"
proof (rule exI [of _ "''linker/'' @ p @ ''.ld''"], rule conjI)
  show "''cargo:rustc-link-arg=-T'' @ ''linker/'' @ p @ ''.ld'' \<in> set lines"
    using assms(1) by (auto simp: build_main_def Let_def split: if_splits)
  show "linker_script (''linker/'' @ p @ ''.ld'') = Some \<lparr>mem_origin = image_origin b, mem_length = image_length b\<rparr>"
    using assms(2)
    by (auto simp: PlatformImpl_def linker_script_def crosvm_ld_def qemu_ld_def split: if_splits)
qed

section \<open>The image and the initial page table\<close>

text \<open>What the initial page table makes of an address: a table of blocks of a gigabyte.\<close>

definition walked :: "'e pt_env_scheme \<Rightarrow> board \<Rightarrow> u64 \<Rightarrow> u64" where
  "walked E b va = block_address (entry_of E b va) + take_bit 30 va"

lemma walked_identity:
  assumes "attributes_law E" and "unat (drop_bit 30 va) < 512" and "entry_of E b va \<noteq> 0"
  shows "walked E b va = va"
proof -
  have "block_address (entry_of E b va) = of_nat (unat (drop_bit 30 va)) * 2 ^ 30"
    using initial_idmap_identity [OF assms(1,2), of b] assms(3) by (simp add: entry_of_def)
  also have "\<dots> = push_bit 30 (drop_bit 30 va)" by (simp add: push_bit_eq_mult)
  finally show ?thesis by (simp add: walked_def bits_ident)
qed

lemma image_entry:
  assumes "attributes_law E" and "image_origin b \<le> unat va" and "unat va < image_origin b + image_length b"
  shows "unat (drop_bit 30 va) < 512" "block_attributes (entry_of E b va) = EL1_MEMORY_ATTRIBUTES E"
    "entry_of E b va \<noteq> 0"
proof -
  have i: "unat (drop_bit 30 va) = unat va div 2 ^ 30" by (simp add: drop_bit_eq_div unat_div)
  have "unat (drop_bit 30 va) = (case b of Qemu \<Rightarrow> 1 | Crosvm \<Rightarrow> 2)"
    using assms(2,3) unfolding i by (cases b) simp_all
  then have n: "unat (drop_bit 30 va) < 512" "block_attributes (entry_of E b va) = EL1_MEMORY_ATTRIBUTES E"
    "block_address (entry_of E b va) \<noteq> 0"
    by (cases b; simp add: entry_of_def qemu_idmap_nth crosvm_idmap_nth EL1_entries [OF assms(1)])+
  show "unat (drop_bit 30 va) < 512" "block_attributes (entry_of E b va) = EL1_MEMORY_ATTRIBUTES E" by (rule n)+
  show "entry_of E b va \<noteq> 0" using n(3) by (rule contrapos_nn) (simp add: block_address_def)
qed

text \<open>C28: an image runs where it is linked. A build that goes through has selected an implementation of the platform and
  given the linker a script. The initial page table of that platform is an identity map: an address of a block that is
  mapped is translated to itself. It maps all of the memory that the script lays the image out in, as normal memory,
  and UART and clock as device memory. Assumed: no attribute flag of the page table crate has a bit of the field that holds
  the block's address.\<close>

theorem image_mapped:
  assumes "attributes_law E" and "build_main (Some p) = (lines, Inr ())"
  shows "\<exists>b script m. PlatformImpl p = Some b \<and> ''cargo:rustc-link-arg=-T'' @ script \<in> set lines \<and>
    linker_script script = Some m \<and>
    (\<forall>va. unat (drop_bit 30 va) < 512 \<and> entry_of E b va \<noteq> 0 \<longrightarrow> walked E b va = va) \<and>
    entry_of E b (uart_base b) = EL1_DEVICE_ATTRIBUTES E \<and> entry_of E b (rtc_base b) = EL1_DEVICE_ATTRIBUTES E \<and>
    (\<forall>va. mem_origin m \<le> unat va \<and> unat va < mem_origin m + mem_length m \<longrightarrow>
       walked E b va = va \<and> block_attributes (entry_of E b va) = EL1_MEMORY_ATTRIBUTES E)"
proof -
  from assms(2) build_main_result [of p] obtain b where b: "PlatformImpl p = Some b" by auto
  from build_main_script [OF assms(2) b] obtain script where
    "''cargo:rustc-link-arg=-T'' @ script \<in> set lines"
    "linker_script script = Some \<lparr>mem_origin = image_origin b, mem_length = image_length b\<rparr>" by blast
  moreover have "walked E b va = va \<and> block_attributes (entry_of E b va) = EL1_MEMORY_ATTRIBUTES E"
    if "image_origin b \<le> unat va" "unat va < image_origin b + image_length b" for va
    using image_entry [OF assms(1) that] walked_identity [OF assms(1), of va b] by simp
  moreover have "entry_of E b (uart_base b) = EL1_DEVICE_ATTRIBUTES E" "entry_of E b (rtc_base b) = EL1_DEVICE_ATTRIBUTES E"
    using initial_idmap_covers [of E b] by simp_all
  ultimately show ?thesis using b walked_identity [OF assms(1)] by (intro exI conjI) auto
qed

theorem image_mapped_witness:
  "\<exists>b. PlatformImpl ''crosvm'' = Some b \<and> walked ex_pt_env b 0x80201234 = 0x80201234"
proof -
  let ?p = "''crosvm''"
  have "\<exists>lines. build_main (Some ?p) = (lines, Inr ())" by (simp add: build_main_result PlatformImpl_def)
  then obtain lines where run: "build_main (Some ?p) = (lines, Inr ())" by blast
  from image_mapped [OF ex_attributes_law run] obtain b script m where
    b: "PlatformImpl ?p = Some b" and script: "''cargo:rustc-link-arg=-T'' @ script \<in> set lines" "linker_script script = Some m"
    and maps: "mem_origin m \<le> unat (0x80201234 :: u64) \<and> unat (0x80201234 :: u64) < mem_origin m + mem_length m \<Longrightarrow>
      walked ex_pt_env b 0x80201234 = 0x80201234" by blast
  have "script = ''image.ld'' \<or> script = ''linker/crosvm.ld''"
    using script(1) run by (auto simp: build_main_def Let_def PLATFORMS_def)
  then have "m = crosvm_ld" using script(2) by (auto simp: linker_script_def)
  with maps b show ?thesis by (simp add: crosvm_ld_def)
qed

end
