(* ===== verification/Spec2Isabelle.thy ===== *)
theory Spec2Isabelle
  imports Ready Alarm_Life Registry Locks Build
begin

text \<open>
  A verification development for the demo operating system under src/: a Rust kernel for aarch64 virtual
  machines (QEMU and crosvm) that boots from a device tree, maps memory, sets up interrupts and PCI, finds
  VirtIO devices, starts other cores and runs a shell on a serial console.

  \<^bold>\<open>How the program is modelled.\<close> A function of the program is a definition of type
  \<^verbatim>\<open>('s, 'a) io\<close> (theory \<^verbatim>\<open>Prelude\<close>): it takes a state and gives a result and a state. The result is a value,
  or the way in which the call does not return: a panic with its reason, waiting for ever for a spin lock that is
  held, a deliberate endless loop, switching core or machine off, or running out of the fuel that bounds a loop.
  The state is a chain of records that grows with the components, one field per static variable of the program:
  \<^verbatim>\<open>io_state\<close> (locks, interrupt mask, console and logger), \<^verbatim>\<open>boot_state\<close> (\<^verbatim>\<open>FDT\<close>), \<^verbatim>\<open>irq_state\<close> (handler tables, \<^verbatim>\<open>GIC\<close>),
  \<^verbatim>\<open>pt_state\<close> (\<^verbatim>\<open>PAGETABLE\<close>), \<^verbatim>\<open>alarm_state\<close> (\<^verbatim>\<open>ALARM_FIRED\<close>) and \<^verbatim>\<open>sec_state\<close> (\<^verbatim>\<open>SECONDARY_STACKS\<close>). Every call of
  hardware, firmware or another crate is an event that is appended to the field \<^verbatim>\<open>trace\<close>; its reply is a function of
  the events so far, a field of an environment record (\<^verbatim>\<open>con_env\<close>, \<^verbatim>\<open>cpu_env\<close>, \<^verbatim>\<open>psci_env\<close>, \<^verbatim>\<open>irq_env\<close>, \<^verbatim>\<open>pt_env\<close>,
  \<^verbatim>\<open>pci_env\<close>, \<^verbatim>\<open>rtc_ops\<close>, \<^verbatim>\<open>virtio_ops\<close>, \<^verbatim>\<open>shell_ops\<close>, \<^verbatim>\<open>boot_ops\<close>, \<^verbatim>\<open>frame_ops\<close>). So a statement about a trace is one about
  what the program asks of its surroundings, for all behaviours of them that satisfy the laws it names
  (\<^verbatim>\<open>mapping_law\<close>, \<^verbatim>\<open>region_law\<close>, \<^verbatim>\<open>frame_law\<close>, \<^verbatim>\<open>bars_law\<close>, \<^verbatim>\<open>attributes_law\<close>, \<^verbatim>\<open>active_law\<close>, \<^verbatim>\<open>heap_apart\<close>). A constructor of a crate
  that may panic gives a result or an abort (\<^verbatim>\<open>MemoryRegion_new\<close>), and its law speaks of the results only. Machine integers are words of their
  width; additions that Rust checks panic in the model when they overflow.

  \<^bold>\<open>Theories, and the code they model.\<close>

  \<^item> \<^verbatim>\<open>Prelude\<close>: results, locks, the monad, its weakest preconditions (\<^verbatim>\<open>wp\<close>), the equations for calls that return
    (\<^verbatim>\<open>rets\<close>) and for runs (\<^verbatim>\<open>runs\<close>), and the locale \<^verbatim>\<open>frame\<close> for relations that operations keep.
  \<^item> \<^verbatim>\<open>Rust_Std\<close>: layouts, splitting, UTF-8 and number parsing of Rust's library. \<^verbatim>\<open>Machine\<close>: events, locks, the log
    (logger.rs). \<^verbatim>\<open>Fdt\<close>: the device tree as main.rs reads it.
  \<^item> \<^verbatim>\<open>Cpus\<close>: cpus.rs and exceptions.rs. \<^verbatim>\<open>Psci_Power\<close>: \<^verbatim>\<open>power_off\<close> and \<^verbatim>\<open>smc_for_psci\<close> of main.rs. \<^verbatim>\<open>Console\<close>: console.rs
    with its panic handler, drivers.rs, drivers/pl011.rs and drivers/uart16550.rs.
  \<^item> \<^verbatim>\<open>Interrupts\<close>: interrupts.rs. \<^verbatim>\<open>Pagetable\<close>: pagetable.rs, with the locale \<^verbatim>\<open>id_mapper\<close> for its clients.
    \<^verbatim>\<open>Platform\<close>: platform.rs and the two boards, with the locale \<^verbatim>\<open>platform_impl\<close>.
  \<^item> \<^verbatim>\<open>Alarm\<close>: apps/alarm.rs. \<^verbatim>\<open>Secondary\<close>: secondary_entry.rs, the program of the other cores in apps/cpus.rs, and
    taking an interrupt with the handlers that the program registers. \<^verbatim>\<open>Cpu_Apps\<close>: the commands of apps/cpus.rs.
  \<^item> \<^verbatim>\<open>Pci\<close> and \<^verbatim>\<open>Pci_Bars\<close>: pci.rs, the operations and the theory of the address pools.
  \<^item> \<^verbatim>\<open>Virtio\<close>: virtio.rs and devices.rs. \<^verbatim>\<open>Frames\<close>: what operations leave alone, as locales of views of the
    state: \<^verbatim>\<open>irq_view\<close> for views that interrupts keep, \<^verbatim>\<open>command_view\<close> for views that commands keep, and \<^verbatim>\<open>command_frame\<close> for
    relations that hold whenever such a view and the interrupt controller are left alone. \<^verbatim>\<open>Shell\<close>: apps/shell.rs. \<^verbatim>\<open>Boot\<close>: the rest of main.rs, \<^verbatim>\<open>main\<close> in four phases.
  \<^item> \<^verbatim>\<open>Alarm_Life\<close>: the alarm's interrupt from its acknowledgement to its end, over any commands of the shell and any
    interrupts in between.
  \<^item> \<^verbatim>\<open>Registry\<close>: the tables of interrupts.rs as an implementation of an abstract registry (locale \<^verbatim>\<open>implements\<close>).
    \<^verbatim>\<open>Discipline\<close>: what each core runs, and that it keeps a relation between start and end which its primitive operations
    keep (locale \<^verbatim>\<open>discipline\<close>). \<^verbatim>\<open>Locks\<close>: two such relations, the order of the spin locks and locks under masked interrupts. \<^verbatim>\<open>Typing\<close>: the shell with somebody at the keyboard. \<^verbatim>\<open>Ready\<close>: the
    state that booting establishes. \<^verbatim>\<open>Build\<close>: build.rs and the linker scripts.
  \<^item> This theory: the properties of a whole boot.

  \<^bold>\<open>What is shown.\<close>

  \<^item> Interrupts: registration and dispatch on every branch, that on one core no interrupt has both a shared and a
    private handler, and that with two cores this can fail. Taking an interrupt leaves what the interrupted code
    sees unchanged except for what handlers change. Any sequence of registrations and removals by any cores
    answers, and refuses, as the abstract registry does.
  \<^item> Locks: every path takes the spin locks in one order and gives them back, so cores that run at the same time
    cannot wait for each other in a circle, and none waits for a lock of its own. The locks that interrupt handlers take
    are waited for with interrupts masked, so an interrupt never waits for a lock of the waiting code it came into.
  \<^item> PCI: the decoding of ranges, trimming to what the page table covers, that BARs are aligned, inside the
    ranges of their root and apart from each other, that the allocator is created without a panic on trimmed
    ranges, and that mapping the ranges makes them device memory.
  \<^item> Console and power: a blocking read returns once input is there and never reads a console that is not ready;
    interrupt handlers end the interrupt; a panic is reported and powers the machine off, except when the console fails
    or its lock is taken, for which the panic handler waits for ever.
  \<^item> Boards: the initial page table is an identity map that covers image and devices; an image that was built
    for a board is linked to memory that the board's table maps to itself.
  \<^item> Alarm, cores: every alarm interrupt that is acknowledged is ended once, a software generated interrupt is sent
    with the identifier asked for and the target \<^verbatim>\<open>All\<close>, stacks of different cores
    have no byte in common, cores that are started end switched off, commands query and start the cores they name.
  \<^item> VirtIO: the devices listed are those found, in the order of the search, and each block,
    console and socket device is added to the list of its kind; DMA memory is given back as it was allocated.
  \<^item> Shell: the line editor against a specification over what was typed, and that it returns; a session that
    ends in \<^verbatim>\<open>exit\<close> ends; sessions keep the kernel's state, the handlers of every core included; \<^verbatim>\<open>vcat\<close> sends what is typed
    to the peer and port that were named, writes what comes from there, and loses and invents no byte; a line that is
    too long panics and so powers the machine off.
  \<^item> Boot: the page table is the identity on what the device tree describes, every BAR that booting sets is device
    memory of the active table, the statics are as the rest of the program needs them, and \<^verbatim>\<open>main\<close> never returns but
    ends by powering off, which it does when \<^verbatim>\<open>exit\<close> is typed.

  \<^bold>\<open>Fuel.\<close> Loops that end only when something arrives take a bound: \<^verbatim>\<open>console_read\<close>, \<^verbatim>\<open>read_line\<close>, \<^verbatim>\<open>vcat_receive\<close>,
  \<^verbatim>\<open>vcat_loop\<close> and \<^verbatim>\<open>shell_loop\<close>. Running out is the result \<^verbatim>\<open>Still_running\<close>, which is not a return. \<^verbatim>\<open>console_read_returns\<close> shows that a
  read of the console ends within one look more than the waits before input is there, and that larger bounds give
  the same; \<^verbatim>\<open>read_line_returns\<close> and \<^verbatim>\<open>shell_session_ends\<close> show the same of a line and of a session, for bounds that exceed
  the waits for a byte, the bytes of each line and the number of lines. What else is proved of these loops holds for
  every bound, and the examples run them to the end. All other loops run over finite data and recurse on it.

  \<^bold>\<open>Not modelled.\<close> The assembly entry code and exception vectors, and the crates the program uses (page tables, GIC,
  PSCI, PCI, VirtIO, allocators, device tree parser, time formatting): they are not under src/ and enter as
  environments. The texts such crates render are tokens. The bytes of memory are modelled only where the program
  itself writes them (\<^verbatim>\<open>allocate_table\<close>). An operation runs on one core; what other cores do enters through replies,
  pending interrupts and the locks that are held when it starts, and sequences of operations on several cores are
  those of whole operations (\<^verbatim>\<open>Interrupts\<close>, \<^verbatim>\<open>Registry\<close>) or of cores that wait for locks (\<^verbatim>\<open>Locks\<close>): no claim is about the
  interleaving of single memory accesses. Interrupts are taken where the program waits, not between any two
  instructions. The locks inside the heap allocators belong to their crate. apps.rs declares modules only, the
  script \<^verbatim>\<open>image.ld\<close> is the run-time crate's, and the Makefile only calls other programs.
\<close>

section \<open>Booting\<close>

text \<open>C1: every block that booting writes to a memory BAR is device memory of the page table in use. When page
  table and devices have been set up, each address of each block is translated to itself with the attributes of
  devices, by the table that was activated and stored. Assumed: the page table crate and the frame allocators do
  what they document, and the ranges of a root do not overlap.\<close>

theorem boot_bars_mapped:
  fixes s :: "(irq_handler, 's) sec_state_scheme"
  assumes "mapping_law E translate" and "region_law E" and "bars_law E"
    and "frame_law A32 f32" and "frame_law A64 f64"
    and "main_pagetable E B fdt s = (Inr infos, t)" and "PAGETABLE s = None"
    and "\<forall>info \<in> set infos. ranges_apart (ranges info)"
    and "main_devices E V A32 A64 b fdt rtc infos t = (Inr r, u)"
  shows "\<exists>m new. PAGETABLE u = Some m \<and> last (trace t) = Pt (Activate (idmap_level m)) \<and>
    bar_blocks E (trace u) = new @ bar_blocks E (trace t) \<and>
    (\<forall>(a, n) \<in> set new. \<forall>v. unat v \<in> block a n \<longrightarrow>
       translate (trace u) (idmap_level m) v = Some (v, device_attributes E m))"
proof -
  obtain m where m: "PAGETABLE t = Some m" "last (trace t) = Pt (Activate (idmap_level m))"
    using main_pagetable_steps [OF assms(6,7)] by auto
  obtain new where new: "bar_blocks E (trace u) = new @ bar_blocks E (trace t)"
    and pools: "\<forall>(a, n) \<in> set new. \<exists>info \<in> set infos. block a n \<subseteq> pool (ranges info)"
    using main_devices_within [OF assms(9,3,4,5,8)] unfolding bars_within_def by blast
  have "translate (trace u) (idmap_level m) v = Some (v, device_attributes E m)"
    if bar: "(a, n) \<in> set new" "unat v \<in> block a n" for a n v
  proof -
    obtain info where "info \<in> set infos" "unat v \<in> pool (ranges info)" using pools bar by blast
    then show ?thesis
      using main_pagetable_maps [OF assms(1,2,6,7)] main_devices_translate [OF assms(9,1)] m(1) by fastforce
  qed
  then show ?thesis using m new main_devices_translate [OF assms(9,1)] by fastforce
qed

lemma os_main_never: "os_main E B A A32 A64 irqs n x0 s \<noteq> (Inr (x :: 'r), t :: (irq_handler, 's) sec_state_scheme)"
proof -
  have "power_off E u \<noteq> (Inr (y :: 'r), t)" for u y
    using wpre_runs [OF wpre_power_off, of E u y t] by auto
  then show ?thesis by (auto simp: os_main_def rets_bind)
qed

lemma os_main_off:
  fixes s :: "(irq_handler, 's) sec_state_scheme"
  assumes "FDT s = None" and "main_console E B (arg_board A) x0 s = (Inr (fdt, rtc), s1)"
    and "main_pagetable E B fdt s1 = (Inr infos, s2)"
    and "main_devices E (arg_virtio A) A32 A64 (arg_board A) fdt rtc infos s2 = (Inr (devices, roots), s3)"
    and "shell_main E (A\<lparr>arg_roots := roots, arg_devices := devices, arg_fdt := fdt\<rparr>) (take_irq E b pending) n s3 = (Inr (), s4)"
    and "log E Info ''Powering off.'' [] s4 = (Inr (), s5)"
  shows "\<exists>e t es. os_main E B A A32 A64 (take_irq E b pending) n x0 s = (Inl e :: abort + 'r, t) \<and>
    fdt_from_raw B x0 = Inr fdt \<and>
    trace t = trace s5 @ Psci (Psci_system_off (psci_conduit (smc_for_psci_fdt (Some fdt)))) # map Con es \<and>
    (system_off_reply E (trace s5) (psci_conduit (smc_for_psci_fdt (Some fdt))) = None \<longrightarrow> e = Powered_off \<and> es = [])"
proof -
  have raw: "fdt_from_raw B x0 = Inr fdt" and "FDT s4 = Some fdt"
    using main_console_fdt [OF assms(2,1)] main_pagetable_fdt [OF assms(3)]
      tree.field_kept [OF fdt_field.stays_main_devices assms(4)] shell_main_effect [OF assms(5)] by simp_all
  then have c: "off_conduit s5 = psci_conduit (smc_for_psci_fdt (Some fdt))"
    using log_returned [OF assms(6)] by (auto simp: off_conduit_def)
  have run: "os_main E B A A32 A64 (take_irq E b pending) n x0 s = (power_off E s5 :: (abort + 'r) \<times> _)"
    using assms(2-6) by (simp add: os_main_def bind_run)
  obtain r t where off: "(power_off E s5 :: (abort + 'r) \<times> _) = (r, t)" by fastforce
  with wpre_power_off [of E s5, where 'a = 'r] obtain e es where
    "r = Inl e" "trace t = trace s5 @ Psci (Psci_system_off (off_conduit s5)) # map Con es"
    by (auto simp: wpre_def split: sum.splits)
  moreover have "e = Powered_off \<and> es = []" if reply: "system_off_reply E (trace s5) (off_conduit s5) = None"
  proof -
    have "(power_off E s5 :: (abort + 'r) \<times> _) =
        (Inl Powered_off, s5\<lparr>trace := trace s5 @ [Psci (Psci_system_off (off_conduit s5))]\<rparr>)"
      by (rule power_off_powered [OF reply])
    with off calculation show ?thesis by auto
  qed
  ultimately show ?thesis using run off raw by (auto simp: c)
qed


text \<open>C9: \<^verbatim>\<open>main\<close> never returns. When its four phases have returned and the last line is logged, it ends by
  asking the firmware to switch the machine off, over the conduit that the device tree at the address it was
  given names, after which nothing but lines on the console follows; and if the firmware obeys, that call is the
  last one.\<close>

theorem os_main_powers_off:
  fixes s :: "(irq_handler, 's) sec_state_scheme"
  assumes "FDT s = None" and "main_console E B (arg_board A) x0 s = (Inr (fdt, rtc), s1)"
    and "main_pagetable E B fdt s1 = (Inr infos, s2)"
    and "main_devices E (arg_virtio A) A32 A64 (arg_board A) fdt rtc infos s2 = (Inr (devices, roots), s3)"
    and "shell_main E (A\<lparr>arg_roots := roots, arg_devices := devices, arg_fdt := fdt\<rparr>) (take_irq E b pending) n s3 = (Inr (), s4)"
    and "log E Info ''Powering off.'' [] s4 = (Inr (), s5)"
  shows "(\<forall>irqs k s' x t. os_main E B A A32 A64 irqs k x0 s' \<noteq> (Inr (x :: 'r), t :: (irq_handler, 's) sec_state_scheme)) \<and>
    (\<exists>e t es. os_main E B A A32 A64 (take_irq E b pending) n x0 s = (Inl e :: abort + 'r, t) \<and>
    fdt_from_raw B x0 = Inr fdt \<and>
    trace t = trace s5 @ Psci (Psci_system_off (psci_conduit (smc_for_psci_fdt (Some fdt)))) # map Con es \<and>
    (system_off_reply E (trace s5) (psci_conduit (smc_for_psci_fdt (Some fdt))) = None \<longrightarrow> e = Powered_off \<and> es = []))"
  using os_main_off [OF assms, where 'r = 'r] by (simp add: os_main_never)

text \<open>C3: from reset to power off. The machine boots; at the prompt somebody types any number of lines that only
  print and then \<^verbatim>\<open>exit\<close>, at their own pace, while the interrupts of console and clock come in at any wait; and the machine is
  switched off: \<^verbatim>\<open>main\<close> ends in the call of the firmware that does so, over the conduit that the device tree names.
  Assumed: the phases before the shell return, and console, interrupt controller and firmware do as they are told.\<close>

theorem exit_powers_off:
  fixes s :: "(irq_handler, 's) sec_state_scheme"
  assumes ok: "console_ok E" "gic_ok E" and off: "\<And>h c. system_off_reply E h c = None"
    and boot: "reset_state s" "main_console E B (arg_board A) x0 s = (Inr (fdt, rtc), s1)"
      "main_pagetable E B fdt s1 = (Inr infos, s2)"
      "main_devices E (arg_virtio A) A32 A64 (arg_board A) fdt rtc infos s2 = (Inr (devices, roots), s3)"
    and kb: "keyboard E typing w" "drop (reads (trace s3)) typing = session_text bodies @ rest"
    and lines: "list_all (session_line n) bodies" and n: "w < n" "4 < n" "length bodies < n"
    and ack: "\<And>h. pending h \<Longrightarrow> ack_reply E h \<in> {Some (RTC_IRQ (arg_board A)), Some (CONSOLE_IRQ (arg_board A))}"
  shows "\<exists>t. os_main E B A A32 A64 (take_irq E (arg_board A) pending) n x0 s = (Inl Powered_off :: abort + 'r, t) \<and>
    last (trace t) = Psci (Psci_system_off (psci_conduit (smc_for_psci_fdt (Some fdt))))"
proof -
  let ?A = "A\<lparr>arg_roots := roots, arg_devices := devices, arg_fdt := fdt\<rparr>"
  have ready: "os_ready E s3" "gic_set s3" "GIC_lock \<notin> set (held s3)" "my_private E s3 (RTC_IRQ (arg_board ?A)) = None"
    and sh: "shared_irq_handlers s3 = [CONSOLE_IRQ (arg_board A) \<mapsto> Console_handle_irq]"
    using boot_sets [OF boot] by simp_all
  have "\<exists>k. ack_reply E h = Some k \<and> (k = RTC_IRQ (arg_board ?A) \<or> my_private E s3 k \<noteq> None \<or> shared_irq_handlers s3 k \<noteq> None)"
    if "pending h" for h using ack [OF that] by (auto simp: sh)
  from shell_session [OF ok kb(1) n lines ready kb(2), where pending = pending, OF this]
  obtain s4 where sm: "shell_main E ?A (take_irq E (arg_board A) pending) n s3 = (Inr (), s4)" and "os_ready E s4" by blast
  then obtain es where lg: "log E Info ''Powering off.'' [] s4 = (Inr (), s4\<lparr>trace := trace s4 @ es\<rparr>)"
    using log_run_traced [OF ok(1), of s4] by (fastforce simp: os_ready_def)
  have "FDT s = None" using boot(1) by (simp add: reset_state_def)
  from os_main_off [OF this boot(2-4) sm lg, where 'r = 'r] off show ?thesis by auto
qed

theorem boot_bars_mapped_witness:
  "\<exists>t u. main_pagetable (ex_typing ''x'') ex_boot_ops ex_boot_fdt ((ex_up False [])\<lparr>held := [], PAGETABLE := None\<rparr>) = (Inr [ex_root], t) \<and>
     main_devices (ex_typing ''x'') ex_virtio bump_ops bump_ops Qemu ex_boot_fdt 0 [ex_root] t =
       (Inr (devices_new 0, [0x72000000]), u) \<and>
     table_of (trace u) 1 0x10004abc = Some (0x10004abc, device_attributes (ex_typing ''x'') IdMap_El1)"
proof -
  let ?E = "ex_typing ''x''" and ?s = "(ex_up False [])\<lparr>held := [], PAGETABLE := None\<rparr>"
  obtain h where h: "silent h" "main_pagetable ?E ex_boot_ops ex_boot_fdt ?s = (Inr [ex_root], ex_up False h)"
    using ex_main_pagetable [of ?s "''x''"] by (auto simp: ex_up_def)
  obtain h' where h': "main_devices ?E ex_virtio bump_ops bump_ops Qemu ex_boot_fdt 0 [ex_root] (ex_up False h) =
      (Inr (devices_new 0, [0x72000000]), ex_up True h')"
    and blocks: "bar_blocks ?E h' = [(0x10004000, 0x4000), (0x10000000, 0x1000)] @ bar_blocks ?E h"
    using ex_main_devices [OF h(1), of "''x''" 0] by blast
  have laws: "region_law ?E" "bars_law ?E"
    by (simp_all add: region_law_def in_region_def bars_law_def) (simp add: ex_typing_def)
  have "unat (0x10004abc :: u64) \<in> block (0x10004000 :: u64) (0x4000 :: u64)" by (simp add: block_def)
  then have "table_of h' 1 0x10004abc = Some (0x10004abc, device_attributes ?E IdMap_El1)"
    using boot_bars_mapped [OF table_of_law laws bump_frame_law bump_frame_law h(2) _ _ h'] blocks ex_ranges_apart
    by (auto simp: ex_up_def)
  with h(2) h' show ?thesis by auto
qed

lemma ex_exit_session: "ascii ex_exit = session_text []"
  by (simp add: session_text_def ex_exit_def ascii_def)

theorem os_main_powers_off_witness:
  "\<exists>t. os_main (ex_typing ex_exit) ex_boot_ops ex_shell_args bump_ops bump_ops (take_irq (ex_typing ex_exit) Qemu (\<lambda>_. False))
     ex_fuel 0x40000000 ex_reset = (Inl Powered_off :: abort + unit, t) \<and>
   last (trace t) = Psci (Psci_system_off (psci_conduit (smc_for_psci_fdt (Some ex_boot_fdt))))"
proof -
  let ?E = "ex_typing ex_exit" and ?A = "ex_shell_args\<lparr>arg_roots := [0x72000000], arg_devices := devices_new PL031_BASE_ADDRESS, arg_fdt := ex_boot_fdt\<rparr>"
  have A: "arg_board ex_shell_args = Qemu" "arg_virtio ex_shell_args = ex_virtio" by (simp_all add: ex_shell_args_def)
  obtain s1 s2 s3 where b: "main_console ?E ex_boot_ops (arg_board ex_shell_args) 0x40000000 ex_reset = (Inr (ex_boot_fdt, PL031_BASE_ADDRESS), s1)"
    "main_pagetable ?E ex_boot_ops ex_boot_fdt s1 = (Inr [ex_root], s2)"
    "main_devices ?E (arg_virtio ex_shell_args) bump_ops bump_ops (arg_board ex_shell_args) ex_boot_fdt PL031_BASE_ADDRESS [ex_root] s2 =
      (Inr (devices_new PL031_BASE_ADDRESS, [0x72000000]), s3)" "silent (trace s3)" "s3 = ex_up True (trace s3)"
    unfolding A by (rule ex_boot [of ex_exit])
  obtain t where t: "shell_main ?E ?A (take_irq ?E Qemu (\<lambda>_. False)) ex_fuel s3 = (Inr (), t)"
    "CONSOLE_lock \<notin> set (held t)" "logger t = Some Debug"
    using ex_shell [OF b(4), of ?A] b(5) by (auto simp: ex_shell_args_def ex_idle_def)
  let ?t = "t\<lparr>trace := trace t @ [Con (Log_line Info ''Powering off.'' [])]\<rparr>"
  have "log ?E Info ''Powering off.'' [] t = (Inr (), ?t)" using t(2,3) by (simp add: rets_log logs_def less_eq_level_def)
  moreover have "FDT ex_reset = None" by (simp add: ex_reset_def)
  moreover have "system_off_reply ?E h c = None" for h c by (simp add: ex_typing_def ex_pci_env_def)
  ultimately show ?thesis
    using os_main_powers_off [OF _ b(1-3) t(1), where 'r = unit] by auto
qed

theorem exit_powers_off_witness:
  "\<exists>t. os_main (ex_typing ex_exit) ex_boot_ops ex_shell_args bump_ops bump_ops
      (take_irq (ex_typing ex_exit) (arg_board ex_shell_args) (\<lambda>_. False)) ex_fuel 0x40000000 ex_reset =
    (Inl Powered_off :: abort + unit, t)"
proof -
  let ?E = "ex_typing ex_exit"
  have A: "arg_board ex_shell_args = Qemu" "arg_virtio ex_shell_args = ex_virtio" by (simp_all add: ex_shell_args_def)
  obtain s1 s2 s3 where b: "main_console ?E ex_boot_ops (arg_board ex_shell_args) 0x40000000 ex_reset = (Inr (ex_boot_fdt, PL031_BASE_ADDRESS), s1)"
    "main_pagetable ?E ex_boot_ops ex_boot_fdt s1 = (Inr [ex_root], s2)"
    "main_devices ?E (arg_virtio ex_shell_args) bump_ops bump_ops (arg_board ex_shell_args) ex_boot_fdt PL031_BASE_ADDRESS [ex_root] s2 =
      (Inr (devices_new PL031_BASE_ADDRESS, [0x72000000]), s3)" "silent (trace s3)"
    unfolding A by (rule ex_boot [of ex_exit])
  have ok: "console_ok ?E" "gic_ok ?E" "system_off_reply ?E h c = None" for h c
    by (simp_all add: console_ok_def gic_ok_def) (simp add: ex_typing_def ex_pci_env_def)
  have kb: "keyboard ?E (ascii ex_exit) 0" by (auto simp: keyboard_def reads_def)
  have typed: "drop (reads (trace s3)) (ascii ex_exit) = session_text [] @ []"
    using b(4) by (simp add: ex_exit_session reads_def silent_def)
  have n: "0 < ex_fuel" "4 < ex_fuel" "length ([] :: u8 list list) < ex_fuel" by (simp_all add: ex_fuel_def)
  from exit_powers_off [OF ok ex_reset_state b(1-3) kb typed _ n, where pending = "\<lambda>_. False" and 'r = unit]
  show ?thesis by auto
qed

end
